theory Spec2Isabelle
  imports Main "HOL-Library.Sublist" "HOL-Library.Char_ord" "HOL-Library.List_Lexorder"
begin

section \<open>Data model\<close>

text \<open>
  The durable entities follow the Prisma schema of the repository
  (\<^verbatim>\<open>spec-data-structure.md\<close>): Channel, Post, Media, PostButton, Schedule,
  PostStatistics. Record fields carry a short prefix because HOL record fields share one
  name space. Text is a \<open>string\<close> (the UTF-8 bytes of the JavaScript string), time
  stamps are natural numbers (milliseconds), row ids are the autoincrement counters of
  the tables. The columns \<^verbatim>\<open>created_at\<close> and \<^verbatim>\<open>updated_at\<close> are written
  by the database only and read by none of the functions modelled here; they are left
  out.
\<close>

datatype PostStatus = DRAFT | SCHEDULED | PUBLISHED | FAILED

datatype ScheduleStatus = PENDING | SCHEDULE_PUBLISHED | SCHEDULE_FAILED | CANCELLED

datatype MediaType = PHOTO | VIDEO | DOCUMENT | ANIMATION

record Channel =
  c_id :: nat
  c_channel_id :: int
  c_channel_title :: string
  c_channel_username :: "string option"
  c_is_active :: bool

record Post =
  p_id :: nat
  p_channel_id :: nat
  p_text :: string
  p_status :: PostStatus
  p_published_at :: "nat option"
  p_telegram_message_id :: "int option"

record Media =
  m_id :: nat
  m_post_id :: nat
  m_file_id :: string
  m_file_type :: MediaType
  m_file_size :: "nat option"
  m_caption :: "string option"
  m_position :: nat

record PostButton =
  b_id :: nat
  b_post_id :: nat
  b_text :: string
  b_url :: string
  b_row :: int
  b_position :: int

text \<open>
  Exceptions. The services wrap every failure of the ORM client in a fresh
  \<^verbatim>\<open>Error\<close> with a fixed (Russian) message; one constructor stands for each
  message of the source.
\<close>

datatype exn =
    StoreError                \<comment> \<open>thrown by the ORM client: store unavailable, constraint violated, record missing\<close>
  | PlatformError             \<comment> \<open>thrown by \<^verbatim>\<open>bot.api.*\<close>\<close>
  | ChatError                 \<comment> \<open>thrown by \<^verbatim>\<open>ctx.reply\<close> or \<^verbatim>\<open>ctx.editMessageText\<close>\<close>
  | BotInstanceNotAvailable   \<comment> \<open>\<^verbatim>\<open>new Error('Bot instance not available')\<close>\<close>
  | CreatePostFailed          \<comment> \<open>thrown by createPost\<close>
  | UpdatePostFailed          \<comment> \<open>thrown by updatePost\<close>
  | AddMediaFailed            \<comment> \<open>thrown by addMedia\<close>
  | AddButtonFailed           \<comment> \<open>thrown by addButton\<close>
  | SchedulePostFailed        \<comment> \<open>thrown by schedulePost\<close>
  | PostNotFound              \<comment> \<open>thrown inside duplicatePost when the original is missing\<close>
  | DuplicatePostFailed       \<comment> \<open>thrown by duplicatePost\<close>

datatype LastError =
    CheckPublishLogs          \<comment> \<open>\<^verbatim>\<open>'Failed to publish to Telegram - check telegramPublishService logs'\<close>\<close>
  | ErrorMessage exn          \<comment> \<open>\<^verbatim>\<open>error.message\<close> of a caught exception\<close>

record Schedule =
  s_id :: nat
  s_post_id :: nat
  s_scheduled_at :: nat
  s_published_at :: "nat option"
  s_status :: ScheduleStatus
  s_attempts :: nat
  s_last_error :: "LastError option"

record PostStatistics =
  st_id :: nat
  st_post_id :: nat
  st_views_count :: nat
  st_forwards_count :: nat
  st_reactions_count :: nat

record Store =
  channels :: "Channel list"
  posts :: "Post list"
  media_rows :: "Media list"
  post_buttons :: "PostButton list"
  schedules :: "Schedule list"
  post_statistics :: "PostStatistics list"
  next_post_id :: nat
  next_media_id :: nat
  next_button_id :: nat
  next_schedule_id :: nat

subsection \<open>The session (ephemeral draft)\<close>

record SessionMediaFile =
  fileId :: string
  fileType :: MediaType
  fileSize :: "nat option"
  position :: nat
  caption :: "string option"

record SessionButton =
  sb_text :: string
  sb_url :: string
  sb_row :: int
  sb_position :: int

datatype DraftStep = StepChannel | StepText | StepMedia | StepButtons | StepTime | StepPreview

record PostDraft =
  d_id :: "nat option"
  channelId :: "nat option"
  d_text :: "string option"
  mediaFiles :: "SessionMediaFile list option"
  buttons :: "SessionButton list option"
  scheduledAt :: "nat option"
  d_status :: "PostStatus option"
  step :: "DraftStep option"

datatype AwaitingType = AwaitText | AwaitMedia | AwaitButton

record AwaitingInput =
  a_type :: AwaitingType
  messageId :: int

datatype Operation = OpNewpost | OpEditpost | OpSchedule | OpDrafts

record SessionData =
  postDraft :: "PostDraft option"
  awaitingInput :: "AwaitingInput option"
  currentOperation :: "Operation option"

subsection \<open>Messages\<close>

datatype MediaValidationError =
    FileTooLarge nat nat      \<comment> \<open>file size and limit, both in bytes\<close>
  | TooManyMedia              \<comment> \<open>\<^verbatim>\<open>Maximum 10 media files in one post\<close> (Russian in the source)\<close>

datatype 'e ValidationResult = Valid | Invalid 'e

text \<open>
  The texts the bot sends to the admin, one constructor per message of the source (the
  texts are Russian; the arguments are the interpolated values).
\<close>

datatype bot_msg =
    SessionExpiredNewpost                       \<comment> \<open>session expired, start again with /newpost\<close>
  | ValidationErrorMessage MediaValidationError \<comment> \<open>buildValidationErrorMessage(error)\<close>
  | MediaUploadMessage nat                      \<comment> \<open>buildMediaUploadMessage(count)\<close>
  | MediaUploadFailed                           \<comment> \<open>an error occurred while uploading media\<close>
  | NotEnoughDataToPublish                      \<comment> \<open>not enough data to publish\<close>
  | NotEnoughDataForDraft                       \<comment> \<open>not enough data to save the draft\<close>
  | NotEnoughData                               \<comment> \<open>not enough data\<close>
  | PostPublishedMessage string nat             \<comment> \<open>post published to the channel: channel name, post id\<close>
  | PostSavedNotPublished string nat            \<comment> \<open>post saved in the database but not published: channel name, post id\<close>
  | PublishFailedMessage                        \<comment> \<open>could not publish the post\<close>
  | SaveDraftFailedMessage                      \<comment> \<open>could not save the draft\<close>
  | ScheduleFailedMessage exn                   \<comment> \<open>could not schedule the post: + error message\<close>
  | PostCreatedMessage string "nat option" bool \<comment> \<open>buildPostCreatedMessage(channelName, scheduledAt, isDraft)\<close>

datatype chat_request = Reply bot_msg | EditMessageText bot_msg

record KeyboardButton =
  kb_text :: string
  kb_url :: string

type_synonym InlineKeyboard = "KeyboardButton list list"

record InputMedia =
  im_type :: MediaType
  im_media :: string
  im_caption :: "string option"

datatype tg_request =
    SendMessage string string "InlineKeyboard option"
  | SendPhoto string string string "InlineKeyboard option"
  | SendVideo string string string "InlineKeyboard option"
  | SendDocument string string string "InlineKeyboard option"
  | SendAnimation string string string "InlineKeyboard option"
  | SendMediaGroup string "InputMedia list"

section \<open>The world: store, session, platform, and their failures\<close>

text \<open>
  Every function of the source that awaits the store, the platform or the chat becomes a
  function from the world to an outcome and the new world. Effects persist when an
  exception is thrown: the world is returned in both cases.

  The environment is part of the world and never changes: \<open>clock\<close> is what
  \<^verbatim>\<open>new Date()\<close> returns, \<open>db_fault k\<close> says whether the \<open>k\<close>-th call of the
  ORM client throws (store unavailable), \<open>tg_result k\<close> is what the \<open>k\<close>-th call of
  \<^verbatim>\<open>bot.api\<close> returns (\<open>None\<close>: it throws, \<open>Some m\<close>: the message id),
  \<open>chat_fault k\<close> says whether the \<open>k\<close>-th reply to the admin throws.
  \<open>outbox\<close> lists the platform calls made, \<open>chat\<close> the messages delivered to the admin.
\<close>

datatype Bot = Bot

record World =
  db :: Store
  session :: SessionData
  botInstance :: "Bot option"
  outbox :: "tg_request list"
  chat :: "chat_request list"
  db_calls :: nat
  chat_calls :: nat
  clock :: nat
  db_fault :: "nat \<Rightarrow> bool"
  tg_result :: "nat \<Rightarrow> int option"
  chat_fault :: "nat \<Rightarrow> bool"

datatype 'a outcome = Return 'a | Throw exn

type_synonym 'a io = "World \<Rightarrow> 'a outcome \<times> World"

definition ret :: "'a \<Rightarrow> 'a io" where
  "ret x w = (Return x, w)"

definition throw :: "exn \<Rightarrow> 'a io" where
  "throw e w = (Throw e, w)"

definition bind :: "'a io \<Rightarrow> ('a \<Rightarrow> 'b io) \<Rightarrow> 'b io" where
  "bind m f w = (case m w of (Return x, w') \<Rightarrow> f x w' | (Throw e, w') \<Rightarrow> (Throw e, w'))"

definition try_catch :: "'a io \<Rightarrow> (exn \<Rightarrow> 'a io) \<Rightarrow> 'a io" where
  "try_catch m h w = (case m w of (Return x, w') \<Rightarrow> (Return x, w') | (Throw e, w') \<Rightarrow> h e w')"

fun for_each :: "'a list \<Rightarrow> ('a \<Rightarrow> unit io) \<Rightarrow> unit io" where
  "for_each [] f w = (Return (), w)"
| "for_each (x # xs) f w =
     (case f x w of (Return u, w') \<Rightarrow> for_each xs f w' | (Throw e, w') \<Rightarrow> (Throw e, w'))"

definition db_call :: "(Store \<Rightarrow> (exn + 'a) \<times> Store) \<Rightarrow> 'a io" where
  "db_call f w =
     (let k = db_calls w; w1 = w\<lparr>db_calls := k + 1\<rparr>
      in if db_fault w k then (Throw StoreError, w1)
         else (case f (db w) of
                 (Inl e, s') \<Rightarrow> (Throw e, w1\<lparr>db := s'\<rparr>)
               | (Inr x, s') \<Rightarrow> (Return x, w1\<lparr>db := s'\<rparr>)))"

definition tg_call :: "tg_request \<Rightarrow> int io" where
  "tg_call r w =
     (let k = length (outbox w); w1 = w\<lparr>outbox := outbox w @ [r]\<rparr>
      in case tg_result w k of None \<Rightarrow> (Throw PlatformError, w1) | Some m \<Rightarrow> (Return m, w1))"

definition chat_call :: "chat_request \<Rightarrow> unit io" where
  "chat_call r w =
     (let k = chat_calls w; w1 = w\<lparr>chat_calls := k + 1\<rparr>
      in if chat_fault w k then (Throw ChatError, w1)
         else (Return (), w1\<lparr>chat := chat w @ [r]\<rparr>))"

definition reply :: "bot_msg \<Rightarrow> unit io" where
  "reply m = chat_call (Reply m)"

definition editMessageText :: "bot_msg \<Rightarrow> unit io" where
  "editMessageText m = chat_call (EditMessageText m)"

section \<open>Validators (validators.ts)\<close>

definition MAX_TEXT_LENGTH :: nat where "MAX_TEXT_LENGTH = 4096"
definition MAX_PHOTO_SIZE :: nat where "MAX_PHOTO_SIZE = 10 * 1024 * 1024"
definition MAX_VIDEO_SIZE :: nat where "MAX_VIDEO_SIZE = 50 * 1024 * 1024"
definition MAX_DOCUMENT_SIZE :: nat where "MAX_DOCUMENT_SIZE = 50 * 1024 * 1024"
definition MAX_MEDIA_GROUP :: nat where "MAX_MEDIA_GROUP = 10"

datatype SizeClass = photo | video | document

text \<open>
  \<^verbatim>\<open>
  export function validateMediaSize(fileSize, fileType) {
    const limits = { photo: MAX_PHOTO_SIZE, video: MAX_VIDEO_SIZE, document: MAX_DOCUMENT_SIZE };
    const maxSize = limits[fileType];
    if (fileSize > maxSize) { return { valid: false, error: ... }; }
    return { valid: true };
  }
  export function validateMediaGroupSize(count) {
    if (count > TELEGRAM_LIMITS.MAX_MEDIA_GROUP) { return { valid: false, error: ... }; }
    return { valid: true };
  }
  \<close>
\<close>

definition limits :: "SizeClass \<Rightarrow> nat" where
  "limits t = (case t of photo \<Rightarrow> MAX_PHOTO_SIZE | video \<Rightarrow> MAX_VIDEO_SIZE | document \<Rightarrow> MAX_DOCUMENT_SIZE)"

definition validateMediaSize :: "nat \<Rightarrow> SizeClass \<Rightarrow> MediaValidationError ValidationResult" where
  "validateMediaSize fsize t =
     (let maxSize = limits t
      in if fsize > maxSize then Invalid (FileTooLarge fsize maxSize) else Valid)"

definition validateMediaGroupSize :: "nat \<Rightarrow> MediaValidationError ValidationResult" where
  "validateMediaGroupSize count = (if count > MAX_MEDIA_GROUP then Invalid TooManyMedia else Valid)"

subsection \<open>validateHTML\<close>

text \<open>
  \<^verbatim>\<open>
  export function validateHTML(text: string): { valid: boolean; error?: string } {
    const allowedTags = ['b', 'strong', 'i', 'em', 'u', 'ins', 's', 'strike', 'del',
                         'code', 'pre', 'a', 'spoiler'];
    const tagPattern = /<\/?([a-z]+)[^>]*>/gi;
    let match;
    const openTags: string[] = [];
    while ((match = tagPattern.exec(text)) !== null) {
      const fullTag = match[0];
      const tagName = match[1].toLowerCase();
      if (!allowedTags.includes(tagName)) {
        return { valid: false, error: `... <${tagName}>. ...: ${allowedTags.join(', ')}` };
      }
      if (fullTag.startsWith('</')) {
        const lastOpen = openTags.pop();
        if (lastOpen !== tagName) {
          return { valid: false, error: `...: ... </${lastOpen}>, ... </${tagName}>` };
        }
      } else if (!fullTag.endsWith('/>')) {
        openTags.push(tagName);
      }
    }
    if (openTags.length > 0) {
      return { valid: false, error: `...: ${openTags.map(t => `<${t}>`).join(', ')}` };
    }
    return { valid: true };
  }
  \<close>
  The regular expression reads, at a position of the text: a \<open><\<close>, an optional
  \<open>/\<close>, a non-empty run of ASCII letters (the group; the flag \<open>i\<close> adds the capital
  letters, and a greedy run followed by \<open>[^>]*\<close> is the longest run), then everything
  up to the first \<open>>\<close>. Where no \<open>>\<close> follows there is no match at that position.
\<close>

definition allowedTags :: "string list" where
  "allowedTags = [''b'', ''strong'', ''i'', ''em'', ''u'', ''ins'', ''s'', ''strike'', ''del'',
                  ''code'', ''pre'', ''a'', ''spoiler'']"

definition is_letter :: "char \<Rightarrow> bool" where
  "is_letter c = ((CHR ''a'' \<le> c \<and> c \<le> CHR ''z'') \<or> (CHR ''A'' \<le> c \<and> c \<le> CHR ''Z''))"

text \<open>\<^verbatim>\<open>toLowerCase\<close> on a run of ASCII letters (the only text it is applied to).\<close>

definition lower_char :: "char \<Rightarrow> char" where
  "lower_char c =
     (case map_of (zip ''ABCDEFGHIJKLMNOPQRSTUVWXYZ'' ''abcdefghijklmnopqrstuvwxyz'') c of
        Some l \<Rightarrow> l
      | None \<Rightarrow> c)"

definition toLowerCase :: "string \<Rightarrow> string" where
  "toLowerCase s = map lower_char s"

record RegExpMatch =
  fullTag :: string   \<comment> \<open>\<^verbatim>\<open>match[0]\<close>\<close>
  group1 :: string    \<comment> \<open>\<^verbatim>\<open>match[1]\<close>\<close>

text \<open>The match that starts at the head of the text, and the text after it.\<close>

definition match_at :: "string \<Rightarrow> (RegExpMatch \<times> string) option" where
  "match_at s =
     (case s of
        [] \<Rightarrow> None
      | c # r \<Rightarrow>
          if c \<noteq> CHR ''<'' then None
          else
            (let slash = (case r of [] \<Rightarrow> [] | c1 # r' \<Rightarrow> if c1 = CHR ''/'' then [c1] else []);
                 r1 = drop (length slash) r;
                 name = takeWhile is_letter r1;
                 r2 = dropWhile is_letter r1;
                 attrs = takeWhile (\<lambda>c. c \<noteq> CHR ''>'') r2;
                 r3 = dropWhile (\<lambda>c. c \<noteq> CHR ''>'') r2
             in if name = [] then None
                else (case r3 of
                        [] \<Rightarrow> None
                      | g # rest \<Rightarrow>
                          Some (\<lparr>fullTag = c # slash @ name @ attrs @ [g], group1 = name\<rparr>, rest))))"

text \<open>
  The successive results of \<^verbatim>\<open>tagPattern.exec(text)\<close>: the leftmost match, then the
  leftmost match after its end, until there is none.
\<close>

function exec_all :: "string \<Rightarrow> RegExpMatch list" where
  "exec_all s =
     (if s = [] then []
      else (case match_at s of
              Some (m, rest) \<Rightarrow> m # exec_all rest
            | None \<Rightarrow> exec_all (tl s)))"
  by pat_completeness auto
termination
proof (relation "measure length")
  show "wf (measure length)" by simp
next
  fix s :: string and x2 :: "RegExpMatch \<times> string" and m rest
  assume "s \<noteq> []" "match_at s = Some x2" "(m, rest) = x2"
  then have m: "match_at s = Some (m, rest)" by simp
  have shorter: "length ys < length xs"
    if "dropWhile P (dropWhile Q xs) = g # ys" for P Q and xs ys :: string and g
  proof -
    have "length (dropWhile P (dropWhile Q xs)) \<le> length xs"
      by (meson length_dropWhile_le order_trans)
    with that show ?thesis by simp
  qed
  from m have "length rest < length s"
    by (auto simp: match_at_def Let_def split: list.splits if_splits dest!: shorter)
  then show "(rest, s) \<in> measure length" by simp
next
  fix s :: string
  assume "s \<noteq> []" "match_at s = None"
  then show "(tl s, s) \<in> measure length" by (cases s) auto
qed

declare exec_all.simps [simp del]

definition utf8 :: "nat list \<Rightarrow> string" where
  "utf8 bytes = map char_of bytes"

fun join :: "string \<Rightarrow> string list \<Rightarrow> string" where
  "join sep [] = []"
| "join sep [x] = x"
| "join sep (x # y # ys) = x @ sep @ join sep (y # ys)"

text \<open>The three error messages; the Russian words are given by their UTF-8 bytes.\<close>

definition msg_disallowed :: "string \<Rightarrow> string" where
  "msg_disallowed tagName =
     utf8 [208, 157, 208, 181, 208, 180, 208, 190, 208, 191, 209, 131, 209, 129, 209, 130,
           208, 184, 208, 188, 209, 139, 208, 185] @ '' HTML-'' @
     utf8 [209, 130, 208, 181, 208, 179] @ '': '' @ (''<'' @ tagName @ ''>'') @ ''. '' @
     utf8 [208, 160, 208, 176, 208, 183, 209, 128, 208, 181, 209, 136, 208, 181, 208, 189,
           209, 139] @ '': '' @ join '', '' allowedTags"

definition msg_nesting :: "string option \<Rightarrow> string \<Rightarrow> string" where
  "msg_nesting lastOpen tagName =
     utf8 [208, 157, 208, 181, 208, 191, 209, 128, 208, 176, 208, 178, 208, 184, 208, 187,
           209, 140, 208, 189, 208, 176, 209, 143] @ '' '' @
     utf8 [208, 178, 208, 187, 208, 190, 208, 182, 208, 181, 208, 189, 208, 189, 208, 190,
           209, 129, 209, 130, 209, 140] @ '' '' @
     utf8 [209, 130, 208, 181, 208, 179, 208, 190, 208, 178] @ '': '' @
     utf8 [208, 190, 208, 182, 208, 184, 208, 180, 208, 176, 208, 181, 209, 130, 209, 129,
           209, 143] @ '' '' @
     (''</'' @ (case lastOpen of None \<Rightarrow> ''undefined'' | Some t \<Rightarrow> t) @ ''>'') @ '', '' @
     utf8 [208, 189, 208, 176, 208, 185, 208, 180, 208, 181, 208, 189] @ '' '' @
     (''</'' @ tagName @ ''>'')"

definition msg_unclosed :: "string list \<Rightarrow> string" where
  "msg_unclosed openTags =
     utf8 [208, 157, 208, 181, 208, 183, 208, 176, 208, 186, 209, 128, 209, 139, 209, 130,
           209, 139, 208, 181] @ '' HTML-'' @
     utf8 [209, 130, 208, 181, 208, 179, 208, 184] @ '': '' @
     join '', '' (map (\<lambda>t. ''<'' @ t @ ''>'') openTags)"

text \<open>
  The body of the \<^verbatim>\<open>while\<close> loop over the matches, with the array
  \<^verbatim>\<open>openTags\<close> (push appends, pop takes the last element and is
  \<^verbatim>\<open>undefined\<close> on the empty array).
\<close>

fun validate_loop :: "RegExpMatch list \<Rightarrow> string list \<Rightarrow> string ValidationResult" where
  "validate_loop [] openTags =
     (if length openTags > 0 then Invalid (msg_unclosed openTags) else Valid)"
| "validate_loop (m # ms) openTags =
     (let tagName = toLowerCase (group1 m)
      in if tagName \<notin> set allowedTags then Invalid (msg_disallowed tagName)
         else if prefix ''</'' (fullTag m) then
           (let lastOpen = (if openTags = [] then None else Some (last openTags))
            in if lastOpen \<noteq> Some tagName then Invalid (msg_nesting lastOpen tagName)
               else validate_loop ms (butlast openTags))
         else if \<not> suffix ''/>'' (fullTag m) then validate_loop ms (openTags @ [tagName])
         else validate_loop ms openTags)"

definition validateHTML :: "string \<Rightarrow> string ValidationResult" where
  "validateHTML s = validate_loop (exec_all s) []"

text \<open>
  The matches read as tags. A match is a closing tag when it starts with \<open></\<close>, a
  self-closing tag when it ends with \<open>/>\<close>, an opening tag otherwise; its name is the
  captured group in lower case. A sequence of tags is properly nested when every
  self-closing tag stands alone and every opening tag is matched by the closing tag of
  the same name after a properly nested sequence, all names being in the list.
\<close>

datatype tag = OpenTag string | CloseTag string | SelfClosingTag string

definition tag_of :: "RegExpMatch \<Rightarrow> tag" where
  "tag_of m =
     (if prefix ''</'' (fullTag m) then CloseTag (toLowerCase (group1 m))
      else if suffix ''/>'' (fullTag m) then SelfClosingTag (toLowerCase (group1 m))
      else OpenTag (toLowerCase (group1 m)))"

inductive properly_nested :: "tag list \<Rightarrow> bool" where
  nested_empty: "properly_nested []"
| nested_self: "name \<in> set allowedTags \<Longrightarrow> properly_nested [SelfClosingTag name]"
| nested_wrap: "name \<in> set allowedTags \<Longrightarrow> properly_nested ts \<Longrightarrow>
     properly_nested (OpenTag name # ts @ [CloseTag name])"
| nested_seq: "properly_nested ts \<Longrightarrow> properly_nested us \<Longrightarrow> properly_nested (ts @ us)"

section \<open>Session state (sessionState.ts)\<close>

definition getAwaitingInput :: "World \<Rightarrow> AwaitingInput option" where
  "getAwaitingInput w = awaitingInput (session w)"

definition getPostDraft :: "World \<Rightarrow> PostDraft option" where
  "getPostDraft w = postDraft (session w)"

definition empty_draft :: PostDraft where
  "empty_draft = \<lparr>d_id = None, channelId = None, d_text = None, mediaFiles = None,
     buttons = None, scheduledAt = None, d_status = None, step = None\<rparr>"

text \<open>
  \<^verbatim>\<open>ctx.session = { ...ctx.session, postDraft: { ...ctx.session?.postDraft, ...updates } }\<close>:
  the updates are a function on the draft, applied to the empty draft when there is none.
\<close>

definition updatePostDraft :: "(PostDraft \<Rightarrow> PostDraft) \<Rightarrow> World \<Rightarrow> World" where
  "updatePostDraft updates w =
     w\<lparr>session := (session w)\<lparr>postDraft :=
          Some (updates (case postDraft (session w) of None \<Rightarrow> empty_draft | Some d \<Rightarrow> d))\<rparr>\<rparr>"

definition clearPostDraft :: "World \<Rightarrow> World" where
  "clearPostDraft w =
     w\<lparr>session := (session w)\<lparr>postDraft := None, awaitingInput := None, currentOperation := None\<rparr>\<rparr>"

section \<open>Media upload (mediaInput.ts)\<close>

record PhotoSize =
  ph_file_id :: string
  ph_file_size :: "nat option"

record FileInfo =
  f_file_id :: string
  f_file_size :: "nat option"

record Message =
  msg_photo :: "PhotoSize list option"
  msg_video :: "FileInfo option"
  msg_document :: "FileInfo option"
  msg_animation :: "FileInfo option"
  msg_caption :: "string option"

datatype UploadType = UploadPhoto | UploadVideo | UploadDocument | UploadAnimation

text \<open>
  The first part of the \<^verbatim>\<open>try\<close> block of handleMediaUpload: file id, size and
  media type by upload type; \<open>None\<close> is the early \<^verbatim>\<open>return\<close> (no photo, no video,
  ...). The largest photo is the last of the array.
\<close>

definition extract_file :: "Message \<Rightarrow> UploadType \<Rightarrow> (string \<times> nat option \<times> MediaType) option" where
  "extract_file msg ty =
     (case ty of
        UploadPhoto \<Rightarrow>
          (case msg_photo msg of
             None \<Rightarrow> None
           | Some photos \<Rightarrow>
               if photos = [] then None
               else Some (ph_file_id (last photos), ph_file_size (last photos), PHOTO))
      | UploadVideo \<Rightarrow>
          (case msg_video msg of None \<Rightarrow> None
           | Some v \<Rightarrow> Some (f_file_id v, f_file_size v, VIDEO))
      | UploadDocument \<Rightarrow>
          (case msg_document msg of None \<Rightarrow> None
           | Some d \<Rightarrow> Some (f_file_id d, f_file_size d, DOCUMENT))
      | UploadAnimation \<Rightarrow>
          (case msg_animation msg of None \<Rightarrow> None
           | Some a \<Rightarrow> Some (f_file_id a, f_file_size a, ANIMATION)))"

definition validationType :: "UploadType \<Rightarrow> SizeClass" where
  "validationType ty =
     (case ty of UploadPhoto \<Rightarrow> photo | UploadVideo \<Rightarrow> video
      | UploadDocument \<Rightarrow> document | UploadAnimation \<Rightarrow> document)"

text \<open>
  \<^verbatim>\<open>if (fileSize) { ... validateMediaSize ... }\<close>: an absent size and the size 0 are
  both falsy and skip the check.
\<close>

definition size_check :: "nat option \<Rightarrow> UploadType \<Rightarrow> MediaValidationError ValidationResult" where
  "size_check fsize ty =
     (case fsize of
        None \<Rightarrow> Valid
      | Some n \<Rightarrow> if n = 0 then Valid else validateMediaSize n (validationType ty))"

text \<open>
  \<^verbatim>\<open>
    const mediaFiles = draft.mediaFiles || [];
    const groupValidation = validateMediaGroupSize(mediaFiles.length + 1);
    if (!groupValidation.valid) {
      await ctx.reply(buildValidationErrorMessage(groupValidation.error!));
      return;
    }
    const newMedia = { fileId, fileType: mediaType, fileSize,
                       position: mediaFiles.length, caption: ctx.message?.caption };
    mediaFiles.push(newMedia);
    updatePostDraft(ctx, { mediaFiles });
    await ctx.reply(buildMediaUploadMessage(mediaFiles.length));
  \<close>
\<close>

definition draft_media :: "PostDraft \<Rightarrow> SessionMediaFile list" where
  \<comment> \<open>\<^verbatim>\<open>draft.mediaFiles || []\<close>\<close>
  "draft_media draft = (case mediaFiles draft of None \<Rightarrow> [] | Some ms \<Rightarrow> ms)"

definition handleMediaUpload_try :: "Message \<Rightarrow> UploadType \<Rightarrow> PostDraft \<Rightarrow> unit io" where
  "handleMediaUpload_try msg ty draft =
     (case extract_file msg ty of
        None \<Rightarrow> ret ()
      | Some (fid, fsize, mediaType) \<Rightarrow>
          (case size_check fsize ty of
             Invalid e \<Rightarrow> reply (ValidationErrorMessage e)
           | Valid \<Rightarrow>
               (let files = draft_media draft
                in case validateMediaGroupSize (length files + 1) of
                     Invalid e \<Rightarrow> reply (ValidationErrorMessage e)
                   | Valid \<Rightarrow>
                       (let newMedia = \<lparr>fileId = fid, fileType = mediaType, fileSize = fsize,
                                         position = length files, caption = msg_caption msg\<rparr>;
                            files' = files @ [newMedia]
                        in bind (\<lambda>w. (Return (), updatePostDraft (\<lambda>d. d\<lparr>mediaFiles := Some files'\<rparr>) w))
                             (\<lambda>u. reply (MediaUploadMessage (length files')))))))"

definition handleMediaUpload :: "Message \<Rightarrow> UploadType \<Rightarrow> unit io" where
  "handleMediaUpload msg ty w =
     (case getAwaitingInput w of
        None \<Rightarrow> (Return (), w)
      | Some a \<Rightarrow>
          if a_type a \<noteq> AwaitMedia then (Return (), w)
          else (case getPostDraft w of
                  None \<Rightarrow> reply SessionExpiredNewpost w
                | Some draft \<Rightarrow>
                    try_catch (handleMediaUpload_try msg ty draft) (\<lambda>e. reply MediaUploadFailed) w))"

text \<open>A sequence of uploads, each handled in turn; an exception of one handler goes to
  the error middleware and the next update is handled in the world it left.\<close>

fun handleMediaUploads :: "(Message \<times> UploadType) list \<Rightarrow> World \<Rightarrow> World" where
  "handleMediaUploads [] w = w"
| "handleMediaUploads ((msg, ty) # us) w = handleMediaUploads us (snd (handleMediaUpload msg ty w))"

section \<open>The ORM client\<close>

text \<open>
  The calls of the ORM client the services make, as functions on the store. Each returns
  the result (or the error of a violated constraint: a missing record, a foreign key
  without its row, a second schedule of one post) and the new store. \<open>db_call\<close> adds
  the failure of the store itself.
\<close>

definition find_channel :: "Store \<Rightarrow> nat \<Rightarrow> Channel option" where
  "find_channel s i = find (\<lambda>c. c_id c = i) (channels s)"

definition find_post :: "Store \<Rightarrow> nat \<Rightarrow> Post option" where
  "find_post s i = find (\<lambda>p. p_id p = i) (posts s)"

definition find_schedule :: "Store \<Rightarrow> nat \<Rightarrow> Schedule option" where
  "find_schedule s i = find (\<lambda>x. s_id x = i) (schedules s)"

definition channel_findUnique :: "nat \<Rightarrow> Store \<Rightarrow> (exn + Channel option) \<times> Store" where
  "channel_findUnique i s = (Inr (find_channel s i), s)"

definition post_create :: "nat \<Rightarrow> string \<Rightarrow> PostStatus \<Rightarrow> Store \<Rightarrow> (exn + Post) \<times> Store" where
  "post_create ch txt st s =
     (case find_channel s ch of
        None \<Rightarrow> (Inl StoreError, s)
      | Some c \<Rightarrow>
          (let p = \<lparr>p_id = next_post_id s, p_channel_id = ch, p_text = txt, p_status = st,
                    p_published_at = None, p_telegram_message_id = None\<rparr>
           in (Inr p, s\<lparr>posts := posts s @ [p], next_post_id := next_post_id s + 1\<rparr>)))"

definition post_update :: "nat \<Rightarrow> (Post \<Rightarrow> Post) \<Rightarrow> Store \<Rightarrow> (exn + Post) \<times> Store" where
  "post_update i f s =
     (case find_post s i of
        None \<Rightarrow> (Inl StoreError, s)
      | Some p \<Rightarrow> (Inr (f p), s\<lparr>posts := map (\<lambda>q. if p_id q = i then f q else q) (posts s)\<rparr>))"

definition media_count :: "nat \<Rightarrow> Store \<Rightarrow> (exn + nat) \<times> Store" where
  "media_count postId s = (Inr (length (filter (\<lambda>m. m_post_id m = postId) (media_rows s))), s)"

text \<open>
  The column \<^verbatim>\<open>file_size Int?\<close> of the media table holds a 32-bit integer: the client
  refuses a size above \<open>2147483647\<close>.
\<close>

definition INT_MAX :: nat where "INT_MAX = 2147483647"

definition media_create ::
  "nat \<Rightarrow> string \<Rightarrow> MediaType \<Rightarrow> nat option \<Rightarrow> string option \<Rightarrow> nat \<Rightarrow> Store \<Rightarrow> (exn + Media) \<times> Store" where
  "media_create postId fid ftype fsize cap pos s =
     (case find_post s postId of
        None \<Rightarrow> (Inl StoreError, s)
      | Some p \<Rightarrow>
          if (case fsize of None \<Rightarrow> False | Some n \<Rightarrow> n > INT_MAX) then (Inl StoreError, s)
          else
          (let m = \<lparr>m_id = next_media_id s, m_post_id = postId, m_file_id = fid,
                    m_file_type = ftype, m_file_size = fsize, m_caption = cap, m_position = pos\<rparr>
           in (Inr m, s\<lparr>media_rows := media_rows s @ [m], next_media_id := next_media_id s + 1\<rparr>)))"

definition postButton_create ::
  "nat \<Rightarrow> string \<Rightarrow> string \<Rightarrow> int \<Rightarrow> int \<Rightarrow> Store \<Rightarrow> (exn + PostButton) \<times> Store" where
  "postButton_create postId txt u r pos s =
     (case find_post s postId of
        None \<Rightarrow> (Inl StoreError, s)
      | Some p \<Rightarrow>
          (let b = \<lparr>b_id = next_button_id s, b_post_id = postId, b_text = txt, b_url = u,
                    b_row = r, b_position = pos\<rparr>
           in (Inr b, s\<lparr>post_buttons := post_buttons s @ [b],
                          next_button_id := next_button_id s + 1\<rparr>)))"

definition schedule_create :: "nat \<Rightarrow> nat \<Rightarrow> Store \<Rightarrow> (exn + Schedule) \<times> Store" where
  "schedule_create postId due s =
     (if find_post s postId = None \<or> list_ex (\<lambda>x. s_post_id x = postId) (schedules s)
      then (Inl StoreError, s)
      else
        (let x = \<lparr>s_id = next_schedule_id s, s_post_id = postId, s_scheduled_at = due,
                  s_published_at = None, s_status = PENDING, s_attempts = 0,
                  s_last_error = None\<rparr>
         in (Inr x, s\<lparr>schedules := schedules s @ [x],
                        next_schedule_id := next_schedule_id s + 1\<rparr>)))"

definition schedule_update ::
  "nat \<Rightarrow> (Schedule \<Rightarrow> Schedule) \<Rightarrow> Store \<Rightarrow> (exn + Schedule) \<times> Store" where
  "schedule_update i f s =
     (case find_schedule s i of
        None \<Rightarrow> (Inl StoreError, s)
      | Some x \<Rightarrow>
          (Inr (f x), s\<lparr>schedules := map (\<lambda>y. if s_id y = i then f y else y) (schedules s)\<rparr>))"

text \<open>
  \<^verbatim>\<open>prisma.schedule.findMany({ where: { status: 'PENDING', scheduled_at: { lte: now } },
     orderBy: { scheduled_at: 'asc' } })\<close>; rows of equal time keep the order of the table.
\<close>

definition schedule_findMany_due :: "nat \<Rightarrow> Store \<Rightarrow> (exn + Schedule list) \<times> Store" where
  "schedule_findMany_due now s =
     (Inr (sort_key s_scheduled_at
             (filter (\<lambda>x. s_status x = PENDING \<and> s_scheduled_at x \<le> now) (schedules s))), s)"

record PostWithRelations =
  pr_post :: Post
  pr_channel :: "Channel option"
  pr_media :: "Media list"
  pr_buttons :: "PostButton list"
  pr_schedule :: "Schedule option"
  pr_statistics :: "PostStatistics option"

text \<open>
  \<^verbatim>\<open>
    prisma.post.findUnique({ where: { id: postId },
      include: { channel: true,
                 media: { orderBy: { position: 'asc' } },
                 buttons: { orderBy: [{ row: 'asc' }, { position: 'asc' }] },
                 schedule: true, statistics: true } })
  \<close>
  The order by row, then position, is a stable sort by position followed by a stable
  sort by row; rows that agree on the key keep the order of the table.
\<close>

definition post_findUnique :: "nat \<Rightarrow> Store \<Rightarrow> (exn + PostWithRelations option) \<times> Store" where
  "post_findUnique postId s =
     (Inr (case find_post s postId of
             None \<Rightarrow> None
           | Some p \<Rightarrow>
               Some \<lparr>pr_post = p,
                     pr_channel = find_channel s (p_channel_id p),
                     pr_media = sort_key m_position (filter (\<lambda>m. m_post_id m = postId) (media_rows s)),
                     pr_buttons = sort_key b_row (sort_key b_position
                        (filter (\<lambda>b. b_post_id b = postId) (post_buttons s))),
                     pr_schedule = find (\<lambda>x. s_post_id x = postId) (schedules s),
                     pr_statistics = find (\<lambda>x. st_post_id x = postId) (post_statistics s)\<rparr>), s)"

section \<open>Post service (postService.ts)\<close>

record CreatePostData =
  cp_channelId :: nat
  cp_text :: string
  cp_status :: "PostStatus option"

record UpdatePostData =
  up_text :: "string option"
  up_status :: "PostStatus option"

definition apply_update :: "UpdatePostData \<Rightarrow> Post \<Rightarrow> Post" where
  "apply_update data p =
     p\<lparr>p_text := (case up_text data of None \<Rightarrow> p_text p | Some t \<Rightarrow> t),
       p_status := (case up_status data of None \<Rightarrow> p_status p | Some st \<Rightarrow> st)\<rparr>"

text \<open>
  \<^verbatim>\<open>
  export async function createPost(data) {
    try {
      const post = await prisma.post.create({ data: { channel: { connect: { id: data.channelId } },
          text: data.text, status: data.status || PostStatus.DRAFT }, include: { channel: true } });
      return post;
    } catch (error) { throw new Error(...); }
  }
  \<close>
\<close>

definition createPost :: "CreatePostData \<Rightarrow> Post io" where
  "createPost data =
     try_catch
       (db_call (post_create (cp_channelId data) (cp_text data)
          (case cp_status data of None \<Rightarrow> DRAFT | Some st \<Rightarrow> st)))
       (\<lambda>error. throw CreatePostFailed)"

definition getPostById :: "nat \<Rightarrow> PostWithRelations option io" where
  "getPostById postId = try_catch (db_call (post_findUnique postId)) (\<lambda>error. ret None)"

definition getChannelById :: "nat \<Rightarrow> Channel option io" where
  "getChannelById i = try_catch (db_call (channel_findUnique i)) (\<lambda>error. ret None)"

definition updatePost :: "nat \<Rightarrow> UpdatePostData \<Rightarrow> Post io" where
  "updatePost postId data =
     try_catch (db_call (post_update postId (apply_update data))) (\<lambda>error. throw UpdatePostFailed)"

text \<open>
  \<^verbatim>\<open>
  export async function addMedia(postId, fileId, fileType, fileSize?, caption?) {
    try {
      const mediaCount = await prisma.media.count({ where: { post_id: postId } });
      const media = await prisma.media.create({ data: { post_id: postId, file_id: fileId,
          file_type: fileType, file_size: fileSize, caption, position: mediaCount } });
      return media;
    } catch (error) { throw new Error(...); }
  }
  \<close>
\<close>

definition addMedia :: "nat \<Rightarrow> string \<Rightarrow> MediaType \<Rightarrow> nat option \<Rightarrow> string option \<Rightarrow> Media io" where
  "addMedia postId fid ftype fsize cap =
     try_catch
       (bind (db_call (media_count postId))
          (\<lambda>mediaCount. db_call (media_create postId fid ftype fsize cap mediaCount)))
       (\<lambda>error. throw AddMediaFailed)"

definition addButton :: "nat \<Rightarrow> string \<Rightarrow> string \<Rightarrow> int \<Rightarrow> int \<Rightarrow> PostButton io" where
  "addButton postId txt u r pos =
     try_catch (db_call (postButton_create postId txt u r pos)) (\<lambda>error. throw AddButtonFailed)"

text \<open>
  \<^verbatim>\<open>
  export async function schedulePost(postId, scheduledAt) {
    try {
      const schedule = await prisma.schedule.create({ data: { post_id: postId, scheduled_at: scheduledAt } });
      await updatePost(postId, { status: PostStatus.SCHEDULED });
      return schedule;
    } catch (error) { throw new Error(...); }
  }
  \<close>
\<close>

definition schedulePost :: "nat \<Rightarrow> nat \<Rightarrow> Schedule io" where
  "schedulePost postId due =
     try_catch
       (bind (db_call (schedule_create postId due))
          (\<lambda>schedule. bind (updatePost postId \<lparr>up_text = None, up_status = Some SCHEDULED\<rparr>)
             (\<lambda>p. ret schedule)))
       (\<lambda>error. throw SchedulePostFailed)"

text \<open>
  \<^verbatim>\<open>
  export async function duplicatePost(postId) {
    try {
      const original = await getPostById(postId);
      if (!original) { throw new Error(...); }
      const duplicate = await prisma.post.create({ data: { channel_id: original.channel_id,
          text: original.text, status: PostStatus.DRAFT } });
      for (const media of original.media) {
        await addMedia(duplicate.id, media.file_id, media.file_type,
                       media.file_size || undefined, media.caption || undefined);
      }
      for (const button of original.buttons) {
        await addButton(duplicate.id, button.text, button.url, button.row, button.position);
      }
      return duplicate;
    } catch (error) { throw new Error(...); }
  }
  \<close>
  \<^verbatim>\<open>x || undefined\<close> is \<^verbatim>\<open>undefined\<close> for every falsy \<open>x\<close>: for \<^verbatim>\<open>null\<close>, and
  also for the number 0 and for the empty string.
\<close>

definition size_or_undefined :: "nat option \<Rightarrow> nat option" where
  "size_or_undefined x = (case x of None \<Rightarrow> None | Some n \<Rightarrow> if n = 0 then None else Some n)"

definition text_or_undefined :: "string option \<Rightarrow> string option" where
  "text_or_undefined x = (case x of None \<Rightarrow> None | Some t \<Rightarrow> if t = [] then None else Some t)"

definition duplicatePost :: "nat \<Rightarrow> Post io" where
  "duplicatePost postId =
     try_catch
       (bind (getPostById postId)
          (\<lambda>original.
             case original of
               None \<Rightarrow> throw PostNotFound
             | Some orig \<Rightarrow>
                 bind (db_call (post_create (p_channel_id (pr_post orig)) (p_text (pr_post orig)) DRAFT))
                   (\<lambda>duplicate.
                      bind (for_each (pr_media orig)
                              (\<lambda>media. bind (addMedia (p_id duplicate) (m_file_id media) (m_file_type media)
                                                (size_or_undefined (m_file_size media))
                                                (text_or_undefined (m_caption media)))
                                          (\<lambda>m. ret ())))
                        (\<lambda>u. bind (for_each (pr_buttons orig)
                                      (\<lambda>button. bind (addButton (p_id duplicate) (b_text button) (b_url button)
                                                         (b_row button) (b_position button))
                                                   (\<lambda>b. ret ())))
                                (\<lambda>u. ret duplicate)))))
       (\<lambda>error. throw DuplicatePostFailed)"

section \<open>Delivery engine (telegramPublishService.ts)\<close>

subsection \<open>The keyboard\<close>

text \<open>
  \<^verbatim>\<open>
      const keyboard = new InlineKeyboard();
      const buttonsByRow = new Map<number, typeof post.buttons>();
      post.buttons.forEach(button => {
        if (!buttonsByRow.has(button.row)) { buttonsByRow.set(button.row, []); }
        buttonsByRow.get(button.row)!.push(button);
      });
      Array.from(buttonsByRow.keys()).sort().forEach(row => {
        const rowButtons = buttonsByRow.get(row)!.sort((a, b) => a.position - b.position);
        rowButtons.forEach(button => { keyboard.url(button.text, button.url); });
        keyboard.row();
      });
  \<close>
  A \<^verbatim>\<open>Map\<close> keeps its keys in the order of their first insertion: an association
  list. \<^verbatim>\<open>Array.prototype.sort\<close> without a comparator converts the elements to
  strings and orders them by code units; with a comparator it orders by the comparator.
  Both are stable. The keyboard of the client library is a list of rows: a new keyboard
  has one empty row, \<^verbatim>\<open>url\<close> adds a button to the last row, \<^verbatim>\<open>row\<close> starts a new
  row.
\<close>

definition digit_char :: "nat \<Rightarrow> char" where
  "digit_char d = ''0123456789'' ! d"

fun digits :: "nat \<Rightarrow> string" where
  "digits n = (if n < 10 then [digit_char n] else digits (n div 10) @ [digit_char (n mod 10)])"

declare digits.simps [simp del]

definition js_toString :: "int \<Rightarrow> string" where
  "js_toString i = (if i < 0 then ''-'' @ digits (nat (- i)) else digits (nat i))"

fun map_push :: "(int \<times> PostButton list) list \<Rightarrow> PostButton \<Rightarrow> (int \<times> PostButton list) list" where
  "map_push [] b = [(b_row b, [b])]"
| "map_push ((r, bs) # m) b =
     (if r = b_row b then (r, bs @ [b]) # m else (r, bs) # map_push m b)"

definition group_by_row :: "PostButton list \<Rightarrow> (int \<times> PostButton list) list" where
  "group_by_row bs = foldl map_push [] bs"

definition kb_new :: InlineKeyboard where
  "kb_new = [[]]"

definition kb_url :: "InlineKeyboard \<Rightarrow> string \<Rightarrow> string \<Rightarrow> InlineKeyboard" where
  "kb_url k t u = butlast k @ [last k @ [\<lparr>kb_text = t, kb_url = u\<rparr>]]"

definition kb_row :: "InlineKeyboard \<Rightarrow> InlineKeyboard" where
  "kb_row k = k @ [[]]"

definition build_keyboard :: "PostButton list \<Rightarrow> InlineKeyboard" where
  "build_keyboard bs =
     (let buttonsByRow = group_by_row bs
      in foldl
           (\<lambda>keyboard row.
              (let rowButtons = sort_key b_position
                     (case map_of buttonsByRow row of None \<Rightarrow> [] | Some rb \<Rightarrow> rb)
               in kb_row (foldl (\<lambda>k button. kb_url k (b_text button) (b_url button)) keyboard rowButtons)))
           kb_new
           (sort_key js_toString (map fst buttonsByRow)))"

definition replyMarkup_of :: "PostButton list \<Rightarrow> InlineKeyboard option" where
  "replyMarkup_of bs = (if length bs > 0 then Some (build_keyboard bs) else None)"

subsection \<open>Sending\<close>

definition arrow_up :: string where
  "arrow_up = utf8 [226, 172, 134, 239, 184, 143]"

text \<open>
  The three strategies by the number of media. A single media item is sent with its own
  caption when it has a non-empty one, else with the text of the post. In a group the
  first item carries the text of the post, the others their own caption; an animation is
  sent as a document; the keyboard follows in a message of its own.
\<close>

definition send_single :: "string \<Rightarrow> Media \<Rightarrow> string \<Rightarrow> InlineKeyboard option \<Rightarrow> int io" where
  "send_single chat_id m cap replyMarkup =
     (case m_file_type m of
        PHOTO \<Rightarrow> tg_call (SendPhoto chat_id (m_file_id m) cap replyMarkup)
      | VIDEO \<Rightarrow> tg_call (SendVideo chat_id (m_file_id m) cap replyMarkup)
      | DOCUMENT \<Rightarrow> tg_call (SendDocument chat_id (m_file_id m) cap replyMarkup)
      | ANIMATION \<Rightarrow> tg_call (SendAnimation chat_id (m_file_id m) cap replyMarkup))"

definition group_item :: "string \<Rightarrow> nat \<times> Media \<Rightarrow> InputMedia" where
  "group_item post_text im =
     (let m = snd im;
          cap = (if fst im = 0 then Some post_text else text_or_undefined (m_caption m))
      in \<lparr>im_type = (case m_file_type m of ANIMATION \<Rightarrow> DOCUMENT | t \<Rightarrow> t),
          im_media = m_file_id m, im_caption = cap\<rparr>)"

definition send_post :: "PostWithRelations \<Rightarrow> string \<Rightarrow> InlineKeyboard option \<Rightarrow> int io" where
  "send_post post chat_id replyMarkup =
     (case pr_media post of
        [] \<Rightarrow> tg_call (SendMessage chat_id (p_text (pr_post post)) replyMarkup)
      | [m] \<Rightarrow>
          send_single chat_id m
            (case text_or_undefined (m_caption m) of None \<Rightarrow> p_text (pr_post post) | Some c \<Rightarrow> c)
            replyMarkup
      | m # m' # ms \<Rightarrow>
          bind (tg_call (SendMediaGroup chat_id
                  (map (group_item (p_text (pr_post post))) (enumerate 0 (pr_media post)))))
            (\<lambda>messageId.
               if replyMarkup \<noteq> None
               then bind (tg_call (SendMessage chat_id arrow_up replyMarkup)) (\<lambda>x. ret messageId)
               else ret messageId))"

definition get_clock :: "nat io" where
  "get_clock w = (Return (clock w), w)"

text \<open>
  \<^verbatim>\<open>
  export async function publishPostToTelegram(bot, postId): Promise<boolean> {
    try {
      const post = await getPostById(postId);
      if (!post) { return false; }
      if (!post.channel) { return false; }
      const channelId = post.channel.channel_id.toString();
      ... keyboard, send ...
      await updatePost(postId, { status: PostStatus.PUBLISHED });
      await prisma.post.update({ where: { id: postId },
        data: { telegram_message_id: messageId, published_at: new Date() } });
      return true;
    } catch (error) {
      try { await updatePost(postId, { status: PostStatus.FAILED }); }
      catch (updateError) { ... }
      return false;
    }
  }
  \<close>
  The \<^verbatim>\<open>default\<close> branch of the switch over the media type returns false for a
  type outside the enumeration; the store holds no such type.
\<close>

definition publishPostToTelegram :: "nat \<Rightarrow> bool io" where
  "publishPostToTelegram postId =
     try_catch
       (bind (getPostById postId)
          (\<lambda>found.
             case found of
               None \<Rightarrow> ret False
             | Some post \<Rightarrow>
                 (case pr_channel post of
                    None \<Rightarrow> ret False
                  | Some channel \<Rightarrow>
                      bind (send_post post (js_toString (c_channel_id channel))
                              (replyMarkup_of (pr_buttons post)))
                        (\<lambda>messageId.
                           bind (updatePost postId \<lparr>up_text = None, up_status = Some PUBLISHED\<rparr>)
                             (\<lambda>p. bind get_clock
                                (\<lambda>now. bind (db_call (post_update postId
                                                 (\<lambda>q. q\<lparr>p_telegram_message_id := Some messageId,
                                                         p_published_at := Some now\<rparr>)))
                                   (\<lambda>q. ret True)))))))
       (\<lambda>error.
          bind (try_catch
                  (bind (updatePost postId \<lparr>up_text = None, up_status = Some FAILED\<rparr>) (\<lambda>p. ret ()))
                  (\<lambda>updateError. ret ()))
            (\<lambda>u. ret False))"

section \<open>Scheduler (postSchedulerService.ts)\<close>

text \<open>
  \<^verbatim>\<open>
    for (const schedule of dueSchedules) {
      try {
        if (!botInstance) { throw new Error('Bot instance not available'); }
        const success = await publishPostToTelegram(botInstance, schedule.post_id);
        if (success) {
          await prisma.schedule.update({ where: { id: schedule.id },
            data: { status: 'PUBLISHED', published_at: new Date() } });
        } else {
          const errorMsg = 'Failed to publish to Telegram - check telegramPublishService logs';
          await prisma.schedule.update({ where: { id: schedule.id },
            data: { status: 'FAILED', attempts: schedule.attempts + 1, last_error: errorMsg } });
        }
      } catch (error) {
        await prisma.schedule.update({ where: { id: schedule.id },
          data: { status: 'FAILED', attempts: schedule.attempts + 1,
                  last_error: error instanceof Error ? error.message : String(error) } });
        await prisma.post.update({ where: { id: schedule.post_id },
          data: { status: PostStatus.FAILED } });
      }
    }
  \<close>
  \<open>process_schedule\<close> is the body of the loop; \<^verbatim>\<open>schedule\<close> is the row as the
  query of this tick returned it.
\<close>

definition get_botInstance :: "Bot option io" where
  "get_botInstance w = (Return (botInstance w), w)"

definition process_schedule :: "Schedule \<Rightarrow> unit io" where
  "process_schedule schedule =
     try_catch
       (bind get_botInstance
          (\<lambda>bot.
             case bot of
               None \<Rightarrow> throw BotInstanceNotAvailable
             | Some b \<Rightarrow>
                 bind (publishPostToTelegram (s_post_id schedule))
                   (\<lambda>success.
                      if success
                      then bind get_clock
                             (\<lambda>now. bind (db_call (schedule_update (s_id schedule)
                                              (\<lambda>x. x\<lparr>s_status := SCHEDULE_PUBLISHED,
                                                      s_published_at := Some now\<rparr>)))
                                (\<lambda>x. ret ()))
                      else bind (db_call (schedule_update (s_id schedule)
                                   (\<lambda>x. x\<lparr>s_status := SCHEDULE_FAILED,
                                           s_attempts := s_attempts schedule + 1,
                                           s_last_error := Some CheckPublishLogs\<rparr>)))
                             (\<lambda>x. ret ()))))
       (\<lambda>error.
          bind (db_call (schedule_update (s_id schedule)
                  (\<lambda>x. x\<lparr>s_status := SCHEDULE_FAILED,
                          s_attempts := s_attempts schedule + 1,
                          s_last_error := Some (ErrorMessage error)\<rparr>)))
            (\<lambda>x. bind (db_call (post_update (s_post_id schedule) (\<lambda>p. p\<lparr>p_status := FAILED\<rparr>)))
               (\<lambda>p. ret ())))"

text \<open>
  \<^verbatim>\<open>
  async function checkAndPublishScheduledPosts() {
    try {
      const now = new Date();
      const dueSchedules = await prisma.schedule.findMany({ ... });
      if (dueSchedules.length === 0) { return; }
      for (const schedule of dueSchedules) { ... }
    } catch (error) { logger.error('Error in scheduler check', { error }); }
  }
  \<close>
\<close>

definition checkAndPublishScheduledPosts :: "unit io" where
  "checkAndPublishScheduledPosts =
     try_catch
       (bind get_clock
          (\<lambda>now. bind (db_call (schedule_findMany_due now))
             (\<lambda>dueSchedules.
                if length dueSchedules = 0 then ret ()
                else for_each dueSchedules process_schedule)))
       (\<lambda>error. ret ())"

section \<open>Commit handlers (postCallbacks.ts)\<close>

definition default_channel_name :: string where
  "default_channel_name = utf8 [208, 154, 208, 176, 208, 189, 208, 176, 208, 187]"

definition channel_name_of :: "Channel option \<Rightarrow> string" where
  \<comment> \<open>\<^verbatim>\<open>channel?.channel_title || '...'\<close>\<close>
  "channel_name_of channel =
     (case channel of
        None \<Rightarrow> default_channel_name
      | Some c \<Rightarrow> if c_channel_title c = [] then default_channel_name else c_channel_title c)"

definition draft_buttons :: "PostDraft \<Rightarrow> SessionButton list" where
  "draft_buttons draft = (case buttons draft of None \<Rightarrow> [] | Some bs \<Rightarrow> bs)"

text \<open>
  \<^verbatim>\<open>!draft || !draft.channelId || !draft.text\<close>: the channel id is falsy when it is
  absent or 0, the text when it is absent or empty. \<open>draft_fields\<close> gives the channel id
  and the text of a draft that passes the check.
\<close>

definition draft_fields :: "PostDraft option \<Rightarrow> (PostDraft \<times> nat \<times> string) option" where
  "draft_fields d =
     (case d of
        None \<Rightarrow> None
      | Some draft \<Rightarrow>
          (case channelId draft of
             None \<Rightarrow> None
           | Some c \<Rightarrow>
               if c = 0 then None
               else (case d_text draft of
                       None \<Rightarrow> None
                     | Some t \<Rightarrow> if t = [] then None else Some (draft, c, t))))"

text \<open>
  The rows of a draft, as the three commit handlers write them:
  \<^verbatim>\<open>
    if (draft.mediaFiles && draft.mediaFiles.length > 0) {
      for (const media of draft.mediaFiles) {
        await addMedia(post.id, media.fileId, media.fileType, media.fileSize, media.caption);
      }
    }
    if (draft.buttons && draft.buttons.length > 0) {
      for (const button of draft.buttons) {
        await addButton(post.id, button.text, button.url, button.row, button.position);
      }
    }
  \<close>
\<close>

definition add_draft_media :: "nat \<Rightarrow> PostDraft \<Rightarrow> unit io" where
  "add_draft_media postId draft =
     for_each (draft_media draft)
       (\<lambda>media. bind (addMedia postId (fileId media) (fileType media) (fileSize media) (caption media))
                   (\<lambda>m. ret ()))"

definition add_draft_buttons :: "nat \<Rightarrow> PostDraft \<Rightarrow> unit io" where
  "add_draft_buttons postId draft =
     for_each (draft_buttons draft)
       (\<lambda>button. bind (addButton postId (sb_text button) (sb_url button) (sb_row button)
                          (sb_position button))
                    (\<lambda>b. ret ()))"

text \<open>
  The first statements of the \<^verbatim>\<open>try\<close> block of each of the three commit handlers
  are the same but for the status: the post, then its media, then its buttons.
  \<^verbatim>\<open>
    const post = await createPost({ channelId: draft.channelId, text: draft.text, status: ... });
    ... media ...
    ... buttons ...
  \<close>
\<close>

definition save_rows :: "PostStatus \<Rightarrow> PostDraft \<Rightarrow> nat \<Rightarrow> string \<Rightarrow> Post io" where
  "save_rows st draft c t =
     bind (createPost \<lparr>cp_channelId = c, cp_text = t, cp_status = Some st\<rparr>)
       (\<lambda>post. bind (add_draft_media (p_id post) draft)
          (\<lambda>u. bind (add_draft_buttons (p_id post) draft)
             (\<lambda>u. ret post)))"

definition clear_draft :: "unit io" where
  "clear_draft w = (Return (), clearPostDraft w)"

text \<open>
  \<^verbatim>\<open>
    try { await ctx.editMessageText(message); }
    catch (editError) {
      try { await ctx.reply(message); } catch (replyError) { ... }
    }
  \<close>
\<close>

definition notify :: "bot_msg \<Rightarrow> unit io" where
  "notify message =
     try_catch (editMessageText message)
       (\<lambda>editError. try_catch (reply message) (\<lambda>replyError. ret ()))"

definition try_reply :: "bot_msg \<Rightarrow> unit io" where
  \<comment> \<open>\<^verbatim>\<open>try { await ctx.reply(m); } catch (replyError) { ... }\<close>\<close>
  "try_reply m = try_catch (reply m) (\<lambda>replyError. ret ())"

text \<open>
  handlePublishNow: the post is created with status PUBLISHED, then its rows, then it is
  delivered; the message to the admin depends on the result of the delivery; the draft
  is cleared at the end of the \<^verbatim>\<open>try\<close> block.
  \<^verbatim>\<open>
    try {
      const post = await createPost({ channelId: draft.channelId, text: draft.text, status: 'PUBLISHED' });
      ... media, buttons ...
      const published = await publishPostToTelegram(botInstance, post.id);
      const channel = await getChannelById(draft.channelId);
      const channelName = channel?.channel_title || '...';
      const successMessage = published ? `... published ...` : `... saved, but not published ...`;
      ... editMessageText, else reply ...
      clearPostDraft(ctx);
    } catch (error) {
      try { await ctx.reply('...'); } catch (replyError) { ... }
    }
  \<close>
\<close>

definition handlePublishNow_try :: "PostDraft \<Rightarrow> nat \<Rightarrow> string \<Rightarrow> unit io" where
  "handlePublishNow_try draft c t =
     bind (save_rows PUBLISHED draft c t)
       (\<lambda>post. bind (publishPostToTelegram (p_id post))
          (\<lambda>published. bind (getChannelById c)
             (\<lambda>channel.
                bind (notify (if published
                              then PostPublishedMessage (channel_name_of channel) (p_id post)
                              else PostSavedNotPublished (channel_name_of channel) (p_id post)))
                  (\<lambda>u. clear_draft))))"

definition handlePublishNow :: "unit io" where
  "handlePublishNow w =
     (case draft_fields (getPostDraft w) of
        None \<Rightarrow> try_reply NotEnoughDataToPublish w
      | Some (draft, c, t) \<Rightarrow>
          try_catch (handlePublishNow_try draft c t) (\<lambda>error. try_reply PublishFailedMessage) w)"

text \<open>handleSaveDraft: the same rows with status DRAFT and no delivery.\<close>

definition handleSaveDraft_try :: "PostDraft \<Rightarrow> nat \<Rightarrow> string \<Rightarrow> unit io" where
  "handleSaveDraft_try draft c t =
     bind (save_rows DRAFT draft c t)
       (\<lambda>post. bind (getChannelById c)
          (\<lambda>channel.
             bind (notify (PostCreatedMessage (channel_name_of channel) None True))
               (\<lambda>u. clear_draft)))"

definition handleSaveDraft :: "unit io" where
  "handleSaveDraft w =
     (case draft_fields (getPostDraft w) of
        None \<Rightarrow> try_reply NotEnoughDataForDraft w
      | Some (draft, c, t) \<Rightarrow>
          try_catch (handleSaveDraft_try draft c t) (\<lambda>error. try_reply SaveDraftFailedMessage) w)"

text \<open>
  handleScheduledPost: status SCHEDULED, then the schedule; the notification has a
  \<^verbatim>\<open>try\<close> block of its own, in which a failing edit is followed by a reply:
  \<^verbatim>\<open>
      await schedulePost(post.id, scheduledAtDate);
      try {
        const channel = await getChannelById(draft.channelId);
        ...
        try { await ctx.editMessageText(message); }
        catch (editError) { await ctx.reply(message); }
      } catch (notificationError) { ... }
      clearPostDraft(ctx);
    } catch (error) {
      try { await ctx.reply('...: ' + errorMessage); } catch (replyError) { ... }
    }
  \<close>
\<close>

definition schedule_rows :: "PostDraft \<Rightarrow> nat \<Rightarrow> string \<Rightarrow> nat \<Rightarrow> Post io" where
  "schedule_rows draft c t due =
     bind (save_rows SCHEDULED draft c t)
       (\<lambda>post. bind (schedulePost (p_id post) due) (\<lambda>schedule. ret post))"

definition handleScheduledPost_try :: "PostDraft \<Rightarrow> nat \<Rightarrow> string \<Rightarrow> nat \<Rightarrow> unit io" where
  "handleScheduledPost_try draft c t due =
     bind (schedule_rows draft c t due)
       (\<lambda>post.
          bind (try_catch
                  (bind (getChannelById c)
                     (\<lambda>channel.
                        try_catch
                          (editMessageText (PostCreatedMessage (channel_name_of channel) (Some due) False))
                          (\<lambda>editError. reply (PostCreatedMessage (channel_name_of channel) (Some due) False))))
                  (\<lambda>notificationError. ret ()))
            (\<lambda>u. clear_draft))"

definition handleScheduledPost :: "unit io" where
  "handleScheduledPost w =
     (case draft_fields (getPostDraft w) of
        None \<Rightarrow> try_reply NotEnoughData w
      | Some (draft, c, t) \<Rightarrow>
          (case scheduledAt draft of
             None \<Rightarrow> try_reply NotEnoughData w
           | Some due \<Rightarrow>
               try_catch (handleScheduledPost_try draft c t due)
                 (\<lambda>error. try_reply (ScheduleFailedMessage error)) w))"

section \<open>Vocabulary of the properties\<close>

text \<open>An upload the media step accepts: it carries a file, and the file passes the size
  check of its type. \<open>upload_item n u\<close> is the session entry the handler builds for the
  upload \<open>u\<close> at position \<open>n\<close>.\<close>

definition upload_ok :: "Message \<times> UploadType \<Rightarrow> bool" where
  "upload_ok u =
     (case extract_file (fst u) (snd u) of
        None \<Rightarrow> False
      | Some (fid, fsize, mt) \<Rightarrow> size_check fsize (snd u) = Valid)"

definition upload_item :: "nat \<Rightarrow> Message \<times> UploadType \<Rightarrow> SessionMediaFile" where
  "upload_item n u =
     (case extract_file (fst u) (snd u) of
        Some (fid, fsize, mt) \<Rightarrow>
          \<lparr>fileId = fid, fileType = mt, fileSize = fsize, position = n,
           caption = msg_caption (fst u)\<rparr>)"

text \<open>Example worlds for the closed instances of the theorems: an empty store, no
  failures, the platform answering the \<open>k\<close>-th call with message id \<open>100 + k\<close>.\<close>

definition empty_store :: Store where
  "empty_store = \<lparr>channels = [], posts = [], media_rows = [], post_buttons = [],
     schedules = [], post_statistics = [], next_post_id = 1, next_media_id = 1,
     next_button_id = 1, next_schedule_id = 1\<rparr>"

definition empty_session :: SessionData where
  "empty_session = \<lparr>postDraft = None, awaitingInput = None, currentOperation = None\<rparr>"

definition world0 :: World where
  "world0 = \<lparr>db = empty_store, session = empty_session, botInstance = Some Bot,
     outbox = [], chat = [], db_calls = 0, chat_calls = 0, clock = 1000,
     db_fault = (\<lambda>k. False), tg_result = (\<lambda>k. Some (100 + int k)),
     chat_fault = (\<lambda>k. False)\<rparr>"

definition photo_upload :: "string \<Rightarrow> Message \<times> UploadType" where
  "photo_upload fid =
     (\<lparr>msg_photo = Some [\<lparr>ph_file_id = fid, ph_file_size = Some 2048\<rparr>], msg_video = None,
       msg_document = None, msg_animation = None, msg_caption = None\<rparr>, UploadPhoto)"

definition media_world :: "SessionMediaFile list \<Rightarrow> World" where
  "media_world ms = world0\<lparr>session :=
     \<lparr>postDraft = Some (empty_draft\<lparr>channelId := Some 1, d_text := Some ''hi'', mediaFiles := Some ms\<rparr>),
      awaitingInput = Some \<lparr>a_type = AwaitMedia, messageId = 7\<rparr>,
      currentOperation = Some OpNewpost\<rparr>\<rparr>"

definition news_channel :: Channel where
  "news_channel = \<lparr>c_id = 1, c_channel_id = - 1001, c_channel_title = ''News'',
     c_channel_username = None, c_is_active = True\<rparr>"

definition scheduled_post :: "nat \<Rightarrow> Post" where
  "scheduled_post i = \<lparr>p_id = i, p_channel_id = 1, p_text = ''hello'', p_status = SCHEDULED,
     p_published_at = None, p_telegram_message_id = None\<rparr>"

definition pending_schedule :: "nat \<Rightarrow> Schedule" where
  "pending_schedule i = \<lparr>s_id = i, s_post_id = i, s_scheduled_at = 500 + i,
     s_published_at = None, s_status = PENDING, s_attempts = 0, s_last_error = None\<rparr>"

text \<open>\<open>due_world n\<close>: the channel, \<open>n\<close> scheduled posts \<open>1, ..., n\<close> and their pending
  schedules, all due before the clock (1000).\<close>

definition due_world :: "nat \<Rightarrow> World" where
  "due_world n = world0\<lparr>db := empty_store\<lparr>channels := [news_channel],
      posts := map scheduled_post [1 ..< Suc n],
      schedules := map pending_schedule [1 ..< Suc n],
      next_post_id := Suc n, next_schedule_id := Suc n\<rparr>\<rparr>"

definition btn :: "string \<Rightarrow> int \<Rightarrow> int \<Rightarrow> PostButton" where
  "btn t r pos = \<lparr>b_id = 0, b_post_id = 1, b_text = t, b_url = ''https://example.com'',
     b_row = r, b_position = pos\<rparr>"

text \<open>\<open>draft_world d\<close>: the channel in the store and the draft \<open>d\<close> in the session.\<close>

definition draft_world :: "PostDraft \<Rightarrow> World" where
  "draft_world d = world0\<lparr>db := empty_store\<lparr>channels := [news_channel]\<rparr>,
     session := \<lparr>postDraft = Some d, awaitingInput = None, currentOperation = Some OpNewpost\<rparr>\<rparr>"

definition photo_draft :: PostDraft where
  "photo_draft = empty_draft\<lparr>channelId := Some 1, d_text := Some ''hi'',
     mediaFiles := Some [\<lparr>fileId = ''f1'', fileType = PHOTO, fileSize = Some 2048, position = 0,
                          caption = None\<rparr>]\<rparr>"

text \<open>A draft post with one media row of size 0.\<close>

definition zero_size_world :: World where
  "zero_size_world = world0\<lparr>db := empty_store\<lparr>channels := [news_channel],
      posts := [(scheduled_post 1)\<lparr>p_status := DRAFT\<rparr>],
      media_rows := [\<lparr>m_id = 1, m_post_id = 1, m_file_id = ''f1'', m_file_type = DOCUMENT,
                      m_file_size = Some 0, m_caption = Some ''doc'', m_position = 0\<rparr>],
      next_post_id := 2, next_media_id := 2\<rparr>\<rparr>"

text \<open>
  Relations between the world before and after an action, used to state what an action
  leaves alone. \<open>keeps_env\<close>: only the store and the count of store calls may differ.
  \<open>keeps_posts\<close>: moreover the tables of channels, posts, schedules and statistics are
  the same (media rows and buttons may have been added). \<open>store_ok\<close>: the ids of the
  posts are below the next id of the table, as autoincrement keeps them.
\<close>

definition keeps_env :: "World \<Rightarrow> World \<Rightarrow> bool" where
  "keeps_env w w' \<longleftrightarrow>
     session w' = session w \<and> botInstance w' = botInstance w \<and> outbox w' = outbox w \<and>
     chat w' = chat w \<and> chat_calls w' = chat_calls w \<and> clock w' = clock w \<and>
     db_fault w' = db_fault w \<and> tg_result w' = tg_result w \<and> chat_fault w' = chat_fault w"

definition keeps_posts :: "World \<Rightarrow> World \<Rightarrow> bool" where
  "keeps_posts w w' \<longleftrightarrow>
     keeps_env w w' \<and> posts (db w') = posts (db w) \<and> channels (db w') = channels (db w) \<and>
     schedules (db w') = schedules (db w) \<and>
     post_statistics (db w') = post_statistics (db w) \<and>
     next_post_id (db w') = next_post_id (db w) \<and>
     next_schedule_id (db w') = next_schedule_id (db w)"

text \<open>\<open>keeps_chat\<close>: as \<open>keeps_env\<close>, but the log of the platform calls may have grown.
  \<open>only_posts\<close>: of the tables of the store only the rows of the posts may differ, and
  there are as many as before.\<close>

definition keeps_chat :: "World \<Rightarrow> World \<Rightarrow> bool" where
  "keeps_chat w w' \<longleftrightarrow>
     session w' = session w \<and> botInstance w' = botInstance w \<and>
     chat w' = chat w \<and> chat_calls w' = chat_calls w \<and> clock w' = clock w \<and>
     db_fault w' = db_fault w \<and> tg_result w' = tg_result w \<and> chat_fault w' = chat_fault w"

definition only_posts :: "Store \<Rightarrow> Store \<Rightarrow> bool" where
  "only_posts s s' \<longleftrightarrow>
     channels s' = channels s \<and> media_rows s' = media_rows s \<and>
     post_buttons s' = post_buttons s \<and> schedules s' = schedules s \<and>
     post_statistics s' = post_statistics s \<and> length (posts s') = length (posts s)"

text \<open>\<open>preserves g m\<close>: the action \<open>m\<close>, however it ends, leaves the observation \<open>g\<close> of
  the world as it was.\<close>

definition preserves :: "(World \<Rightarrow> 'b) \<Rightarrow> 'a io \<Rightarrow> bool" where
  "preserves g m \<longleftrightarrow> (\<forall>w r w'. m w = (r, w') \<longrightarrow> g w' = g w)"

definition store_ok :: "Store \<Rightarrow> bool" where
  "store_ok s = list_all (\<lambda>p. p_id p < next_post_id s) (posts s)"

text \<open>\<open>strict n m\<close>: the action \<open>m\<close> makes \<open>n\<close> store calls when it returns, and it throws
  when the store fails at one of them.\<close>

definition strict :: "nat \<Rightarrow> 'a io \<Rightarrow> bool" where
  "strict n m \<longleftrightarrow>
     (\<forall>w r w'. m w = (r, w') \<longrightarrow>
        db_fault w' = db_fault w \<and>
        (case r of
           Return x \<Rightarrow> db_calls w' = db_calls w + n \<and>
                        \<not> (\<exists>k. db_calls w \<le> k \<and> k < db_calls w + n \<and> db_fault w k)
         | Throw e \<Rightarrow> True))"

text \<open>\<open>env_safe m\<close>: whatever \<open>m\<close> does and however it ends, it touches only the store.
  \<open>posts_safe m\<close>: it moreover leaves the tables of channels, posts, schedules and
  statistics alone.\<close>

definition env_safe :: "'a io \<Rightarrow> bool" where
  "env_safe m \<longleftrightarrow> (\<forall>w r w'. m w = (r, w') \<longrightarrow> keeps_env w w')"

definition posts_safe :: "'a io \<Rightarrow> bool" where
  "posts_safe m \<longleftrightarrow> (\<forall>w r w'. m w = (r, w') \<longrightarrow> keeps_posts w w')"

text \<open>
  The rows a commit handler writes for a draft, read off the store before (\<open>s\<close>) and
  after (\<open>s'\<close>): the new post with the next id, one media row for every media file of the
  draft and one button row for every button; for a scheduled post also its pending
  schedule.
\<close>

definition new_post :: "PostStatus \<Rightarrow> nat \<Rightarrow> string \<Rightarrow> Store \<Rightarrow> Post" where
  "new_post st c t s = \<lparr>p_id = next_post_id s, p_channel_id = c, p_text = t, p_status = st,
     p_published_at = None, p_telegram_message_id = None\<rparr>"

definition rows_written :: "PostStatus \<Rightarrow> PostDraft \<Rightarrow> nat \<Rightarrow> string \<Rightarrow> Store \<Rightarrow> Store \<Rightarrow> bool" where
  "rows_written st draft c t s s' \<longleftrightarrow>
     new_post st c t s \<in> set (posts s') \<and>
     length (media_rows s') = length (media_rows s) + length (draft_media draft) \<and>
     length (post_buttons s') = length (post_buttons s) + length (draft_buttons draft)"

definition schedule_written :: "nat \<Rightarrow> Store \<Rightarrow> Store \<Rightarrow> bool" where
  "schedule_written due s s' \<longleftrightarrow>
     list_ex (\<lambda>x. s_post_id x = next_post_id s \<and> s_scheduled_at x = due \<and>
                  s_status x = PENDING \<and> s_attempts x = 0) (schedules s')"

definition store_fails_within :: "World \<Rightarrow> nat \<Rightarrow> bool" where
  "store_fails_within w n \<longleftrightarrow> list_ex (\<lambda>k. db_fault w k) [db_calls w ..< db_calls w + n]"

text \<open>A draft with two photos and one button: it is delivered as a media group followed by
  a message that carries the keyboard.\<close>

definition album_draft :: PostDraft where
  "album_draft = empty_draft\<lparr>channelId := Some 1, d_text := Some ''hi'',
     mediaFiles := Some [\<lparr>fileId = ''f1'', fileType = PHOTO, fileSize = Some 2048, position = 0,
                          caption = None\<rparr>,
                         \<lparr>fileId = ''f2'', fileType = PHOTO, fileSize = Some 2048, position = 1,
                          caption = None\<rparr>],
     buttons := Some [\<lparr>sb_text = ''more'', sb_url = ''https://example.com'', sb_row = 0,
                       sb_position = 0\<rparr>]\<rparr>"

definition scheduled_draft :: PostDraft where
  "scheduled_draft = photo_draft\<lparr>scheduledAt := Some 2000\<rparr>"

section \<open>Evaluation\<close>

lemmas io_defs = ret_def throw_def bind_def try_catch_def db_call_def tg_call_def chat_call_def
  reply_def editMessageText_def get_clock_def get_botInstance_def Let_def

lemmas orm_defs = find_channel_def find_post_def find_schedule_def channel_findUnique_def
  post_create_def post_update_def media_count_def media_create_def INT_MAX_def postButton_create_def
  schedule_create_def schedule_update_def schedule_findMany_due_def post_findUnique_def

lemmas service_defs = createPost_def getPostById_def getChannelById_def updatePost_def
  apply_update_def addMedia_def addButton_def schedulePost_def duplicatePost_def
  size_or_undefined_def text_or_undefined_def

lemmas publish_defs = publishPostToTelegram_def send_post_def send_single_def group_item_def
  replyMarkup_of_def process_schedule_def checkAndPublishScheduledPosts_def

lemmas keyboard_defs = build_keyboard_def group_by_row_def js_toString_def digits.simps
  digit_char_def less_char_def less_eq_char_def kb_new_def kb_url_def kb_row_def

lemmas handler_defs = handlePublishNow_def handlePublishNow_try_def handleSaveDraft_def
  handleSaveDraft_try_def handleScheduledPost_def handleScheduledPost_try_def
  save_rows_def schedule_rows_def
  add_draft_media_def add_draft_buttons_def draft_media_def draft_buttons_def draft_fields_def
  clear_draft_def clearPostDraft_def notify_def try_reply_def channel_name_of_def
  getPostDraft_def

lemmas example_defs = due_world_def draft_world_def world0_def empty_store_def
  empty_session_def news_channel_def scheduled_post_def pending_schedule_def btn_def
  photo_draft_def empty_draft_def zero_size_world_def scheduled_draft_def album_draft_def

section \<open>Appending media to the draft\<close>

lemmas upload_defs = handleMediaUpload_def handleMediaUpload_try_def upload_ok_def
  upload_item_def try_catch_def bind_def validateMediaGroupSize_def MAX_MEDIA_GROUP_def
  Let_def updatePostDraft_def getPostDraft_def reply_def chat_call_def

lemma upload_accept:
  assumes "getAwaitingInput w = Some a" "a_type a = AwaitMedia" "getPostDraft w = Some d"
    "length (draft_media d) < 10" "upload_ok (msg, ty)"
  shows "session (snd (handleMediaUpload msg ty w)) =
           (session w)\<lparr>postDraft := Some (d\<lparr>mediaFiles :=
              Some (draft_media d @ [upload_item (length (draft_media d)) (msg, ty)])\<rparr>)\<rparr>"
  using assms by (auto simp: upload_defs split: option.splits)

lemma upload_reject:
  assumes "getAwaitingInput w = Some a" "a_type a = AwaitMedia" "getPostDraft w = Some d"
    "length (draft_media d) \<ge> 10" "upload_ok (msg, ty)"
  shows "session (snd (handleMediaUpload msg ty w)) = session w"
    and "\<not> chat_fault w (chat_calls w) \<Longrightarrow>
         chat (snd (handleMediaUpload msg ty w)) =
           chat w @ [Reply (ValidationErrorMessage TooManyMedia)]"
  using assms by (auto simp: upload_defs split: option.splits)

lemma upload_awaiting:
  "getAwaitingInput (snd (handleMediaUpload msg ty w)) = getAwaitingInput w"
  by (auto simp: upload_defs ret_def getAwaitingInput_def
      split: option.splits ValidationResult.splits)

lemma uploads_append:
  assumes "getAwaitingInput w = Some a" "a_type a = AwaitMedia" "getPostDraft w = Some d"
    "length (draft_media d) + length us \<le> 10" "list_all upload_ok us"
  shows "getPostDraft (handleMediaUploads us w) =
     (if us = [] then Some d
      else Some (d\<lparr>mediaFiles := Some (draft_media d @
             map (\<lambda>(i, u). upload_item i u) (enumerate (length (draft_media d)) us))\<rparr>))"
  using assms
proof (induction us arbitrary: w d)
  case Nil
  then show ?case by simp
next
  case (Cons u us)
  obtain msg ty where u: "u = (msg, ty)" by (cases u)
  let ?w = "snd (handleMediaUpload msg ty w)"
  let ?d = "d\<lparr>mediaFiles := Some (draft_media d @ [upload_item (length (draft_media d)) (msg, ty)])\<rparr>"
  have s: "session ?w = (session w)\<lparr>postDraft := Some ?d\<rparr>"
    using Cons.prems u by (intro upload_accept[where a = a]) auto
  have a: "getAwaitingInput ?w = Some a"
    using Cons.prems by (simp add: upload_awaiting)
  have d: "getPostDraft ?w = Some ?d"
    using s by (simp add: getPostDraft_def)
  have dm: "draft_media ?d = draft_media d @ [upload_item (length (draft_media d)) (msg, ty)]"
    by (simp add: draft_media_def)
  have "getPostDraft (handleMediaUploads us ?w) =
     (if us = [] then Some ?d
      else Some (?d\<lparr>mediaFiles := Some (draft_media ?d @
             map (\<lambda>(i, u). upload_item i u) (enumerate (length (draft_media ?d)) us))\<rparr>))"
    using Cons.prems by (intro Cons.IH[OF a _ d]) (auto simp: dm)
  then show ?case
    by (auto simp: u dm)
qed

lemma upload_item_positions:
  "list_all upload_ok us \<Longrightarrow>
   map position (map (\<lambda>(i, u). upload_item i u) (enumerate k us)) = [k ..< k + length us]"
proof (induction us arbitrary: k)
  case Nil
  then show ?case by simp
next
  case (Cons u us)
  have "position (upload_item k u) = k"
    using Cons.prems by (auto simp: upload_item_def upload_ok_def split: option.splits)
  moreover have "[k ..< k + length (u # us)] = k # [Suc k ..< Suc k + length us]"
    by (subst upt_conv_Cons) auto
  ultimately show ?case using Cons by simp
qed

text \<open>
  C9. While the media step is awaiting input: starting from a draft without media, \<open>N\<close>
  accepted uploads (\<open>N \<le> 10\<close>) leave in the draft exactly the \<open>N\<close> items, in upload
  order, with the positions \<open>0, ..., N - 1\<close>. An upload that arrives when the draft holds
  10 items leaves the session (and so the media list) as it was, and the admin is sent
  the validation error of the group size (delivered when the reply does not fail).
\<close>

theorem handleMediaUpload_positions:
  assumes "getAwaitingInput w = Some a" and "a_type a = AwaitMedia"
    and "getPostDraft w = Some d"
  shows "(draft_media d = [] \<and> length us \<le> 10 \<and> list_all upload_ok us \<longrightarrow>
            (\<exists>d'. getPostDraft (handleMediaUploads us w) = Some d' \<and>
               draft_media d' = map (\<lambda>(i, u). upload_item i u) (enumerate 0 us) \<and>
               map position (draft_media d') = [0 ..< length us]))
       \<and> (length (draft_media d) = 10 \<and> upload_ok (msg, ty) \<longrightarrow>
            session (snd (handleMediaUpload msg ty w)) = session w \<and>
            (\<not> chat_fault w (chat_calls w) \<longrightarrow>
               chat (snd (handleMediaUpload msg ty w)) =
                 chat w @ [Reply (ValidationErrorMessage TooManyMedia)]))"
proof (intro conjI impI)
  assume h: "draft_media d = [] \<and> length us \<le> 10 \<and> list_all upload_ok us"
  then have g: "getPostDraft (handleMediaUploads us w) =
     (if us = [] then Some d
      else Some (d\<lparr>mediaFiles := Some (draft_media d @
             map (\<lambda>(i, u). upload_item i u) (enumerate (length (draft_media d)) us))\<rparr>))"
    using assms by (intro uploads_append[where a = a]) auto
  show "\<exists>d'. getPostDraft (handleMediaUploads us w) = Some d' \<and>
          draft_media d' = map (\<lambda>(i, u). upload_item i u) (enumerate 0 us) \<and>
          map position (draft_media d') = [0 ..< length us]"
  proof (cases "us = []")
    case True
    then show ?thesis using g h by simp
  next
    case False
    let ?d' = "d\<lparr>mediaFiles := Some (map (\<lambda>(i, u). upload_item i u) (enumerate 0 us))\<rparr>"
    have "getPostDraft (handleMediaUploads us w) = Some ?d'"
      using g h False by simp
    moreover have "draft_media ?d' = map (\<lambda>(i, u). upload_item i u) (enumerate 0 us)"
      by (simp add: draft_media_def)
    moreover have "map position (map (\<lambda>(i, u). upload_item i u) (enumerate 0 us)) = [0 ..< length us]"
      using upload_item_positions[of us 0] h by simp
    ultimately show ?thesis by auto
  qed
next
  assume h: "length (draft_media d) = 10 \<and> upload_ok (msg, ty)"
  then show "session (snd (handleMediaUpload msg ty w)) = session w"
    using assms by (intro upload_reject(1)[where a = a]) auto
next
  assume h: "length (draft_media d) = 10 \<and> upload_ok (msg, ty)"
    and c: "\<not> chat_fault w (chat_calls w)"
  then show "chat (snd (handleMediaUpload msg ty w)) =
      chat w @ [Reply (ValidationErrorMessage TooManyMedia)]"
    using assms by (intro upload_reject(2)[where a = a]) auto
qed

lemma photo_upload_ok: "upload_ok (photo_upload fid)"
  by (simp add: upload_ok_def photo_upload_def extract_file_def size_check_def
      validateMediaSize_def validationType_def limits_def MAX_PHOTO_SIZE_def)

theorem handleMediaUpload_positions_witness:
  "map position (draft_media (the (getPostDraft
       (handleMediaUploads [photo_upload ''f1'', photo_upload ''f2''] (media_world [])))))
     = [0, 1]
   \<and> session (snd (handleMediaUpload (fst (photo_upload ''f11'')) UploadPhoto
        (media_world (map (\<lambda>i. upload_item i (photo_upload ''f'')) [0 ..< 10]))))
     = session (media_world (map (\<lambda>i. upload_item i (photo_upload ''f'')) [0 ..< 10]))"
proof -
  let ?a = "\<lparr>a_type = AwaitMedia, messageId = 7\<rparr>"
  let ?d0 = "empty_draft\<lparr>channelId := Some 1, d_text := Some ''hi'', mediaFiles := Some []\<rparr>"
  let ?ms = "map (\<lambda>i. upload_item i (photo_upload ''f'')) [0 ..< 10]"
  let ?d10 = "empty_draft\<lparr>channelId := Some 1, d_text := Some ''hi'', mediaFiles := Some ?ms\<rparr>"
  have 1: "map position (draft_media (the (getPostDraft
       (handleMediaUploads [photo_upload ''f1'', photo_upload ''f2''] (media_world []))))) = [0, 1]"
    using handleMediaUpload_positions[of "media_world []" ?a ?d0
        "[photo_upload ''f1'', photo_upload ''f2'']"]
    by (auto simp: media_world_def world0_def getAwaitingInput_def getPostDraft_def
        draft_media_def photo_upload_ok upt_rec)
  have 2: "session (snd (handleMediaUpload (fst (photo_upload ''f11'')) UploadPhoto (media_world ?ms)))
     = session (media_world ?ms)"
    using handleMediaUpload_positions[of "media_world ?ms" ?a ?d10 _ "fst (photo_upload ''f11'')" UploadPhoto]
      photo_upload_ok[of "''f11''"]
    by (simp add: media_world_def world0_def getAwaitingInput_def getPostDraft_def
        draft_media_def photo_upload_def)
  from 1 2 show ?thesis by (rule conjI)
qed

section \<open>validateHTML\<close>

subsection \<open>The loop accepts the properly nested sequences of matches\<close>

lemma nested_insert:
  assumes "properly_nested w" "properly_nested x"
  shows "w = u @ v \<Longrightarrow> properly_nested (u @ x @ v)"
  using assms(1)
proof (induction w arbitrary: u v rule: properly_nested.induct)
  case nested_empty
  then show ?case using assms(2) by simp
next
  case (nested_self name)
  then have "(u = [] \<and> v = [SelfClosingTag name]) \<or> (u = [SelfClosingTag name] \<and> v = [])"
    by (cases u) auto
  then show ?case
    using properly_nested.nested_seq[OF assms(2) properly_nested.nested_self[OF nested_self.hyps]]
      properly_nested.nested_seq[OF properly_nested.nested_self[OF nested_self.hyps] assms(2)]
    by auto
next
  case (nested_wrap name ts)
  have whole: "properly_nested (OpenTag name # ts @ [CloseTag name])"
    using nested_wrap.hyps by (rule properly_nested.nested_wrap)
  show ?case
  proof (cases "u = [] \<or> v = []")
    case True
    then show ?thesis
      using properly_nested.nested_seq[OF assms(2) whole] properly_nested.nested_seq[OF whole assms(2)]
        nested_wrap.prems by auto
  next
    case False
    then obtain u' where u: "u = OpenTag name # u'"
      using nested_wrap.prems by (cases u) auto
    from False obtain v' where v: "v = v' @ [CloseTag name]"
      using nested_wrap.prems by (cases v rule: rev_cases) auto
    have "ts = u' @ v'" using nested_wrap.prems u v by simp
    then have "properly_nested (u' @ x @ v')" by (rule nested_wrap.IH)
    then have "properly_nested (OpenTag name # (u' @ x @ v') @ [CloseTag name])"
      using nested_wrap.hyps(1) by (intro properly_nested.nested_wrap)
    then show ?thesis by (simp add: u v)
  qed
next
  case (nested_seq ts us)
  from nested_seq.prems obtain z where
    "(ts = u @ z \<and> v = z @ us) \<or> (u = ts @ z \<and> us = z @ v)"
    by (auto simp: append_eq_append_conv2)
  then show ?case
  proof
    assume a: "ts = u @ z \<and> v = z @ us"
    then have "properly_nested (u @ x @ z)" using nested_seq.IH(1) by blast
    then have "properly_nested ((u @ x @ z) @ us)" using nested_seq.hyps(2)
      by (rule properly_nested.nested_seq)
    then show ?thesis using a by simp
  next
    assume a: "u = ts @ z \<and> us = z @ v"
    then have "properly_nested (z @ x @ v)" using nested_seq.IH(2) by blast
    with nested_seq.hyps(1) have "properly_nested (ts @ (z @ x @ v))"
      by (rule properly_nested.nested_seq)
    then show ?thesis using a by simp
  qed
qed

lemma tag_of_Open: "tag_of m = OpenTag n \<longleftrightarrow> \<not> prefix ''</'' (fullTag m) \<and> \<not> suffix ''/>'' (fullTag m) \<and> toLowerCase (group1 m) = n"
  by (auto simp: tag_of_def)
lemma tag_of_Close: "tag_of m = CloseTag n \<longleftrightarrow> prefix ''</'' (fullTag m) \<and> toLowerCase (group1 m) = n"
  by (auto simp: tag_of_def)
lemma tag_of_Self: "tag_of m = SelfClosingTag n \<longleftrightarrow> \<not> prefix ''</'' (fullTag m) \<and> suffix ''/>'' (fullTag m) \<and> toLowerCase (group1 m) = n"
  by (auto simp: tag_of_def)

lemma valid_imp_nested:
  "validate_loop ms st = Valid \<Longrightarrow> set st \<subseteq> set allowedTags \<Longrightarrow>
     properly_nested (map OpenTag st @ map tag_of ms)"
proof (induction ms arbitrary: st)
  case Nil
  then show ?case by (auto split: if_splits intro: properly_nested.nested_empty)
next
  case (Cons m ms)
  let ?n = "toLowerCase (group1 m)"
  from Cons.prems(1) have allowed: "?n \<in> set allowedTags"
    by (auto simp: Let_def split: if_splits)
  show ?case
  proof (cases "prefix ''</'' (fullTag m)")
    case True
    with Cons.prems(1) allowed have st: "st \<noteq> []" "last st = ?n" and v: "validate_loop ms (butlast st) = Valid"
      by (auto simp: Let_def split: if_splits)
    have "set (butlast st) \<subseteq> set allowedTags" using Cons.prems(2) by (meson in_set_butlastD subset_iff)
    then have "properly_nested (map OpenTag (butlast st) @ map tag_of ms)" using v by (rule Cons.IH[rotated])
    then have "properly_nested (map OpenTag (butlast st) @ [OpenTag ?n, CloseTag ?n] @ map tag_of ms)"
      using properly_nested.nested_wrap[OF allowed properly_nested.nested_empty]
      by (intro nested_insert[where w = "map OpenTag (butlast st) @ map tag_of ms"]) auto
    moreover have "st = butlast st @ [?n]" using st by (metis append_butlast_last_id)
    then have "map OpenTag st = map OpenTag (butlast st) @ [OpenTag ?n]" by (metis list.simps(8,9) map_append)
    moreover have "tag_of m = CloseTag ?n" using True by (simp add: tag_of_Close)
    ultimately show ?thesis by simp
  next
    case False
    show ?thesis
    proof (cases "suffix ''/>'' (fullTag m)")
      case True
      with False Cons.prems(1) allowed have v: "validate_loop ms st = Valid"
        by (auto simp: Let_def split: if_splits)
      then have "properly_nested (map OpenTag st @ map tag_of ms)" using Cons.prems(2) by (rule Cons.IH)
      then have "properly_nested (map OpenTag st @ [SelfClosingTag ?n] @ map tag_of ms)"
        using properly_nested.nested_self[OF allowed]
        by (intro nested_insert[where w = "map OpenTag st @ map tag_of ms"]) auto
      moreover have "tag_of m = SelfClosingTag ?n" using True False by (simp add: tag_of_Self)
      ultimately show ?thesis by simp
    next
      case nsuf: False
      with False Cons.prems(1) allowed have v: "validate_loop ms (st @ [?n]) = Valid"
        by (auto simp: Let_def split: if_splits)
      moreover have "set (st @ [?n]) \<subseteq> set allowedTags" using Cons.prems(2) allowed by simp
      ultimately have "properly_nested (map OpenTag (st @ [?n]) @ map tag_of ms)" by (rule Cons.IH)
      moreover have "tag_of m = OpenTag ?n" using nsuf False by (simp add: tag_of_Open)
      ultimately show ?thesis by simp
    qed
  qed
qed

lemma nested_imp_skip:
  "properly_nested ts \<Longrightarrow> map tag_of ms = ts \<Longrightarrow> validate_loop (ms @ rest) st = validate_loop rest st"
proof (induction ts arbitrary: ms rest st rule: properly_nested.induct)
  case nested_empty
  then show ?case by simp
next
  case (nested_self name)
  then obtain m where "ms = [m]" "tag_of m = SelfClosingTag name" by auto
  then show ?case using nested_self.hyps by (auto simp: tag_of_Self Let_def)
next
  case (nested_wrap name ts)
  from nested_wrap.prems obtain m1 ms' m2 where ms: "ms = m1 # ms' @ [m2]"
    and t: "tag_of m1 = OpenTag name" "map tag_of ms' = ts" "tag_of m2 = CloseTag name"
    by (auto simp: map_eq_Cons_conv map_eq_append_conv)
  have "validate_loop (ms @ rest) st = validate_loop (ms' @ (m2 # rest)) (st @ [name])"
    using t(1) nested_wrap.hyps(1) by (auto simp: ms tag_of_Open Let_def)
  also have "\<dots> = validate_loop (m2 # rest) (st @ [name])"
    using t(2) by (rule nested_wrap.IH)
  also have "\<dots> = validate_loop rest st"
    using t(3) nested_wrap.hyps(1) by (auto simp: tag_of_Close Let_def)
  finally show ?case .
next
  case (nested_seq ts us)
  from nested_seq.prems obtain ms1 ms2 where ms: "ms = ms1 @ ms2" "map tag_of ms1 = ts" "map tag_of ms2 = us"
    by (auto simp: map_eq_append_conv)
  have "validate_loop (ms @ rest) st = validate_loop (ms1 @ (ms2 @ rest)) st" by (simp add: ms)
  also have "\<dots> = validate_loop (ms2 @ rest) st" using ms(2) by (rule nested_seq.IH(1))
  also have "\<dots> = validate_loop rest st" using ms(3) by (rule nested_seq.IH(2))
  finally show ?case .
qed

lemma validate_loop_nested: "validate_loop ms [] = Valid \<longleftrightarrow> properly_nested (map tag_of ms)"
proof
  assume "validate_loop ms [] = Valid"
  then have "properly_nested (map OpenTag [] @ map tag_of ms)"
    by (intro valid_imp_nested) auto
  then show "properly_nested (map tag_of ms)" by simp
next
  assume "properly_nested (map tag_of ms)"
  then have "validate_loop (ms @ []) [] = validate_loop [] []"
    by (intro nested_imp_skip) auto
  then show "validate_loop ms [] = Valid" by simp
qed

subsection \<open>What the pattern takes for the name of a tag\<close>

lemma is_letter_code:
  "is_letter c = (let n = (of_char c :: nat) in (97 \<le> n \<and> n \<le> 122) \<or> (65 \<le> n \<and> n \<le> 90))"
  by (simp add: is_letter_def less_eq_char_def Let_def)

lemmas html_eval = exec_all.simps match_at_def is_letter_code Let_def validateHTML_def
  allowedTags_def toLowerCase_def lower_char_def less_eq_char_def suffix_to_prefix

text \<open>
  C7 (the code differs). Claim: validateHTML returns valid exactly when the tags of the
  text are properly nested occurrences of the whitelisted tags, and any unknown tag is
  rejected with a message that names it. The code: the pattern
  \<^verbatim>\<open><\/?([a-z]+)[^>]*>\<close> captures only the leading letters of the name of a tag and
  lets \<^verbatim>\<open>[^>]*\<close> take the rest, so the tag \<open>b1\<close>, which is not in the list, is checked
  as \<open>b\<close>: the text \<open><b1>x</b1>\<close> is valid, while \<open><bold>x</bold>\<close> is rejected as the
  code means to. The tag \<open>h1\<close> is rejected, with a message that names \<open><h>\<close>. A closing
  tag with no tag open is rejected with a message that gives \<open></undefined>\<close> for the tag
  that was expected.
\<close>

theorem validateHTML_accepts_unlisted_tag:
  "validateHTML ''<b1>x</b1>'' = Valid \<and> ''b1'' \<notin> set allowedTags \<and>
   validateHTML ''<bold>x</bold>'' = Invalid (msg_disallowed ''bold'') \<and>
   validateHTML ''<h1>x</h1>'' = Invalid (msg_disallowed ''h'') \<and>
   validateHTML ''x</b>'' = Invalid (msg_nesting None ''b'')"
  by (simp add: html_eval)

section \<open>Store calls and their failures\<close>

subsection \<open>strict\<close>

lemma strict_db_call: "strict 1 (db_call f)"
  by (auto simp: strict_def db_call_def Let_def less_Suc_eq_le
      split: if_splits prod.splits sum.splits outcome.splits dest: le_antisym)

lemma strict_ret: "strict 0 (ret x)"
  by (auto simp: strict_def ret_def)

lemma strict_bind:
  assumes "strict n m" "\<And>x. strict n' (f x)"
  shows "strict (n + n') (bind m f)"
  unfolding strict_def
proof (intro allI impI)
  fix w r w' assume b: "bind m f w = (r, w')"
  obtain r1 w1 where m: "m w = (r1, w1)" by (cases "m w")
  note s1 = assms(1)[unfolded strict_def, rule_format, OF m]
  from s1 have f1: "db_fault w1 = db_fault w" by simp
  show "db_fault w' = db_fault w \<and>
        (case r of Return x \<Rightarrow> db_calls w' = db_calls w + (n + n') \<and>
              \<not> (\<exists>k. db_calls w \<le> k \<and> k < db_calls w + (n + n') \<and> db_fault w k)
         | Throw e \<Rightarrow> True)"
  proof (cases r1)
    case (Throw e)
    with b m f1 show ?thesis by (auto simp: bind_def)
  next
    case (Return x)
    with b m have fx: "f x w1 = (r, w')" by (simp add: bind_def)
    from s1 Return have c1: "db_calls w1 = db_calls w + n"
      and n1: "\<not> (\<exists>k. db_calls w \<le> k \<and> k < db_calls w + n \<and> db_fault w k)"
      by simp_all
    from assms(2)[of x, unfolded strict_def, rule_format, OF fx] have f2: "db_fault w' = db_fault w1"
      and r2: "(case r of Return y \<Rightarrow> db_calls w' = db_calls w1 + n' \<and>
              \<not> (\<exists>k. db_calls w1 \<le> k \<and> k < db_calls w1 + n' \<and> db_fault w1 k)
         | Throw e \<Rightarrow> True)"
      by simp_all
    show ?thesis
    proof (cases r)
      case (Throw e)
      then show ?thesis using f1 f2 by simp
    next
      case (Return y)
      with r2 have c2: "db_calls w' = db_calls w1 + n'"
        and n2: "\<not> (\<exists>k. db_calls w1 \<le> k \<and> k < db_calls w1 + n' \<and> db_fault w1 k)" by auto
      have "\<not> (\<exists>k. db_calls w \<le> k \<and> k < db_calls w + (n + n') \<and> db_fault w k)"
      proof
        assume "\<exists>k. db_calls w \<le> k \<and> k < db_calls w + (n + n') \<and> db_fault w k"
        then obtain k where k: "db_calls w \<le> k" "k < db_calls w + (n + n')" "db_fault w k" by blast
        show False
        proof (cases "k < db_calls w + n")
          case True
          with k n1 show False by blast
        next
          case False
          with k c1 f1 n2 show False by (auto simp: not_less)
        qed
      qed
      with Return c1 c2 f1 f2 show ?thesis by simp
    qed
  qed
qed

lemma strict_rethrow: "strict n m \<Longrightarrow> strict n (try_catch m (\<lambda>e. throw E))"
  by (auto simp: strict_def try_catch_def throw_def split: prod.splits outcome.splits)

lemma strict_for_each:
  assumes "\<And>x. strict n (f x)"
  shows "strict (n * length xs) (for_each xs f)"
proof (induction xs)
  case Nil
  show ?case by (auto simp: strict_def)
next
  case (Cons x xs)
  have "for_each (x # xs) f = bind (f x) (\<lambda>u. for_each xs f)"
    by (rule ext) (auto simp: bind_def split: prod.splits outcome.splits)
  moreover have "strict (n + n * length xs) (bind (f x) (\<lambda>u. for_each xs f))"
    using assms Cons by (intro strict_bind)
  ultimately show ?case by simp
qed

lemma strict_createPost: "strict 1 (createPost d)"
  unfolding createPost_def by (intro strict_rethrow strict_db_call)

lemma strict_updatePost: "strict 1 (updatePost i d)"
  unfolding updatePost_def by (intro strict_rethrow strict_db_call)

lemma strict_addMedia: "strict 2 (addMedia i a b c d)"
proof -
  have "strict (1 + 1) (bind (db_call (media_count i)) (\<lambda>n. db_call (media_create i a b c d n)))"
    by (intro strict_bind strict_db_call)
  then have "strict (1 + 1) (addMedia i a b c d)"
    unfolding addMedia_def by (rule strict_rethrow)
  then show ?thesis by (simp only: one_add_one)
qed

lemma strict_addButton: "strict 1 (addButton i a b c d)"
  unfolding addButton_def by (intro strict_rethrow strict_db_call)

lemma strict_schedulePost: "strict 2 (schedulePost i d)"
proof -
  have "strict (1 + (1 + 0)) (bind (db_call (schedule_create i d))
          (\<lambda>schedule. bind (updatePost i \<lparr>up_text = None, up_status = Some SCHEDULED\<rparr>)
             (\<lambda>p. ret schedule)))"
    by (intro strict_bind strict_db_call strict_updatePost strict_ret)
  then have "strict (1 + (1 + 0)) (schedulePost i d)"
    unfolding schedulePost_def by (rule strict_rethrow)
  then show ?thesis by (simp only: add_0_right one_add_one)
qed

lemma strict_add_draft_media: "strict (2 * length (draft_media d)) (add_draft_media i d)"
proof -
  have "strict (2 + 0) (bind (addMedia i (fileId m) (fileType m) (fileSize m) (caption m)) (\<lambda>m. ret ()))" for m
    by (intro strict_bind strict_addMedia strict_ret)
  then have "strict 2 (bind (addMedia i (fileId m) (fileType m) (fileSize m) (caption m)) (\<lambda>m. ret ()))" for m
    by simp
  then show ?thesis unfolding add_draft_media_def
    by (rule strict_for_each)
qed

lemma strict_add_draft_buttons: "strict (length (draft_buttons d)) (add_draft_buttons i d)"
proof -
  have "strict (1 + 0) (bind (addButton i (sb_text b) (sb_url b) (sb_row b) (sb_position b)) (\<lambda>b. ret ()))" for b
    by (intro strict_bind strict_addButton strict_ret)
  then have "strict 1 (bind (addButton i (sb_text b) (sb_url b) (sb_row b) (sb_position b)) (\<lambda>b. ret ()))" for b
    by simp
  then have "strict (1 * length (draft_buttons d)) (add_draft_buttons i d)"
    unfolding add_draft_buttons_def by (rule strict_for_each)
  then show ?thesis by simp
qed

lemma strict_save_rows:
  "strict (1 + 2 * length (draft_media d) + length (draft_buttons d)) (save_rows st d c t)"
proof -
  have "strict (1 + (2 * length (draft_media d) + (length (draft_buttons d) + 0))) (save_rows st d c t)"
    unfolding save_rows_def
    by (intro strict_bind strict_createPost strict_add_draft_media strict_add_draft_buttons strict_ret)
  then show ?thesis by (simp add: add.assoc)
qed

lemma strict_schedule_rows:
  "strict (1 + 2 * length (draft_media d) + length (draft_buttons d) + 2) (schedule_rows d c t due)"
proof -
  have "strict ((1 + 2 * length (draft_media d) + length (draft_buttons d)) + (2 + 0)) (schedule_rows d c t due)"
    unfolding schedule_rows_def
    by (intro strict_bind strict_save_rows strict_schedulePost strict_ret)
  then show ?thesis by simp
qed

lemma strict_throws:
  assumes "strict n m" "db_calls w \<le> k" "k < db_calls w + n" "db_fault w k"
  shows "\<exists>e w'. m w = (Throw e, w')"
proof -
  obtain r w' where m: "m w = (r, w')" by (cases "m w")
  note s = assms(1)[unfolded strict_def, rule_format, OF m]
  show ?thesis
  proof (cases r)
    case (Return x)
    with s assms(2-4) show ?thesis by auto
  next
    case (Throw e)
    with m show ?thesis by blast
  qed
qed


subsection \<open>What the actions leave alone\<close>

lemma keeps_env_refl [simp]: "keeps_env w w"
  by (simp add: keeps_env_def)

lemma keeps_env_trans: "keeps_env w w1 \<Longrightarrow> keeps_env w1 w2 \<Longrightarrow> keeps_env w w2"
  by (simp add: keeps_env_def)

lemma keeps_posts_refl [simp]: "keeps_posts w w"
  by (simp add: keeps_posts_def)

lemma keeps_posts_trans: "keeps_posts w w1 \<Longrightarrow> keeps_posts w1 w2 \<Longrightarrow> keeps_posts w w2"
  by (auto simp: keeps_posts_def intro: keeps_env_trans)

lemma env_safeD: "env_safe m \<Longrightarrow> m w = (r, w') \<Longrightarrow> keeps_env w w'"
  by (auto simp: env_safe_def)

lemma posts_safeD: "posts_safe m \<Longrightarrow> m w = (r, w') \<Longrightarrow> keeps_posts w w'"
  by (auto simp: posts_safe_def)

lemma posts_safe_env: "posts_safe m \<Longrightarrow> env_safe m"
  by (auto simp: posts_safe_def env_safe_def keeps_posts_def)

lemma env_safe_ret: "env_safe (ret x)" and env_safe_throw: "env_safe (throw e)"
  by (auto simp: env_safe_def ret_def throw_def)

lemma posts_safe_ret: "posts_safe (ret x)" and posts_safe_throw: "posts_safe (throw e)"
  by (auto simp: posts_safe_def ret_def throw_def)

lemma env_safe_db_call: "env_safe (db_call f)"
  by (auto simp: env_safe_def db_call_def keeps_env_def Let_def
      split: if_splits prod.splits sum.splits)

lemma env_safe_bind: "env_safe m \<Longrightarrow> (\<And>x. env_safe (f x)) \<Longrightarrow> env_safe (bind m f)"
  unfolding env_safe_def bind_def
  by (auto split: prod.splits outcome.splits) (meson keeps_env_trans)

lemma env_safe_try_catch: "env_safe m \<Longrightarrow> (\<And>e. env_safe (h e)) \<Longrightarrow> env_safe (try_catch m h)"
  unfolding env_safe_def try_catch_def
  by (auto split: prod.splits outcome.splits) (meson keeps_env_trans)

lemma posts_safe_bind: "posts_safe m \<Longrightarrow> (\<And>x. posts_safe (f x)) \<Longrightarrow> posts_safe (bind m f)"
  unfolding posts_safe_def bind_def
  by (auto split: prod.splits outcome.splits) (meson keeps_posts_trans)

lemma posts_safe_try_catch: "posts_safe m \<Longrightarrow> (\<And>e. posts_safe (h e)) \<Longrightarrow> posts_safe (try_catch m h)"
  unfolding posts_safe_def try_catch_def
  by (auto split: prod.splits outcome.splits) (meson keeps_posts_trans)

lemma for_each_bind: "for_each (x # xs) f = bind (f x) (\<lambda>u. for_each xs f)"
  by (rule ext) (auto simp: bind_def split: prod.splits outcome.splits)

lemma env_safe_for_each: "(\<And>x. env_safe (f x)) \<Longrightarrow> env_safe (for_each xs f)"
proof (induction xs)
  case Nil
  show ?case by (auto simp: env_safe_def)
next
  case (Cons x xs)
  then show ?case unfolding for_each_bind by (intro env_safe_bind) auto
qed

lemma posts_safe_for_each: "(\<And>x. posts_safe (f x)) \<Longrightarrow> posts_safe (for_each xs f)"
proof (induction xs)
  case Nil
  show ?case by (auto simp: posts_safe_def)
next
  case (Cons x xs)
  then show ?case unfolding for_each_bind by (intro posts_safe_bind) auto
qed

lemma posts_safe_db_call:
  assumes "\<And>s r s'. f s = (r, s') \<Longrightarrow>
    posts s' = posts s \<and> channels s' = channels s \<and> schedules s' = schedules s \<and>
    post_statistics s' = post_statistics s \<and> next_post_id s' = next_post_id s \<and>
    next_schedule_id s' = next_schedule_id s"
  shows "posts_safe (db_call f)"
  unfolding posts_safe_def
proof (intro allI impI)
  fix w r w' assume c: "db_call f w = (r, w')"
  obtain r0 s' where f: "f (db w) = (r0, s')" by (cases "f (db w)")
  note a = assms[OF f]
  from c f a show "keeps_posts w w'"
    by (auto simp: db_call_def keeps_posts_def keeps_env_def Let_def split: if_splits sum.splits)
qed

lemma posts_safe_addMedia: "posts_safe (addMedia i a b c d)"
  unfolding addMedia_def
  by (intro posts_safe_try_catch posts_safe_bind posts_safe_throw posts_safe_db_call)
     (auto simp: media_count_def media_create_def Let_def split: option.splits if_splits)

lemma posts_safe_addButton: "posts_safe (addButton i a b c d)"
  unfolding addButton_def
  by (intro posts_safe_try_catch posts_safe_bind posts_safe_throw posts_safe_db_call)
     (auto simp: postButton_create_def Let_def split: option.splits)

lemma posts_safe_getChannelById: "posts_safe (getChannelById i)"
  unfolding getChannelById_def
  by (intro posts_safe_try_catch posts_safe_ret posts_safe_db_call)
     (auto simp: channel_findUnique_def)

lemma posts_safe_getPostById: "posts_safe (getPostById i)"
  unfolding getPostById_def
  by (intro posts_safe_try_catch posts_safe_ret posts_safe_db_call)
     (auto simp: post_findUnique_def)

lemma posts_safe_add_draft_media: "posts_safe (add_draft_media i d)"
  unfolding add_draft_media_def
  by (intro posts_safe_for_each posts_safe_bind posts_safe_addMedia posts_safe_ret)

lemma posts_safe_add_draft_buttons: "posts_safe (add_draft_buttons i d)"
  unfolding add_draft_buttons_def
  by (intro posts_safe_for_each posts_safe_bind posts_safe_addButton posts_safe_ret)

lemma env_safe_createPost: "env_safe (createPost d)"
  unfolding createPost_def by (intro env_safe_try_catch env_safe_db_call env_safe_throw)

lemma env_safe_updatePost: "env_safe (updatePost i d)"
  unfolding updatePost_def by (intro env_safe_try_catch env_safe_db_call env_safe_throw)

lemma env_safe_schedulePost: "env_safe (schedulePost i d)"
  unfolding schedulePost_def
  by (intro env_safe_try_catch env_safe_bind env_safe_db_call env_safe_updatePost
      env_safe_ret env_safe_throw)

lemma env_safe_save_rows: "env_safe (save_rows st d c t)"
  unfolding save_rows_def
  by (intro env_safe_bind env_safe_createPost env_safe_ret
      posts_safe_env[OF posts_safe_add_draft_media] posts_safe_env[OF posts_safe_add_draft_buttons])

lemma env_safe_schedule_rows: "env_safe (schedule_rows d c t due)"
  unfolding schedule_rows_def
  by (intro env_safe_bind env_safe_save_rows env_safe_schedulePost env_safe_ret)


subsection \<open>What the writes add\<close>

lemma createPost_Return:
  assumes "createPost \<lparr>cp_channelId = c, cp_text = t, cp_status = Some st\<rparr> w = (Return p, w1)"
  shows "p = new_post st c t (db w)" "posts (db w1) = posts (db w) @ [p]"
    "media_rows (db w1) = media_rows (db w)" "post_buttons (db w1) = post_buttons (db w)"
    "schedules (db w1) = schedules (db w)"
  using assms
  by (auto simp: createPost_def try_catch_def db_call_def post_create_def throw_def new_post_def
      Let_def split: if_splits option.splits)

lemma addMedia_Return:
  assumes "addMedia i a b c d w = (Return m, w1)"
  shows "length (media_rows (db w1)) = Suc (length (media_rows (db w)))"
    "post_buttons (db w1) = post_buttons (db w)"
  using assms
  by (auto simp: addMedia_def try_catch_def bind_def db_call_def media_count_def media_create_def
      throw_def Let_def split: if_splits option.splits)

lemma addButton_Return:
  assumes "addButton i a b c d w = (Return m, w1)"
  shows "length (post_buttons (db w1)) = Suc (length (post_buttons (db w)))"
    "media_rows (db w1) = media_rows (db w)"
  using assms
  by (auto simp: addButton_def try_catch_def db_call_def postButton_create_def
      throw_def Let_def split: if_splits option.splits)

lemma add_media_loop:
  "for_each xs (\<lambda>media. bind (addMedia i (fileId media) (fileType media) (fileSize media) (caption media))
                   (\<lambda>m. ret ())) w = (Return (), w') \<Longrightarrow>
   length (media_rows (db w')) = length (media_rows (db w)) + length xs \<and>
   post_buttons (db w') = post_buttons (db w)"
proof (induction xs arbitrary: w)
  case Nil
  then show ?case by simp
next
  case (Cons x xs)
  let ?f = "\<lambda>media. bind (addMedia i (fileId media) (fileType media) (fileSize media) (caption media))
                   (\<lambda>m. ret ())"
  from Cons.prems obtain w1 where 1: "?f x w = (Return (), w1)"
    and 2: "for_each xs ?f w1 = (Return (), w')"
    by (auto split: prod.splits outcome.splits)
  from 1 obtain m where "addMedia i (fileId x) (fileType x) (fileSize x) (caption x) w = (Return m, w1)"
    by (auto simp: bind_def ret_def split: prod.splits outcome.splits)
  from addMedia_Return[OF this] Cons.IH[OF 2] show ?case by simp
qed

lemma add_button_loop:
  "for_each xs (\<lambda>button. bind (addButton i (sb_text button) (sb_url button) (sb_row button)
                          (sb_position button)) (\<lambda>b. ret ())) w = (Return (), w') \<Longrightarrow>
   length (post_buttons (db w')) = length (post_buttons (db w)) + length xs \<and>
   media_rows (db w') = media_rows (db w)"
proof (induction xs arbitrary: w)
  case Nil
  then show ?case by simp
next
  case (Cons x xs)
  let ?f = "\<lambda>button. bind (addButton i (sb_text button) (sb_url button) (sb_row button)
                          (sb_position button)) (\<lambda>b. ret ())"
  from Cons.prems obtain w1 where 1: "?f x w = (Return (), w1)"
    and 2: "for_each xs ?f w1 = (Return (), w')"
    by (auto split: prod.splits outcome.splits)
  from 1 obtain m where "addButton i (sb_text x) (sb_url x) (sb_row x) (sb_position x) w = (Return m, w1)"
    by (auto simp: bind_def ret_def split: prod.splits outcome.splits)
  from addButton_Return[OF this] Cons.IH[OF 2] show ?case by simp
qed

lemma save_rows_Return:
  assumes "save_rows st d c t w = (Return p, w')"
  shows "p = new_post st c t (db w)" "rows_written st d c t (db w) (db w')"
    "posts (db w') = posts (db w) @ [p]" "schedules (db w') = schedules (db w)"
    "next_schedule_id (db w') = next_schedule_id (db w)"
proof -
  from assms obtain p0 w1 w2 where
    1: "createPost \<lparr>cp_channelId = c, cp_text = t, cp_status = Some st\<rparr> w = (Return p0, w1)"
    and 2: "add_draft_media (p_id p0) d w1 = (Return (), w2)"
    and 3: "add_draft_buttons (p_id p0) d w2 = (Return (), w')" and p: "p = p0"
    by (auto simp: save_rows_def bind_def ret_def split: prod.splits outcome.splits)
  note c = createPost_Return[OF 1]
  note m = add_media_loop[OF 2[unfolded add_draft_media_def]]
  note b = add_button_loop[OF 3[unfolded add_draft_buttons_def]]
  note k2 = posts_safeD[OF posts_safe_add_draft_media 2]
  note k3 = posts_safeD[OF posts_safe_add_draft_buttons 3]
  show "p = new_post st c t (db w)" using c p by simp
  show ps: "posts (db w') = posts (db w) @ [p]"
    using c k2 k3 p by (simp add: keeps_posts_def)
  show "schedules (db w') = schedules (db w)"
    using c k2 k3 by (simp add: keeps_posts_def)
  show "next_schedule_id (db w') = next_schedule_id (db w)"
    using 1 k2 k3
    by (auto simp: keeps_posts_def createPost_def try_catch_def db_call_def post_create_def
        throw_def Let_def split: if_splits option.splits)
  show "rows_written st d c t (db w) (db w')"
    using c m b ps p by (simp add: rows_written_def)
qed

lemma updatePost_Return:
  assumes "updatePost i data w = (Return q, w1)"
  shows "posts (db w1) = map (\<lambda>q. if p_id q = i then apply_update data q else q) (posts (db w))"
    "media_rows (db w1) = media_rows (db w)" "post_buttons (db w1) = post_buttons (db w)"
    "schedules (db w1) = schedules (db w)"
  using assms
  by (auto simp: updatePost_def try_catch_def db_call_def post_update_def throw_def
      Let_def split: if_splits option.splits)

lemma schedulePost_Return:
  assumes "schedulePost i due w = (Return x, w')"
  shows "list_ex (\<lambda>x. s_post_id x = i \<and> s_scheduled_at x = due \<and> s_status x = PENDING \<and>
                  s_attempts x = 0) (schedules (db w'))"
    "media_rows (db w') = media_rows (db w)" "post_buttons (db w') = post_buttons (db w)"
    "posts (db w') = map (\<lambda>q. if p_id q = i
        then apply_update \<lparr>up_text = None, up_status = Some SCHEDULED\<rparr> q else q) (posts (db w))"
proof -
  from assms obtain x0 w1 q where
    1: "db_call (schedule_create i due) w = (Return x0, w1)"
    and 2: "updatePost i \<lparr>up_text = None, up_status = Some SCHEDULED\<rparr> w1 = (Return q, w')"
    by (auto simp: schedulePost_def try_catch_def bind_def ret_def throw_def
        split: prod.splits outcome.splits)
  from 1 have s1: "list_ex (\<lambda>x. s_post_id x = i \<and> s_scheduled_at x = due \<and> s_status x = PENDING \<and>
                  s_attempts x = 0) (schedules (db w1))"
    and r1: "media_rows (db w1) = media_rows (db w)" "post_buttons (db w1) = post_buttons (db w)"
      "posts (db w1) = posts (db w)"
    by (auto simp: db_call_def schedule_create_def Let_def split: if_splits)
  note u = updatePost_Return[OF 2]
  show "list_ex (\<lambda>x. s_post_id x = i \<and> s_scheduled_at x = due \<and> s_status x = PENDING \<and>
                  s_attempts x = 0) (schedules (db w'))" using s1 u by simp
  show "media_rows (db w') = media_rows (db w)" "post_buttons (db w') = post_buttons (db w)"
    using r1 u by simp_all
  show "posts (db w') = map (\<lambda>q. if p_id q = i
        then apply_update \<lparr>up_text = None, up_status = Some SCHEDULED\<rparr> q else q) (posts (db w))"
    using r1 u by simp
qed

lemma schedule_rows_Return:
  assumes "schedule_rows d c t due w = (Return p, w')"
  shows "rows_written SCHEDULED d c t (db w) (db w')" "schedule_written due (db w) (db w')"
proof -
  from assms obtain w1 x where
    1: "save_rows SCHEDULED d c t w = (Return p, w1)"
    and 2: "schedulePost (p_id p) due w1 = (Return x, w')"
    by (auto simp: schedule_rows_def bind_def ret_def split: prod.splits outcome.splits)
  note s = save_rows_Return[OF 1]
  note x = schedulePost_Return[OF 2]
  have pid: "p_id p = next_post_id (db w)" using s(1) by (simp add: new_post_def)
  have "apply_update \<lparr>up_text = None, up_status = Some SCHEDULED\<rparr> p = p"
    using s(1) by (simp add: apply_update_def new_post_def)
  then have "p \<in> set (posts (db w'))"
    using x(4) s(3) by (auto simp: image_iff)
  then show "rows_written SCHEDULED d c t (db w) (db w')"
    using s(1,2) x(2,3) by (simp add: rows_written_def)
  show "schedule_written due (db w) (db w')"
    using x(1) pid by (simp add: schedule_written_def)
qed

subsection \<open>Messages to the admin\<close>

lemma notify_result:
  "\<exists>w'. notify m w = (Return (), w') \<and> db w' = db w \<and> session w' = session w \<and>
        (\<not> chat_fault w (chat_calls w) \<longrightarrow> chat w' = chat w @ [EditMessageText m])"
  by (auto simp: notify_def try_catch_def editMessageText_def reply_def chat_call_def ret_def Let_def)

lemma try_reply_result:
  "\<exists>w'. try_reply m w = (Return (), w') \<and> db w' = db w \<and> session w' = session w \<and>
        (\<not> chat_fault w (chat_calls w) \<longrightarrow> chat w' = chat w @ [Reply m])"
  by (auto simp: try_reply_def try_catch_def reply_def chat_call_def ret_def Let_def)

lemma getChannelById_result:
  "\<exists>ch w'. getChannelById c w = (Return ch, w') \<and> db w' = db w \<and> keeps_env w w' \<and>
     (\<not> db_fault w (db_calls w) \<longrightarrow> ch = find_channel (db w) c)"
  by (auto simp: getChannelById_def try_catch_def db_call_def channel_findUnique_def ret_def
      keeps_env_def Let_def)

lemma schedule_notification_result:
  "\<exists>w'. try_catch
          (bind (getChannelById c)
             (\<lambda>channel. try_catch (editMessageText (f channel)) (\<lambda>editError. reply (f channel))))
          (\<lambda>notificationError. ret ()) w = (Return (), w') \<and> db w' = db w \<and> session w' = session w"
proof -
  obtain ch w1 where g: "getChannelById c w = (Return ch, w1)" "db w1 = db w" "keeps_env w w1"
    using getChannelById_result[of c w] by blast
  then have "session w1 = session w" by (simp add: keeps_env_def)
  with g show ?thesis
    by (auto simp: try_catch_def bind_def editMessageText_def reply_def chat_call_def ret_def Let_def)
qed


section \<open>Committing a draft\<close>

lemma draft_fields_Some:
  "draft_fields d = Some (draft, c, t) \<Longrightarrow> d = Some draft"
  by (auto simp: draft_fields_def split: option.splits if_splits)

lemma store_fails_withinD:
  "store_fails_within w n \<Longrightarrow> \<exists>k. db_calls w \<le> k \<and> k < db_calls w + n \<and> db_fault w k"
  by (auto simp: store_fails_within_def list_ex_iff)

lemma bind_Return: "f w = (Return x, w1) \<Longrightarrow> bind f g w = g x w1"
  by (simp add: bind_def)

lemma bind_Throw: "f w = (Throw e, w1) \<Longrightarrow> bind f g w = (Throw e, w1)"
  by (simp add: bind_def)

lemma try_catch_Return: "f w = (Return x, w1) \<Longrightarrow> try_catch f h w = (Return x, w1)"
  by (simp add: try_catch_def)

lemma try_catch_Throw: "f w = (Throw e, w1) \<Longrightarrow> try_catch f h w = h e w1"
  by (simp add: try_catch_def)

lemma handleSaveDraft_cases:
  assumes "draft_fields (getPostDraft w) = Some (draft, c, t)"
    and "save_rows DRAFT draft c t w = (r, w1)"
  shows "db (snd (handleSaveDraft w)) = db w1"
    and "\<And>p. r = Return p \<Longrightarrow> postDraft (session (snd (handleSaveDraft w))) = None"
    and "\<And>e. r = Throw e \<Longrightarrow> session (snd (handleSaveDraft w)) = session w \<and>
           (\<not> chat_fault w (chat_calls w) \<longrightarrow>
              chat (snd (handleSaveDraft w)) = chat w @ [Reply SaveDraftFailedMessage])"
proof -
  have h: "handleSaveDraft w =
      try_catch (handleSaveDraft_try draft c t) (\<lambda>error. try_reply SaveDraftFailedMessage) w"
    using assms(1) by (simp add: handleSaveDraft_def)
  note k = env_safeD[OF env_safe_save_rows assms(2)]
  show "db (snd (handleSaveDraft w)) = db w1"
  proof (cases r)
    case (Throw e)
    obtain w2 where "try_reply SaveDraftFailedMessage w1 = (Return (), w2)" "db w2 = db w1"
      using try_reply_result[of SaveDraftFailedMessage w1] by blast
    with Throw assms(2) show ?thesis
      by (simp add: h try_catch_def handleSaveDraft_try_def bind_def)
  next
    case (Return p)
    obtain ch w2 where g: "getChannelById c w1 = (Return ch, w2)" "db w2 = db w1"
      using getChannelById_result[of c w1] by blast
    obtain w3 where n: "notify (PostCreatedMessage (channel_name_of ch) None True) w2 = (Return (), w3)"
      "db w3 = db w2"
      using notify_result[of _ w2] by blast
    with Return assms(2) g show ?thesis
      by (simp add: h try_catch_def handleSaveDraft_try_def bind_def clear_draft_def clearPostDraft_def)
  qed
  show "postDraft (session (snd (handleSaveDraft w))) = None" if "r = Return p" for p
  proof -
    obtain ch w2 where g: "getChannelById c w1 = (Return ch, w2)"
      using getChannelById_result[of c w1] by blast
    obtain w3 where n: "notify (PostCreatedMessage (channel_name_of ch) None True) w2 = (Return (), w3)"
      using notify_result[of _ w2] by blast
    with that assms(2) g show ?thesis
      by (simp add: h try_catch_def handleSaveDraft_try_def bind_def clear_draft_def clearPostDraft_def)
  qed
  show "session (snd (handleSaveDraft w)) = session w \<and>
           (\<not> chat_fault w (chat_calls w) \<longrightarrow>
              chat (snd (handleSaveDraft w)) = chat w @ [Reply SaveDraftFailedMessage])"
    if "r = Throw e" for e
  proof -
    obtain w2 where t: "try_reply SaveDraftFailedMessage w1 = (Return (), w2)" "session w2 = session w1"
      "\<not> chat_fault w1 (chat_calls w1) \<longrightarrow> chat w2 = chat w1 @ [Reply SaveDraftFailedMessage]"
      using try_reply_result[of SaveDraftFailedMessage w1] by blast
    have "handleSaveDraft w = (Return (), w2)"
      using that assms(2) t(1) by (simp add: h try_catch_def handleSaveDraft_try_def bind_def)
    with t k show ?thesis by (simp add: keeps_env_def)
  qed
qed

lemma handleScheduledPost_cases:
  assumes "draft_fields (getPostDraft w) = Some (draft, c, t)" "scheduledAt draft = Some due"
    and "schedule_rows draft c t due w = (r, w1)"
  shows "db (snd (handleScheduledPost w)) = db w1"
    and "\<And>p. r = Return p \<Longrightarrow> postDraft (session (snd (handleScheduledPost w))) = None"
    and "\<And>e. r = Throw e \<Longrightarrow> session (snd (handleScheduledPost w)) = session w \<and>
           (\<not> chat_fault w (chat_calls w) \<longrightarrow>
              chat (snd (handleScheduledPost w)) = chat w @ [Reply (ScheduleFailedMessage e)])"
proof -
  have h: "handleScheduledPost w =
      try_catch (handleScheduledPost_try draft c t due) (\<lambda>error. try_reply (ScheduleFailedMessage error)) w"
    using assms(1,2) by (simp add: handleScheduledPost_def)
  note k = env_safeD[OF env_safe_schedule_rows assms(3)]
  let ?note = "try_catch
          (bind (getChannelById c)
             (\<lambda>channel. try_catch
                 (editMessageText (PostCreatedMessage (channel_name_of channel) (Some due) False))
                 (\<lambda>editError. reply (PostCreatedMessage (channel_name_of channel) (Some due) False))))
          (\<lambda>notificationError. ret ())"
  obtain w2 where n: "?note w1 = (Return (), w2)" "db w2 = db w1"
    using schedule_notification_result[of c "\<lambda>channel. PostCreatedMessage (channel_name_of channel) (Some due) False" w1]
    by blast
  show "db (snd (handleScheduledPost w)) = db w1"
  proof (cases r)
    case (Throw e)
    obtain w3 where "try_reply (ScheduleFailedMessage e) w1 = (Return (), w3)" "db w3 = db w1"
      using try_reply_result[of _ w1] by blast
    with Throw assms(3) show ?thesis
      by (simp add: h try_catch_def handleScheduledPost_try_def bind_def)
  next
    case (Return p)
    have "handleScheduledPost_try draft c t due w = clear_draft w2"
      unfolding handleScheduledPost_try_def using Return assms(3) n(1)
      by (simp add: bind_Return)
    then show ?thesis using n(2)
      by (simp add: h clear_draft_def clearPostDraft_def try_catch_Return)
  qed
  show "postDraft (session (snd (handleScheduledPost w))) = None" if "r = Return p" for p
  proof -
    have "handleScheduledPost_try draft c t due w = clear_draft w2"
      unfolding handleScheduledPost_try_def using that assms(3) n(1)
      by (simp add: bind_Return)
    then show ?thesis
      by (simp add: h clear_draft_def clearPostDraft_def try_catch_Return)
  qed
  show "session (snd (handleScheduledPost w)) = session w \<and>
           (\<not> chat_fault w (chat_calls w) \<longrightarrow>
              chat (snd (handleScheduledPost w)) = chat w @ [Reply (ScheduleFailedMessage e)])"
    if "r = Throw e" for e
  proof -
    obtain w3 where t: "try_reply (ScheduleFailedMessage e) w1 = (Return (), w3)" "session w3 = session w1"
      "\<not> chat_fault w1 (chat_calls w1) \<longrightarrow> chat w3 = chat w1 @ [Reply (ScheduleFailedMessage e)]"
      using try_reply_result[of _ w1] by blast
    have "handleScheduledPost w = (Return (), w3)"
      using that assms(3) t(1) by (simp add: h try_catch_def handleScheduledPost_try_def bind_def)
    with t k show ?thesis by (simp add: keeps_env_def)
  qed
qed

lemma save_draft_commit:
  assumes "draft_fields (getPostDraft w) = Some (draft, c, t)"
  shows "postDraft (session (snd (handleSaveDraft w))) = None \<longrightarrow>
           rows_written DRAFT draft c t (db w) (db (snd (handleSaveDraft w)))"
    and "\<not> rows_written DRAFT draft c t (db w) (db (snd (handleSaveDraft w))) \<or>
         store_fails_within w (1 + 2 * length (draft_media draft) + length (draft_buttons draft)) \<longrightarrow>
           session (snd (handleSaveDraft w)) = session w \<and>
           (\<not> chat_fault w (chat_calls w) \<longrightarrow>
              chat (snd (handleSaveDraft w)) = chat w @ [Reply SaveDraftFailedMessage])"
proof -
  obtain r w1 where s: "save_rows DRAFT draft c t w = (r, w1)" by (cases "save_rows DRAFT draft c t w")
  note h = handleSaveDraft_cases[OF assms s]
  have d: "postDraft (session w) = Some draft"
    using draft_fields_Some[OF assms] by (simp add: getPostDraft_def)
  show "postDraft (session (snd (handleSaveDraft w))) = None \<longrightarrow>
           rows_written DRAFT draft c t (db w) (db (snd (handleSaveDraft w)))"
  proof (cases r)
    case (Return p)
    then show ?thesis using save_rows_Return(2)[of DRAFT draft c t w p w1] s h(1) by simp
  next
    case (Throw e)
    then show ?thesis using h(3)[of e] d by simp
  qed
  show "\<not> rows_written DRAFT draft c t (db w) (db (snd (handleSaveDraft w))) \<or>
         store_fails_within w (1 + 2 * length (draft_media draft) + length (draft_buttons draft)) \<longrightarrow>
           session (snd (handleSaveDraft w)) = session w \<and>
           (\<not> chat_fault w (chat_calls w) \<longrightarrow>
              chat (snd (handleSaveDraft w)) = chat w @ [Reply SaveDraftFailedMessage])"
  proof (cases r)
    case (Throw e)
    then show ?thesis using h(3)[of e] by simp
  next
    case (Return p)
    have 1: "rows_written DRAFT draft c t (db w) (db (snd (handleSaveDraft w)))"
      using save_rows_Return(2)[of DRAFT draft c t w p w1] s h(1) Return by simp
    have 2: "\<not> store_fails_within w (1 + 2 * length (draft_media draft) + length (draft_buttons draft))"
    proof
      assume "store_fails_within w (1 + 2 * length (draft_media draft) + length (draft_buttons draft))"
      then obtain k where "db_calls w \<le> k"
        "k < db_calls w + (1 + 2 * length (draft_media draft) + length (draft_buttons draft))" "db_fault w k"
        using store_fails_withinD by blast
      from strict_throws[OF strict_save_rows this, of DRAFT c t] s Return show False by auto
    qed
    from 1 2 show ?thesis by simp
  qed
qed

lemma scheduled_commit:
  assumes "draft_fields (getPostDraft w) = Some (draft, c, t)" "scheduledAt draft = Some due"
  shows "postDraft (session (snd (handleScheduledPost w))) = None \<longrightarrow>
           rows_written SCHEDULED draft c t (db w) (db (snd (handleScheduledPost w))) \<and>
           schedule_written due (db w) (db (snd (handleScheduledPost w)))"
    and "\<not> (rows_written SCHEDULED draft c t (db w) (db (snd (handleScheduledPost w))) \<and>
            schedule_written due (db w) (db (snd (handleScheduledPost w)))) \<or>
         store_fails_within w (1 + 2 * length (draft_media draft) + length (draft_buttons draft) + 2) \<longrightarrow>
           session (snd (handleScheduledPost w)) = session w \<and>
           (\<not> chat_fault w (chat_calls w) \<longrightarrow>
              (\<exists>e. chat (snd (handleScheduledPost w)) = chat w @ [Reply (ScheduleFailedMessage e)]))"
proof -
  obtain r w1 where s: "schedule_rows draft c t due w = (r, w1)"
    by (cases "schedule_rows draft c t due w")
  note h = handleScheduledPost_cases[OF assms s]
  have d: "postDraft (session w) = Some draft"
    using draft_fields_Some[OF assms(1)] by (simp add: getPostDraft_def)
  show "postDraft (session (snd (handleScheduledPost w))) = None \<longrightarrow>
           rows_written SCHEDULED draft c t (db w) (db (snd (handleScheduledPost w))) \<and>
           schedule_written due (db w) (db (snd (handleScheduledPost w)))"
  proof (cases r)
    case (Return p)
    then show ?thesis using schedule_rows_Return[of draft c t due w p w1] s h(1) by simp
  next
    case (Throw e)
    then show ?thesis using h(3)[of e] d by simp
  qed
  show "\<not> (rows_written SCHEDULED draft c t (db w) (db (snd (handleScheduledPost w))) \<and>
            schedule_written due (db w) (db (snd (handleScheduledPost w)))) \<or>
         store_fails_within w (1 + 2 * length (draft_media draft) + length (draft_buttons draft) + 2) \<longrightarrow>
           session (snd (handleScheduledPost w)) = session w \<and>
           (\<not> chat_fault w (chat_calls w) \<longrightarrow>
              (\<exists>e. chat (snd (handleScheduledPost w)) = chat w @ [Reply (ScheduleFailedMessage e)]))"
  proof (cases r)
    case (Throw e)
    then show ?thesis using h(3)[of e] by auto
  next
    case (Return p)
    have 1: "rows_written SCHEDULED draft c t (db w) (db (snd (handleScheduledPost w))) \<and>
           schedule_written due (db w) (db (snd (handleScheduledPost w)))"
      using schedule_rows_Return[of draft c t due w p w1] s h(1) Return by simp
    have 2: "\<not> store_fails_within w (1 + 2 * length (draft_media draft) + length (draft_buttons draft) + 2)"
    proof
      assume "store_fails_within w (1 + 2 * length (draft_media draft) + length (draft_buttons draft) + 2)"
      then obtain k where "db_calls w \<le> k"
        "k < db_calls w + (1 + 2 * length (draft_media draft) + length (draft_buttons draft) + 2)" "db_fault w k"
        using store_fails_withinD by blast
      from strict_throws[OF strict_schedule_rows this, of c t due] s Return show False by auto
    qed
    from 1 2 show ?thesis by simp
  qed
qed

section \<open>Delivery\<close>

subsection \<open>The steps of the delivery\<close>

lemma keeps_env_chat: "keeps_env w w' \<Longrightarrow> keeps_chat w w'"
  by (simp add: keeps_env_def keeps_chat_def)

lemma keeps_chat_refl [simp]: "keeps_chat w w"
  by (simp add: keeps_chat_def)

lemma keeps_chat_trans: "keeps_chat w w1 \<Longrightarrow> keeps_chat w1 w2 \<Longrightarrow> keeps_chat w w2"
  by (simp add: keeps_chat_def)

lemma only_posts_refl [simp]: "only_posts s s"
  by (simp add: only_posts_def)

lemma only_posts_trans: "only_posts s s1 \<Longrightarrow> only_posts s1 s2 \<Longrightarrow> only_posts s s2"
  by (simp add: only_posts_def)

lemma only_posts_map [simp]: "only_posts s (s\<lparr>posts := map f (posts s)\<rparr>)"
  by (simp add: only_posts_def)

lemma tg_call_cases:
  assumes "tg_call r w = (x, w')"
  shows "keeps_chat w w'" "db w' = db w" "db_calls w' = db_calls w" "outbox w' = outbox w @ [r]"
    "case x of Return mid \<Rightarrow> tg_result w (length (outbox w)) = Some mid
             | Throw e \<Rightarrow> tg_result w (length (outbox w)) = None"
  using assms by (auto simp: tg_call_def Let_def keeps_chat_def split: option.splits)

lemma send_post_cases:
  assumes "send_post post chat_id km w = (x, w')"
  shows "keeps_chat w w'" "db w' = db w" "db_calls w' = db_calls w"
    "length (outbox w) < length (outbox w')"
    "case x of
       Return mid \<Rightarrow> tg_result w (length (outbox w)) = Some mid \<and>
          (\<forall>k. length (outbox w) \<le> k \<and> k < length (outbox w') \<longrightarrow> tg_result w k \<noteq> None)
     | Throw e \<Rightarrow> (\<exists>k. length (outbox w) \<le> k \<and> k < length (outbox w') \<and> tg_result w k = None)"
  using assms
  by (auto simp: send_post_def send_single_def tg_call_def bind_def ret_def Let_def keeps_chat_def
      less_Suc_eq le_less
      split: list.splits MediaType.splits option.splits if_splits)

lemma getPostById_cases:
  "\<exists>found wa. getPostById i w = (Return found, wa) \<and> db wa = db w \<and> keeps_env w wa \<and>
     db_calls wa = Suc (db_calls w) \<and>
     (\<forall>post. found = Some post \<longrightarrow> find_post (db w) i = Some (pr_post post) \<and>
        pr_channel post = find_channel (db w) (p_channel_id (pr_post post)))"
  by (auto simp: getPostById_def try_catch_def db_call_def post_findUnique_def ret_def
      keeps_env_def Let_def split: option.splits)

lemma updatePost_cases:
  assumes "updatePost i data w = (x, w')"
  shows "keeps_env w w'" "db_calls w' = Suc (db_calls w)"
    "if db_fault w (db_calls w) \<or> find_post (db w) i = None
     then x = Throw UpdatePostFailed \<and> db w' = db w
     else (\<exists>q. x = Return q) \<and>
          db w' = (db w)\<lparr>posts := map (\<lambda>q. if p_id q = i then apply_update data q else q) (posts (db w))\<rparr>"
  using assms
  by (auto simp: updatePost_def try_catch_def db_call_def post_update_def throw_def
      keeps_env_def Let_def split: if_splits option.splits)

lemma post_update_cases:
  assumes "db_call (post_update i f) w = (x, w')"
  shows "keeps_env w w'" "db_calls w' = Suc (db_calls w)"
    "if db_fault w (db_calls w) \<or> find_post (db w) i = None
     then (\<exists>e. x = Throw e) \<and> db w' = db w
     else (\<exists>q. x = Return q) \<and>
          db w' = (db w)\<lparr>posts := map (\<lambda>q. if p_id q = i then f q else q) (posts (db w))\<rparr>"
  using assms
  by (auto simp: db_call_def post_update_def keeps_env_def Let_def split: if_splits option.splits)

lemma schedule_update_cases:
  assumes "db_call (schedule_update i f) w = (x, w')"
  shows "keeps_env w w'" "db_calls w' = Suc (db_calls w)"
    "if db_fault w (db_calls w) \<or> find_schedule (db w) i = None
     then (\<exists>e. x = Throw e) \<and> db w' = db w
     else (\<exists>q. x = Return q) \<and>
          db w' = (db w)\<lparr>schedules := map (\<lambda>y. if s_id y = i then f y else y) (schedules (db w))\<rparr>"
  using assms
  by (auto simp: db_call_def schedule_update_def keeps_env_def Let_def split: if_splits option.splits)

subsection \<open>The end of a delivery\<close>

text \<open>The handler of a failed delivery: the status FAILED is written when the store takes
  the update, and the result is \<open>false\<close> in any case.\<close>

lemma publish_handler:
  "\<exists>wc. bind (try_catch (bind (updatePost i \<lparr>up_text = None, up_status = Some FAILED\<rparr>) (\<lambda>p. ret ()))
                 (\<lambda>updateError. ret ()))
          (\<lambda>u. ret False) wb = (Return False, wc) \<and>
        keeps_env wb wc \<and> db_calls wc = Suc (db_calls wb) \<and>
        db wc = (if db_fault wb (db_calls wb) \<or> find_post (db wb) i = None then db wb
                 else (db wb)\<lparr>posts := map (\<lambda>q. if p_id q = i
                     then apply_update \<lparr>up_text = None, up_status = Some FAILED\<rparr> q else q)
                     (posts (db wb))\<rparr>)"
proof -
  obtain x wc where u: "updatePost i \<lparr>up_text = None, up_status = Some FAILED\<rparr> wb = (x, wc)"
    by (cases "updatePost i \<lparr>up_text = None, up_status = Some FAILED\<rparr> wb")
  note c = updatePost_cases[OF u]
  have "bind (try_catch (bind (updatePost i \<lparr>up_text = None, up_status = Some FAILED\<rparr>) (\<lambda>p. ret ()))
                 (\<lambda>updateError. ret ()))
          (\<lambda>u. ret False) wb = (Return False, wc)"
    using u by (cases x) (simp_all add: bind_def try_catch_def ret_def)
  with c show ?thesis by (auto split: if_splits)
qed

text \<open>The two updates after a delivery that the platform accepted.\<close>

lemma publish_store:
  assumes "bind (updatePost i \<lparr>up_text = None, up_status = Some PUBLISHED\<rparr>)
             (\<lambda>p. bind get_clock
                (\<lambda>now. bind (db_call (post_update i
                                 (\<lambda>q. q\<lparr>p_telegram_message_id := Some mid,
                                         p_published_at := Some now\<rparr>)))
                   (\<lambda>q. ret True))) wb = (x, wd)"
  shows "keeps_env wb wd" "only_posts (db wb) (db wd)"
    "x \<noteq> Return False"
    "x = Return True \<Longrightarrow>
       db_calls wd = db_calls wb + 2 \<and>
       \<not> db_fault wb (db_calls wb) \<and> \<not> db_fault wb (Suc (db_calls wb)) \<and>
       find_post (db wb) i \<noteq> None \<and>
       posts (db wd) = map (\<lambda>q. if p_id q = i
          then q\<lparr>p_status := PUBLISHED, p_telegram_message_id := Some mid,
                 p_published_at := Some (clock wb)\<rparr> else q) (posts (db wb))"
proof -
  obtain xu wc where u: "updatePost i \<lparr>up_text = None, up_status = Some PUBLISHED\<rparr> wb = (xu, wc)"
    by (cases "updatePost i \<lparr>up_text = None, up_status = Some PUBLISHED\<rparr> wb")
  note cu = updatePost_cases[OF u]
  obtain xq we where q: "db_call (post_update i (\<lambda>q. q\<lparr>p_telegram_message_id := Some mid,
                                         p_published_at := Some (clock wc)\<rparr>)) wc = (xq, we)"
    by (cases "db_call (post_update i (\<lambda>q. q\<lparr>p_telegram_message_id := Some mid,
                                         p_published_at := Some (clock wc)\<rparr>)) wc")
  note cq = post_update_cases[OF q]
  have r: "(x, wd) = (case xu of Throw e \<Rightarrow> (Throw e, wc)
             | Return p \<Rightarrow> (case xq of Throw e \<Rightarrow> (Throw e, we) | Return p' \<Rightarrow> (Return True, we)))"
    using assms u q
    by (auto simp: bind_def get_clock_def ret_def split: outcome.splits)
  have kc: "keeps_env wb wc" "keeps_env wc we" using cu(1) cq(1) by simp_all
  have oc: "only_posts (db wb) (db wc)" using cu(3) by (auto split: if_splits)
  have oe: "only_posts (db wc) (db we)" using cq(3) by (auto split: if_splits)
  show "keeps_env wb wd"
    using r kc keeps_env_trans[OF kc] by (auto split: outcome.splits)
  show "only_posts (db wb) (db wd)"
    using r oc only_posts_trans[OF oc oe] by (auto split: outcome.splits)
  show "x \<noteq> Return False" using r by (auto split: outcome.splits)
  show "db_calls wd = db_calls wb + 2 \<and>
       \<not> db_fault wb (db_calls wb) \<and> \<not> db_fault wb (Suc (db_calls wb)) \<and>
       find_post (db wb) i \<noteq> None \<and>
       posts (db wd) = map (\<lambda>q. if p_id q = i
          then q\<lparr>p_status := PUBLISHED, p_telegram_message_id := Some mid,
                 p_published_at := Some (clock wb)\<rparr> else q) (posts (db wb))"
    if "x = Return True"
  proof -
    from that r obtain p p' where xs: "xu = Return p" "xq = Return p'" and wd: "wd = we"
      by (auto split: outcome.splits)
    from xs(1) cu(3) have 1: "\<not> db_fault wb (db_calls wb)" "find_post (db wb) i \<noteq> None"
      "db wc = (db wb)\<lparr>posts := map (\<lambda>q. if p_id q = i
          then apply_update \<lparr>up_text = None, up_status = Some PUBLISHED\<rparr> q else q) (posts (db wb))\<rparr>"
      by (auto split: if_splits)
    from xs(2) cq(3) have 2: "\<not> db_fault wc (db_calls wc)"
      "db we = (db wc)\<lparr>posts := map (\<lambda>q. if p_id q = i
          then q\<lparr>p_telegram_message_id := Some mid, p_published_at := Some (clock wc)\<rparr> else q)
          (posts (db wc))\<rparr>"
      by (auto split: if_splits)
    have f: "db_fault wc = db_fault wb" "clock wc = clock wb"
      using kc(1) by (simp_all add: keeps_env_def)
    have "posts (db we) = map (\<lambda>q. if p_id q = i
          then q\<lparr>p_status := PUBLISHED, p_telegram_message_id := Some mid,
                 p_published_at := Some (clock wb)\<rparr> else q) (posts (db wb))"
      unfolding 2(2) 1(3) by (simp add: apply_update_def f(2) comp_def)
    then show ?thesis
      using 1(1,2) 2(1) cu(2) cq(2) f(1) wd by simp
  qed
qed

subsection \<open>The results of a delivery\<close>

lemma publish_cases:
  assumes "publishPostToTelegram i w = (x, w')"
  shows "keeps_chat w w'" "only_posts (db w) (db w')" "\<exists>b. x = Return b"
    "x = Return True \<Longrightarrow>
       \<exists>p mid. find_post (db w) i = Some p \<and> tg_result w (length (outbox w)) = Some mid \<and>
         posts (db w') = map (\<lambda>q. if p_id q = i
            then q\<lparr>p_status := PUBLISHED, p_telegram_message_id := Some mid,
                   p_published_at := Some (clock w)\<rparr> else q) (posts (db w)) \<and>
         db_calls w' = db_calls w + 3"
    "\<exists>k. length (outbox w) \<le> k \<and> k < length (outbox w') \<and> tg_result w k = None \<Longrightarrow>
       x = Return False \<and> db_calls w' = db_calls w + 2 \<and>
       posts (db w') = (if db_fault w (Suc (db_calls w)) then posts (db w)
          else map (\<lambda>q. if p_id q = i
                 then apply_update \<lparr>up_text = None, up_status = Some FAILED\<rparr> q else q)
                 (posts (db w)))"
proof -
  let ?H = "\<lambda>error::exn. bind (try_catch (bind (updatePost i \<lparr>up_text = None, up_status = Some FAILED\<rparr>) (\<lambda>p. ret ()))
                 (\<lambda>updateError. ret ())) (\<lambda>u. ret False)"
  let ?K = "\<lambda>messageId. bind (updatePost i \<lparr>up_text = None, up_status = Some PUBLISHED\<rparr>)
             (\<lambda>p. bind get_clock
                (\<lambda>now. bind (db_call (post_update i
                                 (\<lambda>q. q\<lparr>p_telegram_message_id := Some messageId,
                                         p_published_at := Some now\<rparr>)))
                   (\<lambda>q. ret True)))"
  let ?F = "\<lambda>found. case found of
               None \<Rightarrow> ret False
             | Some post \<Rightarrow>
                 (case pr_channel post of
                    None \<Rightarrow> ret False
                  | Some channel \<Rightarrow>
                      bind (send_post post (js_toString (c_channel_id channel))
                              (replyMarkup_of (pr_buttons post))) ?K)"
  have pub: "publishPostToTelegram i = try_catch (bind (getPostById i) ?F) ?H"
    unfolding publishPostToTelegram_def ..
  obtain found wa where g: "getPostById i w = (Return found, wa)"
    and ga: "db wa = db w" "keeps_env w wa" "db_calls wa = Suc (db_calls w)"
    and gf: "\<forall>post. found = Some post \<longrightarrow> find_post (db w) i = Some (pr_post post) \<and>
        pr_channel post = find_channel (db w) (p_channel_id (pr_post post))"
    using getPostById_cases[of i w] by blast
  have ea: "outbox wa = outbox w" "tg_result wa = tg_result w" "db_fault wa = db_fault w"
      "clock wa = clock w"
    using ga(2) by (simp_all add: keeps_env_def)
  note ca = keeps_env_chat[OF ga(2)]
  consider (none) "found = None \<or> (\<exists>post. found = Some post \<and> pr_channel post = None)"
    | (send) post channel where "found = Some post" "pr_channel post = Some channel"
    by (cases found) auto
  then have "keeps_chat w w' \<and> only_posts (db w) (db w') \<and> (\<exists>b. x = Return b) \<and>
    (x = Return True \<longrightarrow>
       (\<exists>p mid. find_post (db w) i = Some p \<and> tg_result w (length (outbox w)) = Some mid \<and>
         posts (db w') = map (\<lambda>q. if p_id q = i
            then q\<lparr>p_status := PUBLISHED, p_telegram_message_id := Some mid,
                   p_published_at := Some (clock w)\<rparr> else q) (posts (db w)) \<and>
         db_calls w' = db_calls w + 3)) \<and>
    ((\<exists>k. length (outbox w) \<le> k \<and> k < length (outbox w') \<and> tg_result w k = None) \<longrightarrow>
       x = Return False \<and> db_calls w' = db_calls w + 2 \<and>
       posts (db w') = (if db_fault w (Suc (db_calls w)) then posts (db w)
          else map (\<lambda>q. if p_id q = i
                 then apply_update \<lparr>up_text = None, up_status = Some FAILED\<rparr> q else q)
                 (posts (db w))))"
  proof cases
    case none
    then have "?F found wa = (Return False, wa)" by (auto simp: ret_def)
    then have "publishPostToTelegram i w = (Return False, wa)"
      unfolding pub using g by (simp add: try_catch_def bind_def)
    with assms have "x = Return False" "w' = wa" by simp_all
    then show ?thesis using ca ga(1) ea by auto
  next
    case send
    let ?send = "send_post post (js_toString (c_channel_id channel)) (replyMarkup_of (pr_buttons post))"
    have fp: "find_post (db w) i = Some (pr_post post)" using gf send(1) by simp
    obtain xs wb where s: "?send wa = (xs, wb)" by (cases "?send wa")
    note cs = send_post_cases[OF s]
    have cb: "keeps_chat w wb" using ca cs(1) by (rule keeps_chat_trans)
    have eb: "db wb = db w" "db_calls wb = Suc (db_calls w)" "db_fault wb = db_fault w"
      "clock wb = clock w"
      using cs(1,2,3) ga(1,3) ea by (simp_all add: keeps_chat_def)
    have F: "?F found wa = bind ?send ?K wa" using send by simp
    show ?thesis
    proof (cases xs)
      case (Throw e)
      obtain wc where h: "?H e wb = (Return False, wc)" and hc: "keeps_env wb wc"
        "db_calls wc = Suc (db_calls wb)"
        "db wc = (if db_fault wb (db_calls wb) \<or> find_post (db wb) i = None then db wb
                 else (db wb)\<lparr>posts := map (\<lambda>q. if p_id q = i
                     then apply_update \<lparr>up_text = None, up_status = Some FAILED\<rparr> q else q)
                     (posts (db wb))\<rparr>)"
        using publish_handler[of i wb] by blast
      have "publishPostToTelegram i w = (Return False, wc)"
        unfolding pub using g F s Throw h by (simp add: try_catch_def bind_def)
      with assms have r: "x = Return False" "w' = wc" by simp_all
      have "keeps_chat w wc" using cb keeps_env_chat[OF hc(1)] by (rule keeps_chat_trans)
      moreover have "only_posts (db w) (db wc)" using hc(3) eb(1) by (auto split: if_splits)
      moreover have "db_calls wc = db_calls w + 2" using hc(2) eb(2) by simp
      moreover have "posts (db wc) = (if db_fault w (Suc (db_calls w)) then posts (db w)
          else map (\<lambda>q. if p_id q = i
                 then apply_update \<lparr>up_text = None, up_status = Some FAILED\<rparr> q else q)
                 (posts (db w)))"
        using hc(3) eb fp by simp
      ultimately show ?thesis using r by auto
    next
      case (Return mid)
      from cs(5) Return have ok: "tg_result wa (length (outbox wa)) = Some mid"
        "\<forall>k. length (outbox wa) \<le> k \<and> k < length (outbox wb) \<longrightarrow> tg_result wa k \<noteq> None"
        by simp_all
      obtain xk wd where k: "?K mid wb = (xk, wd)" by (cases "?K mid wb")
      note ck = publish_store[OF k]
      have od: "only_posts (db w) (db wd)" using ck(2) eb(1) by simp
      have cd: "keeps_chat w wd" using cb keeps_env_chat[OF ck(1)] by (rule keeps_chat_trans)
      have out_d: "outbox wd = outbox wb" using ck(1) by (simp add: keeps_env_def)
      show ?thesis
      proof (cases xk)
        case (Return b)
        with ck(3) have b: "b = True" by auto
        have "publishPostToTelegram i w = (Return True, wd)"
          unfolding pub using g F s \<open>xs = Return mid\<close> k Return b by (simp add: try_catch_def bind_def)
        with assms have r: "x = Return True" "w' = wd" by simp_all
        have "\<not> (\<exists>k. length (outbox w) \<le> k \<and> k < length (outbox wd) \<and> tg_result w k = None)"
          using ok(2) ea out_d by auto
        moreover from ck(4) Return b
        have "db_calls wd = db_calls w + 3 \<and>
           posts (db wd) = map (\<lambda>q. if p_id q = i
            then q\<lparr>p_status := PUBLISHED, p_telegram_message_id := Some mid,
                   p_published_at := Some (clock w)\<rparr> else q) (posts (db w))"
          using eb by simp
        ultimately show ?thesis using r cd od fp ok(1) ea by auto
      next
        case (Throw e)
        obtain wc where h: "?H e wd = (Return False, wc)" and hc: "keeps_env wd wc"
          "db wc = (if db_fault wd (db_calls wd) \<or> find_post (db wd) i = None then db wd
                 else (db wd)\<lparr>posts := map (\<lambda>q. if p_id q = i
                     then apply_update \<lparr>up_text = None, up_status = Some FAILED\<rparr> q else q)
                     (posts (db wd))\<rparr>)"
          using publish_handler[of i wd] by blast
        have "publishPostToTelegram i w = (Return False, wc)"
          unfolding pub using g F s \<open>xs = Return mid\<close> k Throw h by (simp add: try_catch_def bind_def)
        with assms have r: "x = Return False" "w' = wc" by simp_all
        have "keeps_chat w wc" using cd keeps_env_chat[OF hc(1)] by (rule keeps_chat_trans)
        moreover have "only_posts (db wd) (db wc)" using hc(2) by (auto split: if_splits)
        then have "only_posts (db w) (db wc)" using od only_posts_trans by blast
        moreover have "outbox wc = outbox wb" using hc(1) out_d by (simp add: keeps_env_def)
        then have "\<not> (\<exists>k. length (outbox w) \<le> k \<and> k < length (outbox wc) \<and> tg_result w k = None)"
          using ok(2) ea by auto
        ultimately show ?thesis using r by auto
      qed
    qed
  qed
  then show "keeps_chat w w'" "only_posts (db w) (db w')" "\<exists>b. x = Return b"
    "x = Return True \<Longrightarrow>
       \<exists>p mid. find_post (db w) i = Some p \<and> tg_result w (length (outbox w)) = Some mid \<and>
         posts (db w') = map (\<lambda>q. if p_id q = i
            then q\<lparr>p_status := PUBLISHED, p_telegram_message_id := Some mid,
                   p_published_at := Some (clock w)\<rparr> else q) (posts (db w)) \<and>
         db_calls w' = db_calls w + 3"
    "\<exists>k. length (outbox w) \<le> k \<and> k < length (outbox w') \<and> tg_result w k = None \<Longrightarrow>
       x = Return False \<and> db_calls w' = db_calls w + 2 \<and>
       posts (db w') = (if db_fault w (Suc (db_calls w)) then posts (db w)
          else map (\<lambda>q. if p_id q = i
                 then apply_update \<lparr>up_text = None, up_status = Some FAILED\<rparr> q else q)
                 (posts (db w)))"
    by blast+
qed

section \<open>Scheduler: failure and isolation\<close>

text \<open>
  C1 (the code differs). Claim: a failed delivery increments the attempt counter and the
  schedule stays PENDING until the counter reaches 3. The code: with one due schedule
  (attempts 0) and a platform call that fails, one tick leaves the schedule FAILED with
  attempts 1; the next tick finds no pending schedule and makes no further platform call.
\<close>

theorem tick_marks_failed_on_first_failure:
  "(let w1 = snd (checkAndPublishScheduledPosts ((due_world 1)\<lparr>tg_result := (\<lambda>k. None)\<rparr>));
        w2 = snd (checkAndPublishScheduledPosts w1)
    in map (\<lambda>x. (s_status x, s_attempts x)) (schedules (db w1)) = [(SCHEDULE_FAILED, 1)]
       \<and> map p_status (posts (db w1)) = [FAILED]
       \<and> length (outbox w1) = 1 \<and> length (outbox w2) = 1)"
  by (simp add: io_defs orm_defs service_defs publish_defs example_defs upt_rec)

text \<open>
  C5 (the code differs). Claim: an exception while delivering or updating one due record
  does not keep the later due records of the tick from being attempted. The code: two
  due schedules; the post of the first is delivered, the update of its schedule throws
  (the fifth store call), and so does the update in the handler of that exception (the
  sixth). The tick ends there: one platform call was made, the second schedule is
  untouched and its post is still SCHEDULED.
\<close>

theorem tick_aborts_when_handler_update_fails:
  "(let w1 = snd (checkAndPublishScheduledPosts
                   ((due_world 2)\<lparr>db_fault := (\<lambda>k. k = 4 \<or> k = 5)\<rparr>))
    in length (outbox w1) = 1
       \<and> map (\<lambda>x. (s_id x, s_status x, s_attempts x)) (schedules (db w1))
         = [(1, PENDING, 0), (2, PENDING, 0)]
       \<and> map p_status (posts (db w1)) = [PUBLISHED, SCHEDULED])"
  by (simp add: io_defs orm_defs service_defs publish_defs example_defs upt_rec)

section \<open>Message id and status\<close>

text \<open>
  C3 (the code differs). Claim: in every durable state a post has a message id exactly
  when its status is PUBLISHED. The code, publish-now: the row is created with status
  PUBLISHED before anything is sent; when the insertion of the first media row then
  fails, the handler stops, nothing was sent, and the row stays PUBLISHED without a
  message id. The code, scheduler: when the post was delivered and the update of the
  schedule throws, the handler of the exception sets the delivered post to FAILED, with
  its message id.
\<close>

theorem published_without_message_id:
  "(let w1 = snd (handlePublishNow ((draft_world photo_draft)\<lparr>db_fault := (\<lambda>k. k = 1)\<rparr>));
        w2 = snd (checkAndPublishScheduledPosts ((due_world 1)\<lparr>db_fault := (\<lambda>k. k = 4)\<rparr>))
    in map (\<lambda>p. (p_status p, p_telegram_message_id p)) (posts (db w1)) = [(PUBLISHED, None)]
       \<and> outbox w1 = []
       \<and> map (\<lambda>p. (p_status p, p_telegram_message_id p)) (posts (db w2)) = [(FAILED, Some 100)])"
  by (simp add: io_defs orm_defs service_defs publish_defs handler_defs example_defs upt_rec)

section \<open>The order of the keyboard\<close>

text \<open>
  C4 (the code differs). Claim: the keyboard has the rows in ascending numeric order.
  The code sorts the row numbers as strings: of two buttons in the rows 2 and 10, the
  button of row 10 comes first. (The last, empty row is the one the final
  \<^verbatim>\<open>keyboard.row()\<close> starts.)
\<close>

theorem keyboard_rows_sorted_as_strings:
  "map (map kb_text) (build_keyboard [btn ''two'' 2 0, btn ''ten'' 10 0])
     = [[''ten''], [''two''], []]"
  by (simp add: keyboard_defs example_defs Let_def)

section \<open>Duplicating a post\<close>

text \<open>
  C8 (the code differs). Claim: the media of the duplicate equal those of the original
  in file reference, type, size, caption and position. The code passes
  \<^verbatim>\<open>media.file_size || undefined\<close>: the duplicate of a media row of size 0 has no
  size.
\<close>

theorem duplicatePost_drops_zero_size:
  "(let w1 = snd (duplicatePost 1 zero_size_world)
    in map (\<lambda>m. (m_post_id m, m_file_id m, m_file_size m)) (media_rows (db w1))
         = [(1, ''f1'', Some 0), (2, ''f1'', None)])"
  by (simp add: io_defs orm_defs service_defs example_defs)

section \<open>Commit of a draft: when the session is cleared\<close>

text \<open>
  The example draft: channel 1, text \<open>hi\<close>, one photo, no buttons, to be published at
  time 2000. Saving it makes 3 store calls for the rows and one for the name of the
  channel; scheduling it makes 5 and one.
\<close>

lemma scheduled_draft_ready:
  "draft_fields (getPostDraft (draft_world scheduled_draft)) = Some (scheduled_draft, 1, ''hi'')"
  "draft_fields (getPostDraft ((draft_world scheduled_draft)\<lparr>db_fault := f\<rparr>)) = Some (scheduled_draft, 1, ''hi'')"
  "scheduledAt scheduled_draft = Some 2000"
  "length (draft_media scheduled_draft) = 1"
  "length (draft_buttons scheduled_draft) = 0"
  by (simp_all add: draft_fields_def getPostDraft_def draft_media_def draft_buttons_def example_defs)

lemma scheduled_draft_cleared:
  "postDraft (session (snd (handleSaveDraft (draft_world scheduled_draft)))) = None"
  "postDraft (session (snd (handleScheduledPost (draft_world scheduled_draft)))) = None"
  by (simp_all add: io_defs orm_defs service_defs handler_defs example_defs draft_fields_def
      draft_media_def draft_buttons_def getPostDraft_def clearPostDraft_def)

lemma scheduled_draft_faults:
  "store_fails_within ((draft_world scheduled_draft)\<lparr>db_fault := (\<lambda>k. k = 2)\<rparr>)
     (1 + 2 * length (draft_media scheduled_draft) + length (draft_buttons scheduled_draft))"
  "store_fails_within ((draft_world scheduled_draft)\<lparr>db_fault := (\<lambda>k. k = 4)\<rparr>)
     (1 + 2 * length (draft_media scheduled_draft) + length (draft_buttons scheduled_draft) + 2)"
  unfolding scheduled_draft_ready(4,5)
  by (simp_all add: store_fails_within_def draft_world_def world0_def upt_rec)

lemma scheduled_draft_chat:
  "\<not> chat_fault ((draft_world scheduled_draft)\<lparr>db_fault := f\<rparr>)
       (chat_calls ((draft_world scheduled_draft)\<lparr>db_fault := f\<rparr>))"
  "chat ((draft_world scheduled_draft)\<lparr>db_fault := f\<rparr>) = []"
  "session ((draft_world scheduled_draft)\<lparr>db_fault := f\<rparr>) = session (draft_world scheduled_draft)"
  by (simp_all add: example_defs)

text \<open>
  C6, with the store calls that count made explicit. \<open>handleSaveDraft\<close> and
  \<open>handleScheduledPost\<close>, called with a draft that has a channel and a text (and, for the
  second, a time): when the draft is gone from the session afterwards, the rows of the
  draft are in the store (the post, one media row for each media file, one button row for
  each button, and for a scheduled post its pending schedule). When the rows are not
  written, or when the store fails at one of the calls that write them (the first
  \<open>1 + 2 * media + buttons\<close> store calls of the handler, two more for a schedule), the
  session is exactly as before and the admin is sent the failure message of the handler
  (delivered when the reply does not fail): a fixed text for a draft, a text carrying the
  message of the error for a schedule. The store call that follows the writes, the lookup
  of the channel for the name in the confirmation, is not among them.
\<close>

theorem commit_clears_draft_only_after_writes:
  assumes "draft_fields (getPostDraft w) = Some (draft, c, t)"
  shows "(postDraft (session (snd (handleSaveDraft w))) = None \<longrightarrow>
            rows_written DRAFT draft c t (db w) (db (snd (handleSaveDraft w)))) \<and>
         (\<not> rows_written DRAFT draft c t (db w) (db (snd (handleSaveDraft w))) \<or>
          store_fails_within w (1 + 2 * length (draft_media draft) + length (draft_buttons draft)) \<longrightarrow>
            session (snd (handleSaveDraft w)) = session w \<and>
            (\<not> chat_fault w (chat_calls w) \<longrightarrow>
               chat (snd (handleSaveDraft w)) = chat w @ [Reply SaveDraftFailedMessage])) \<and>
         (\<forall>due. scheduledAt draft = Some due \<longrightarrow>
            (postDraft (session (snd (handleScheduledPost w))) = None \<longrightarrow>
               rows_written SCHEDULED draft c t (db w) (db (snd (handleScheduledPost w))) \<and>
               schedule_written due (db w) (db (snd (handleScheduledPost w)))) \<and>
            (\<not> (rows_written SCHEDULED draft c t (db w) (db (snd (handleScheduledPost w))) \<and>
                schedule_written due (db w) (db (snd (handleScheduledPost w)))) \<or>
             store_fails_within w (1 + 2 * length (draft_media draft) + length (draft_buttons draft) + 2) \<longrightarrow>
               session (snd (handleScheduledPost w)) = session w \<and>
               (\<not> chat_fault w (chat_calls w) \<longrightarrow>
                  (\<exists>e. chat (snd (handleScheduledPost w)) = chat w @ [Reply (ScheduleFailedMessage e)]))))"
  using save_draft_commit[OF assms] scheduled_commit[OF assms] by blast

text \<open>
  The theorem at the example draft: with a store that does not fail both handlers clear
  the draft, so the rows are written; with the store failing at the insertion of the media
  row (third call), respectively at the update of the post after the schedule was
  inserted (fifth call), the session keeps the draft and the admin gets the failure
  message.
\<close>

theorem commit_clears_draft_only_after_writes_witness:
  "rows_written DRAFT scheduled_draft 1 ''hi'' (db (draft_world scheduled_draft))
       (db (snd (handleSaveDraft (draft_world scheduled_draft)))) \<and>
   rows_written SCHEDULED scheduled_draft 1 ''hi'' (db (draft_world scheduled_draft))
       (db (snd (handleScheduledPost (draft_world scheduled_draft)))) \<and>
   schedule_written 2000 (db (draft_world scheduled_draft))
       (db (snd (handleScheduledPost (draft_world scheduled_draft)))) \<and>
   session (snd (handleSaveDraft ((draft_world scheduled_draft)\<lparr>db_fault := (\<lambda>k. k = 2)\<rparr>))) =
     session (draft_world scheduled_draft) \<and>
   chat (snd (handleSaveDraft ((draft_world scheduled_draft)\<lparr>db_fault := (\<lambda>k. k = 2)\<rparr>))) =
     [Reply SaveDraftFailedMessage] \<and>
   session (snd (handleScheduledPost ((draft_world scheduled_draft)\<lparr>db_fault := (\<lambda>k. k = 4)\<rparr>))) =
     session (draft_world scheduled_draft) \<and>
   (\<exists>e. chat (snd (handleScheduledPost ((draft_world scheduled_draft)\<lparr>db_fault := (\<lambda>k. k = 4)\<rparr>))) =
     [Reply (ScheduleFailedMessage e)])"
proof -
  note a = commit_clears_draft_only_after_writes[OF scheduled_draft_ready(1)]
  note b = commit_clears_draft_only_after_writes[OF scheduled_draft_ready(2), of "\<lambda>k. k = 2"]
  note c = commit_clears_draft_only_after_writes[OF scheduled_draft_ready(2), of "\<lambda>k. k = 4"]
  from a scheduled_draft_cleared(1)
  have 1: "rows_written DRAFT scheduled_draft 1 ''hi'' (db (draft_world scheduled_draft))
       (db (snd (handleSaveDraft (draft_world scheduled_draft))))" by blast
  from a scheduled_draft_ready(3) scheduled_draft_cleared(2)
  have 2: "rows_written SCHEDULED scheduled_draft 1 ''hi'' (db (draft_world scheduled_draft))
       (db (snd (handleScheduledPost (draft_world scheduled_draft)))) \<and>
     schedule_written 2000 (db (draft_world scheduled_draft))
       (db (snd (handleScheduledPost (draft_world scheduled_draft))))" by blast
  from b scheduled_draft_faults(1) scheduled_draft_chat(1)[of "\<lambda>k. k = 2"]
  have 3: "session (snd (handleSaveDraft ((draft_world scheduled_draft)\<lparr>db_fault := (\<lambda>k. k = 2)\<rparr>))) =
      session ((draft_world scheduled_draft)\<lparr>db_fault := (\<lambda>k. k = 2)\<rparr>) \<and>
    chat (snd (handleSaveDraft ((draft_world scheduled_draft)\<lparr>db_fault := (\<lambda>k. k = 2)\<rparr>))) =
      chat ((draft_world scheduled_draft)\<lparr>db_fault := (\<lambda>k. k = 2)\<rparr>) @ [Reply SaveDraftFailedMessage]"
    by blast
  from c scheduled_draft_ready(3) scheduled_draft_faults(2) scheduled_draft_chat(1)[of "\<lambda>k. k = 4"]
  have 4: "session (snd (handleScheduledPost ((draft_world scheduled_draft)\<lparr>db_fault := (\<lambda>k. k = 4)\<rparr>))) =
      session ((draft_world scheduled_draft)\<lparr>db_fault := (\<lambda>k. k = 4)\<rparr>) \<and>
    (\<exists>e. chat (snd (handleScheduledPost ((draft_world scheduled_draft)\<lparr>db_fault := (\<lambda>k. k = 4)\<rparr>))) =
      chat ((draft_world scheduled_draft)\<lparr>db_fault := (\<lambda>k. k = 4)\<rparr>) @ [Reply (ScheduleFailedMessage e)])"
    by blast
  from 1 2 3 4 show ?thesis by (simp add: scheduled_draft_chat(2,3))
qed

text \<open>
  C6, the lookup of the channel. The last store call of both handlers is
  \<open>getChannelById\<close>, which catches the error of the store and returns \<open>null\<close>. When
  exactly this call fails (the fourth call of \<open>handleSaveDraft\<close>, the sixth of
  \<open>handleScheduledPost\<close> for the example draft), the draft is cleared and the admin gets
  the confirmation with the default name of the channel, not a failure message.
\<close>

theorem commit_clears_draft_after_failed_lookup:
  "(let w = (draft_world scheduled_draft)\<lparr>db_fault := (\<lambda>k. k = 3)\<rparr>; w' = snd (handleSaveDraft w)
    in db_fault w 3 \<and> db_calls w' = 4 \<and> postDraft (session w') = None \<and>
       chat w' = [EditMessageText (PostCreatedMessage default_channel_name None True)]) \<and>
   (let w = (draft_world scheduled_draft)\<lparr>db_fault := (\<lambda>k. k = 5)\<rparr>; w' = snd (handleScheduledPost w)
    in db_fault w 5 \<and> db_calls w' = 6 \<and> postDraft (session w') = None \<and>
       chat w' = [EditMessageText (PostCreatedMessage default_channel_name (Some 2000) False)])"
  by (simp add: io_defs orm_defs service_defs handler_defs example_defs)

section \<open>Publish now: a delivery that fails\<close>

lemma find_after: "find P xs = None \<Longrightarrow> find P (xs @ ys) = find P ys"
  by (induction xs) (auto split: if_splits)

lemma find_fresh: "store_ok s \<Longrightarrow> find (\<lambda>q. p_id q = next_post_id s) (posts s) = None"
  by (auto simp: store_ok_def find_None_iff list_all_iff)

lemma map_other_ids:
  "\<forall>q\<in>set xs. p_id q \<noteq> n \<Longrightarrow> map (\<lambda>q. if p_id q = n then g q else q) xs = xs"
  by (induction xs) auto

lemma find_post_kept:
  assumes "store_ok s" "p_id p = next_post_id s" "posts s' = posts s @ [p]"
  shows "find_post s' (next_post_id s) = Some p"
  using assms find_fresh[OF assms(1)] by (simp add: find_post_def find_after)

lemma find_post_updated:
  assumes "store_ok s" "p_id p = next_post_id s" "p_id (g p) = next_post_id s"
    and "posts s' = map (\<lambda>q. if p_id q = next_post_id s then g q else q) (posts s @ [p])"
  shows "find_post s' (next_post_id s) = Some (g p)"
proof -
  have "\<forall>q\<in>set (posts s). p_id q \<noteq> next_post_id s"
    using assms(1) by (auto simp: store_ok_def list_all_iff)
  then have "map (\<lambda>q. if p_id q = next_post_id s then g q else q) (posts s) = posts s"
    by (rule map_other_ids)
  then have "posts s' = posts s @ [g p]" using assms(2,4) by simp
  then show ?thesis
    using find_fresh[OF assms(1)] assms(3) by (simp add: find_post_def find_after)
qed

lemma createPost_channels:
  assumes "createPost d w = (Return p, w1)"
  shows "channels (db w1) = channels (db w)"
  using assms
  by (auto simp: createPost_def try_catch_def db_call_def post_create_def throw_def
      Let_def split: if_splits option.splits)

lemma save_rows_channels:
  assumes "save_rows st d c t w = (Return p, w')"
  shows "channels (db w') = channels (db w)"
proof -
  from assms obtain p0 w1 w2 where
    1: "createPost \<lparr>cp_channelId = c, cp_text = t, cp_status = Some st\<rparr> w = (Return p0, w1)"
    and 2: "add_draft_media (p_id p0) d w1 = (Return (), w2)"
    and 3: "add_draft_buttons (p_id p0) d w2 = (Return (), w')"
    by (auto simp: save_rows_def bind_def ret_def split: prod.splits outcome.splits)
  from createPost_channels[OF 1] posts_safeD[OF posts_safe_add_draft_media 2]
    posts_safeD[OF posts_safe_add_draft_buttons 3]
  show ?thesis by (simp add: keeps_posts_def)
qed

lemma save_rows_calls:
  assumes "save_rows st d c t w = (Return p, w')"
  shows "db_calls w' = db_calls w + (1 + 2 * length (draft_media d) + length (draft_buttons d))"
  using strict_save_rows[of d st c t, unfolded strict_def, rule_format, OF assms] by simp

lemma getChannelById_cases:
  "\<exists>w'. getChannelById c w =
            (Return (if db_fault w (db_calls w) then None else find_channel (db w) c), w') \<and>
         db w' = db w \<and> keeps_env w w'"
  by (auto simp: getChannelById_def try_catch_def db_call_def channel_findUnique_def ret_def
      keeps_env_def Let_def)

lemma notify_cases:
  "\<exists>w'. notify m w = (Return (), w') \<and> db w' = db w \<and> session w' = session w \<and>
        outbox w' = outbox w \<and>
        (\<not> chat_fault w (chat_calls w) \<longrightarrow> chat w' = chat w @ [EditMessageText m]) \<and>
        (chat_fault w (chat_calls w) \<and> \<not> chat_fault w (Suc (chat_calls w)) \<longrightarrow>
           chat w' = chat w @ [Reply m])"
  by (auto simp: notify_def try_catch_def editMessageText_def reply_def chat_call_def ret_def Let_def)

lemma try_reply_outbox:
  "\<exists>w'. try_reply m w = (Return (), w') \<and> outbox w' = outbox w"
  by (auto simp: try_reply_def try_catch_def reply_def chat_call_def ret_def Let_def)

lemma handlePublishNow_failed_delivery:
  assumes ready: "draft_fields (getPostDraft w) = Some (draft, c, t)"
    and failed: "\<exists>k. length (outbox w) \<le> k \<and> k < length (outbox (snd (handlePublishNow w))) \<and>
                     tg_result w k = None"
  defines "n \<equiv> db_calls w + (1 + 2 * length (draft_media draft) + length (draft_buttons draft))"
  defines "kept \<equiv> (new_post PUBLISHED c t (db w))\<lparr>p_status :=
                     (if db_fault w (Suc n) then PUBLISHED else FAILED)\<rparr>"
  defines "m \<equiv> PostSavedNotPublished
                  (channel_name_of (if db_fault w (Suc (Suc n)) then None else find_channel (db w) c))
                  (next_post_id (db w))"
  shows "\<exists>w4 old. handlePublishNow w = (Return (), clearPostDraft w4) \<and>
           posts (db w4) = old @ [kept] \<and> length old = length (posts (db w)) \<and>
           (store_ok (db w) \<longrightarrow> find_post (db w4) (next_post_id (db w)) = Some kept) \<and>
           (\<not> chat_fault w (chat_calls w) \<longrightarrow> chat w4 = chat w @ [EditMessageText m]) \<and>
           (chat_fault w (chat_calls w) \<and> \<not> chat_fault w (Suc (chat_calls w)) \<longrightarrow>
              chat w4 = chat w @ [Reply m])"
proof -
  have h: "handlePublishNow w =
      try_catch (handlePublishNow_try draft c t) (\<lambda>error. try_reply PublishFailedMessage) w"
    using ready by (simp add: handlePublishNow_def)
  obtain rs w1 where s: "save_rows PUBLISHED draft c t w = (rs, w1)"
    by (cases "save_rows PUBLISHED draft c t w")
  note k1 = env_safeD[OF env_safe_save_rows s]
  have e1: "outbox w1 = outbox w" "tg_result w1 = tg_result w" "db_fault w1 = db_fault w"
    "chat w1 = chat w" "chat_calls w1 = chat_calls w" "chat_fault w1 = chat_fault w"
    using k1 by (simp_all add: keeps_env_def)
  show ?thesis
  proof (cases rs)
    case (Throw e)
    obtain w2 where "try_reply PublishFailedMessage w1 = (Return (), w2)" "outbox w2 = outbox w1"
      using try_reply_outbox[of PublishFailedMessage w1] by blast
    with Throw s have "outbox (snd (handlePublishNow w)) = outbox w"
      by (simp add: h try_catch_def handlePublishNow_try_def bind_def e1)
    with failed show ?thesis by auto
  next
    case (Return p)
    note sr = save_rows_Return[OF s[unfolded Return]]
    have pid: "p_id p = next_post_id (db w)" using sr(1) by (simp add: new_post_def)
    have n1: "db_calls w1 = n" using save_rows_calls[OF s[unfolded Return]] by (simp add: n_def)
    obtain xp w2 where pb: "publishPostToTelegram (p_id p) w1 = (xp, w2)"
      by (cases "publishPostToTelegram (p_id p) w1")
    note pc = publish_cases[OF pb]
    from pc(3) obtain b where b: "xp = Return b" by blast
    have e2: "db_fault w2 = db_fault w" "chat w2 = chat w" "chat_calls w2 = chat_calls w"
      "chat_fault w2 = chat_fault w" "channels (db w2) = channels (db w)"
      using pc(1,2) e1 save_rows_channels[OF s[unfolded Return]]
      by (simp_all add: keeps_chat_def only_posts_def)
    let ?ch = "if db_fault w2 (db_calls w2) then None else find_channel (db w2) c"
    obtain w3 where g: "getChannelById c w2 = (Return ?ch, w3)" and g3: "db w3 = db w2" "keeps_env w2 w3"
      using getChannelById_cases[of c w2] by blast
    let ?m = "if b then PostPublishedMessage (channel_name_of ?ch) (p_id p)
              else PostSavedNotPublished (channel_name_of ?ch) (p_id p)"
    obtain w4 where nt: "notify ?m w3 = (Return (), w4)"
      and n4: "db w4 = db w3" "outbox w4 = outbox w3"
        "\<not> chat_fault w3 (chat_calls w3) \<longrightarrow> chat w4 = chat w3 @ [EditMessageText ?m]"
        "chat_fault w3 (chat_calls w3) \<and> \<not> chat_fault w3 (Suc (chat_calls w3)) \<longrightarrow>
           chat w4 = chat w3 @ [Reply ?m]"
      using notify_cases[of ?m w3] by blast
    have "handlePublishNow_try draft c t w = clear_draft w4"
      unfolding handlePublishNow_try_def
      by (simp add: bind_def s Return pb b g nt)
    then have r: "handlePublishNow w = (Return (), clearPostDraft w4)"
      by (simp add: h try_catch_def clear_draft_def)
    have e3: "outbox w3 = outbox w2" "chat w3 = chat w" "chat_calls w3 = chat_calls w"
      "chat_fault w3 = chat_fault w"
      using g3(2) e2 by (simp_all add: keeps_env_def)
    have "outbox (snd (handlePublishNow w)) = outbox w2"
      using r n4(2) e3(1) by (simp add: clearPostDraft_def)
    with failed e1 have "\<exists>k. length (outbox w1) \<le> k \<and> k < length (outbox w2) \<and> tg_result w1 k = None"
      by simp
    from pc(5)[OF this] b have bF: "b = False" and n2: "db_calls w2 = n + 2"
      and ps: "posts (db w2) = (if db_fault w (Suc n) then posts (db w1)
          else map (\<lambda>q. if p_id q = p_id p
                 then apply_update \<lparr>up_text = None, up_status = Some FAILED\<rparr> q else q)
                 (posts (db w1)))"
      using n1 e1 by simp_all
    have up: "apply_update \<lparr>up_text = None, up_status = Some FAILED\<rparr> p = p\<lparr>p_status := FAILED\<rparr>"
      by (simp add: apply_update_def)
    have kp: "kept = (if db_fault w (Suc n) then p
                      else apply_update \<lparr>up_text = None, up_status = Some FAILED\<rparr> p)"
      unfolding kept_def up using sr(1) by (simp add: new_post_def)
    have d4: "db w4 = db w2" using n4(1) g3(1) by simp
    have "\<exists>old. posts (db w2) = old @ [kept] \<and> length old = length (posts (db w))"
      unfolding ps kp sr(3) by auto
    moreover have "store_ok (db w) \<longrightarrow> find_post (db w2) (next_post_id (db w)) = Some kept"
    proof
      assume ok: "store_ok (db w)"
      show "find_post (db w2) (next_post_id (db w)) = Some kept"
      proof (cases "db_fault w (Suc n)")
        case True
        then show ?thesis using find_post_kept[OF ok pid] ps sr(3) kp by simp
      next
        case False
        have "posts (db w2) = map (\<lambda>q. if p_id q = next_post_id (db w)
                 then apply_update \<lparr>up_text = None, up_status = Some FAILED\<rparr> q else q)
                 (posts (db w) @ [p])"
          using False ps sr(3) pid by simp
        from find_post_updated[OF ok pid _ this] False kp pid show ?thesis
          by (simp add: apply_update_def)
      qed
    qed
    moreover have "?m = m"
      using bF n2 e2 pid by (simp add: m_def find_channel_def)
    ultimately show ?thesis using r d4 n4(3,4) e3 by auto
  qed
qed

subsection \<open>The post is kept\<close>

text \<open>
  C10, with the status the post is left with made exact. \<open>handlePublishNow\<close>, called
  with a draft that has a channel and a text, when one of the platform calls it makes
  fails (the first call of the delivery, or the message with the keyboard after a media
  group): the post the handler created is kept, as the last row of the table (and, the
  ids of the table being below its next id, the row found under the new id), without a
  message id and without a time of publication. Its status is FAILED when the store takes
  the update of the status in the handler of the delivery engine (the store call number
  \<open>1 + 2 * media + buttons + 1\<close> of the handler, counting from 0), and stays PUBLISHED,
  as the row was created, when that update fails. The admin is sent the message that the
  post was saved but not published, by an edit of the message or, when the edit fails, by
  a reply; it names the channel, or the default name when the lookup of the channel
  fails. The draft is gone from the session.
\<close>

theorem publish_now_keeps_post_when_delivery_fails:
  assumes "draft_fields (getPostDraft w) = Some (draft, c, t)"
    and "\<exists>k. length (outbox w) \<le> k \<and> k < length (outbox (snd (handlePublishNow w))) \<and>
             tg_result w k = None"
  shows "(let w' = snd (handlePublishNow w);
              n = db_calls w + (1 + 2 * length (draft_media draft) + length (draft_buttons draft));
              kept = (new_post PUBLISHED c t (db w))\<lparr>p_status :=
                       (if db_fault w (Suc n) then PUBLISHED else FAILED)\<rparr>;
              m = PostSavedNotPublished
                    (channel_name_of (if db_fault w (Suc (Suc n)) then None
                                      else find_channel (db w) c))
                    (next_post_id (db w))
          in length (posts (db w')) = Suc (length (posts (db w))) \<and>
             last (posts (db w')) = kept \<and>
             (store_ok (db w) \<longrightarrow> find_post (db w') (next_post_id (db w)) = Some kept) \<and>
             (\<not> chat_fault w (chat_calls w) \<longrightarrow> chat w' = chat w @ [EditMessageText m]) \<and>
             (chat_fault w (chat_calls w) \<and> \<not> chat_fault w (Suc (chat_calls w)) \<longrightarrow>
                chat w' = chat w @ [Reply m]) \<and>
             postDraft (session w') = None)"
proof -
  from handlePublishNow_failed_delivery[OF assms] obtain w4 old where
    r: "handlePublishNow w = (Return (), clearPostDraft w4)"
    and f: "posts (db w4) =
      old @ [(new_post PUBLISHED c t (db w))\<lparr>p_status :=
         (if db_fault w (Suc (db_calls w + (1 + 2 * length (draft_media draft) + length (draft_buttons draft))))
          then PUBLISHED else FAILED)\<rparr>]"
      "length old = length (posts (db w))"
      "store_ok (db w) \<longrightarrow> find_post (db w4) (next_post_id (db w)) =
         Some ((new_post PUBLISHED c t (db w))\<lparr>p_status :=
         (if db_fault w (Suc (db_calls w + (1 + 2 * length (draft_media draft) + length (draft_buttons draft))))
          then PUBLISHED else FAILED)\<rparr>)"
      "\<not> chat_fault w (chat_calls w) \<longrightarrow> chat w4 = chat w @ [EditMessageText (PostSavedNotPublished
                    (channel_name_of (if db_fault w (Suc (Suc (db_calls w + (1 + 2 * length (draft_media draft) + length (draft_buttons draft))))) then None
                                      else find_channel (db w) c))
                    (next_post_id (db w)))]"
      "chat_fault w (chat_calls w) \<and> \<not> chat_fault w (Suc (chat_calls w)) \<longrightarrow>
          chat w4 = chat w @ [Reply (PostSavedNotPublished
                    (channel_name_of (if db_fault w (Suc (Suc (db_calls w + (1 + 2 * length (draft_media draft) + length (draft_buttons draft))))) then None
                                      else find_channel (db w) c))
                    (next_post_id (db w)))]"
    by blast
  have d: "db (clearPostDraft w4) = db w4" "chat (clearPostDraft w4) = chat w4"
    "postDraft (session (clearPostDraft w4)) = None"
    by (simp_all add: clearPostDraft_def)
  show ?thesis
    unfolding Let_def r snd_conv d using f by simp
qed

text \<open>
  The theorem at two examples: a draft with one photo and a platform that fails every
  call; a draft with two photos and a button, where the platform takes the media group
  and fails the message with the keyboard.
\<close>

lemma photo_draft_failed:
  "draft_fields (getPostDraft ((draft_world photo_draft)\<lparr>tg_result := (\<lambda>k. None)\<rparr>)) =
     Some (photo_draft, 1, ''hi'')"
  "\<exists>k. length (outbox ((draft_world photo_draft)\<lparr>tg_result := (\<lambda>k. None)\<rparr>)) \<le> k \<and>
       k < length (outbox (snd (handlePublishNow ((draft_world photo_draft)\<lparr>tg_result := (\<lambda>k. None)\<rparr>)))) \<and>
       tg_result ((draft_world photo_draft)\<lparr>tg_result := (\<lambda>k. None)\<rparr>) k = None"
proof -
  show "draft_fields (getPostDraft ((draft_world photo_draft)\<lparr>tg_result := (\<lambda>k. None)\<rparr>)) =
     Some (photo_draft, 1, ''hi'')"
    by (simp add: draft_fields_def getPostDraft_def example_defs)
  have "length (outbox (snd (handlePublishNow ((draft_world photo_draft)\<lparr>tg_result := (\<lambda>k. None)\<rparr>)))) = 1"
    by (simp add: io_defs orm_defs service_defs publish_defs handler_defs example_defs)
  then show "\<exists>k. length (outbox ((draft_world photo_draft)\<lparr>tg_result := (\<lambda>k. None)\<rparr>)) \<le> k \<and>
       k < length (outbox (snd (handlePublishNow ((draft_world photo_draft)\<lparr>tg_result := (\<lambda>k. None)\<rparr>)))) \<and>
       tg_result ((draft_world photo_draft)\<lparr>tg_result := (\<lambda>k. None)\<rparr>) k = None"
    by (intro exI[of _ 0]) (simp add: example_defs)
qed

lemma album_draft_failed:
  "draft_fields (getPostDraft ((draft_world album_draft)\<lparr>tg_result := (\<lambda>k. if k = 0 then Some 100 else None)\<rparr>)) =
     Some (album_draft, 1, ''hi'')"
  "\<exists>k. length (outbox ((draft_world album_draft)\<lparr>tg_result := (\<lambda>k. if k = 0 then Some 100 else None)\<rparr>)) \<le> k \<and>
       k < length (outbox (snd (handlePublishNow ((draft_world album_draft)\<lparr>tg_result := (\<lambda>k. if k = 0 then Some 100 else None)\<rparr>)))) \<and>
       tg_result ((draft_world album_draft)\<lparr>tg_result := (\<lambda>k. if k = 0 then Some 100 else None)\<rparr>) k = None"
proof -
  show "draft_fields (getPostDraft ((draft_world album_draft)\<lparr>tg_result := (\<lambda>k. if k = 0 then Some 100 else None)\<rparr>)) =
     Some (album_draft, 1, ''hi'')"
    by (simp add: draft_fields_def getPostDraft_def example_defs)
  have "length (outbox (snd (handlePublishNow ((draft_world album_draft)\<lparr>tg_result := (\<lambda>k. if k = 0 then Some 100 else None)\<rparr>)))) = 2"
    by (simp add: io_defs orm_defs service_defs publish_defs handler_defs keyboard_defs example_defs)
  then show "\<exists>k. length (outbox ((draft_world album_draft)\<lparr>tg_result := (\<lambda>k. if k = 0 then Some 100 else None)\<rparr>)) \<le> k \<and>
       k < length (outbox (snd (handlePublishNow ((draft_world album_draft)\<lparr>tg_result := (\<lambda>k. if k = 0 then Some 100 else None)\<rparr>)))) \<and>
       tg_result ((draft_world album_draft)\<lparr>tg_result := (\<lambda>k. if k = 0 then Some 100 else None)\<rparr>) k = None"
    by (intro exI[of _ 1]) (simp add: example_defs)
qed

lemma failed_delivery_before:
  "db_calls ((draft_world d)\<lparr>tg_result := f\<rparr>) = 0"
  "db_fault ((draft_world d)\<lparr>tg_result := f\<rparr>) k = False"
  "chat_fault ((draft_world d)\<lparr>tg_result := f\<rparr>) k = False"
  "chat ((draft_world d)\<lparr>tg_result := f\<rparr>) = []"
  "store_ok (db (draft_world d))"
  "next_post_id (db ((draft_world d)\<lparr>tg_result := f\<rparr>)) = 1"
  "find_channel (db ((draft_world d)\<lparr>tg_result := f\<rparr>)) 1 = Some news_channel"
  "channel_name_of (Some news_channel) = ''News''"
  "new_post PUBLISHED 1 ''hi'' (db ((draft_world d)\<lparr>tg_result := f\<rparr>)) =
     \<lparr>p_id = 1, p_channel_id = 1, p_text = ''hi'', p_status = PUBLISHED,
      p_published_at = None, p_telegram_message_id = None\<rparr>"
  by (simp_all add: store_ok_def find_channel_def channel_name_of_def new_post_def
      draft_world_def world0_def empty_store_def news_channel_def)

theorem publish_now_keeps_post_when_delivery_fails_witness:
  "find_post (db (snd (handlePublishNow ((draft_world photo_draft)\<lparr>tg_result := (\<lambda>k. None)\<rparr>)))) 1 =
     Some \<lparr>p_id = 1, p_channel_id = 1, p_text = ''hi'', p_status = FAILED,
           p_published_at = None, p_telegram_message_id = None\<rparr> \<and>
   chat (snd (handlePublishNow ((draft_world photo_draft)\<lparr>tg_result := (\<lambda>k. None)\<rparr>))) =
     [EditMessageText (PostSavedNotPublished ''News'' 1)] \<and>
   postDraft (session (snd (handlePublishNow ((draft_world photo_draft)\<lparr>tg_result := (\<lambda>k. None)\<rparr>)))) = None \<and>
   find_post (db (snd (handlePublishNow
       ((draft_world album_draft)\<lparr>tg_result := (\<lambda>k. if k = 0 then Some 100 else None)\<rparr>)))) 1 =
     Some \<lparr>p_id = 1, p_channel_id = 1, p_text = ''hi'', p_status = FAILED,
           p_published_at = None, p_telegram_message_id = None\<rparr> \<and>
   chat (snd (handlePublishNow
       ((draft_world album_draft)\<lparr>tg_result := (\<lambda>k. if k = 0 then Some 100 else None)\<rparr>))) =
     [EditMessageText (PostSavedNotPublished ''News'' 1)] \<and>
   postDraft (session (snd (handlePublishNow
       ((draft_world album_draft)\<lparr>tg_result := (\<lambda>k. if k = 0 then Some 100 else None)\<rparr>)))) = None"
  using publish_now_keeps_post_when_delivery_fails[OF photo_draft_failed,
      unfolded Let_def failed_delivery_before if_False]
    publish_now_keeps_post_when_delivery_fails[OF album_draft_failed,
      unfolded Let_def failed_delivery_before if_False]
  by (simp add: failed_delivery_before(5))

text \<open>
  C10, the status. Claim: the post is left with the status FAILED. The code: the handler
  of the delivery engine updates the status inside a \<^verbatim>\<open>try\<close> block of its own; when
  this update fails (the fifth store call for a draft with one photo), the post stays
  PUBLISHED, without a message id, while the admin is told that it was saved but not
  published and the draft is cleared.
\<close>

theorem publish_now_leaves_published_when_status_update_fails:
  "(let w = (draft_world photo_draft)\<lparr>tg_result := (\<lambda>k. None), db_fault := (\<lambda>k. k = 4)\<rparr>;
        w' = snd (handlePublishNow w)
    in tg_result w 0 = None \<and> length (outbox w') = 1 \<and>
       map (\<lambda>p. (p_id p, p_status p, p_telegram_message_id p)) (posts (db w')) =
         [(1, PUBLISHED, None)] \<and>
       chat w' = [EditMessageText (PostSavedNotPublished ''News'' 1)] \<and>
       postDraft (session w') = None)"
  by (simp add: io_defs orm_defs service_defs publish_defs handler_defs example_defs)

section \<open>Scheduler: a delivered record\<close>

subsection \<open>What an action leaves as it was\<close>

lemma preservesD: "preserves g m \<Longrightarrow> m w = (r, w') \<Longrightarrow> g w' = g w"
  by (auto simp: preserves_def)

lemma preserves_ret: "preserves g (ret x)" and preserves_throw: "preserves g (throw e)"
  and preserves_get_clock: "preserves g get_clock"
  and preserves_get_botInstance: "preserves g get_botInstance"
  by (auto simp: preserves_def ret_def throw_def get_clock_def get_botInstance_def)

lemma preserves_bind: "preserves g m \<Longrightarrow> (\<And>x. preserves g (f x)) \<Longrightarrow> preserves g (bind m f)"
  unfolding preserves_def bind_def
  by (auto split: prod.splits outcome.splits)

lemma preserves_try_catch:
  "preserves g m \<Longrightarrow> (\<And>e. preserves g (h e)) \<Longrightarrow> preserves g (try_catch m h)"
  unfolding preserves_def try_catch_def
  by (auto split: prod.splits outcome.splits)

lemma preserves_for_each: "(\<And>x. preserves g (f x)) \<Longrightarrow> preserves g (for_each xs f)"
proof (induction xs)
  case Nil
  show ?case by (auto simp: preserves_def)
next
  case (Cons x xs)
  then show ?case unfolding for_each_bind by (intro preserves_bind) auto
qed

lemma preserves_db_call:
  assumes "\<And>s r s'. f s = (r, s') \<Longrightarrow> h s' = h s"
  shows "preserves (\<lambda>w. h (db w)) (db_call f)"
  unfolding preserves_def
proof (intro allI impI)
  fix w r w' assume c: "db_call f w = (r, w')"
  obtain r0 s' where f: "f (db w) = (r0, s')" by (cases "f (db w)")
  from c f assms[OF f] show "h (db w') = h (db w)"
    by (auto simp: db_call_def Let_def split: if_splits sum.splits)
qed

lemma preserves_stats_publish: "preserves (\<lambda>w. post_statistics (db w)) (publishPostToTelegram i)"
  unfolding preserves_def using publish_cases(2) by (auto simp: only_posts_def)

lemma preserves_stats_process: "preserves (\<lambda>w. post_statistics (db w)) (process_schedule sch)"
  unfolding process_schedule_def
  by (intro preserves_try_catch preserves_bind preserves_get_botInstance)
     (auto split: option.splits
       intro!: preserves_throw preserves_bind preserves_stats_publish preserves_get_clock
         preserves_ret preserves_db_call
       simp: schedule_update_def post_update_def)

lemma preserves_stats_tick: "preserves (\<lambda>w. post_statistics (db w)) checkAndPublishScheduledPosts"
  unfolding checkAndPublishScheduledPosts_def
  by (intro preserves_try_catch preserves_bind preserves_get_clock preserves_ret)
     (auto intro!: preserves_db_call preserves_ret preserves_for_each preserves_stats_process
       simp: schedule_findMany_due_def)

subsection \<open>The rows after the delivery\<close>

lemma find_map_key:
  assumes "\<And>y. k (f y) = k y"
  shows "find (\<lambda>y. k y = i) (map (\<lambda>y. if k y = i then f y else y) xs) =
         map_option f (find (\<lambda>y. k y = i) xs)"
  using assms by (induction xs) auto

lemma process_schedule_delivered:
  assumes bot: "botInstance w \<noteq> None"
    and ok: "fst (publishPostToTelegram (s_post_id sch) w) = Return True"
    and row: "find_schedule (db w) (s_id sch) = Some x"
    and upd: "\<not> db_fault w (db_calls w + 3)"
  shows "find_schedule (db (snd (process_schedule sch w))) (s_id sch) =
           Some (x\<lparr>s_status := SCHEDULE_PUBLISHED, s_published_at := Some (clock w)\<rparr>)"
    and "\<exists>p mid. find_post (db w) (s_post_id sch) = Some p \<and>
           tg_result w (length (outbox w)) = Some mid \<and>
           find_post (db (snd (process_schedule sch w))) (s_post_id sch) =
             Some (p\<lparr>p_status := PUBLISHED, p_telegram_message_id := Some mid,
                     p_published_at := Some (clock w)\<rparr>)"
proof -
  obtain w1 where p: "publishPostToTelegram (s_post_id sch) w = (Return True, w1)"
    using ok by (cases "publishPostToTelegram (s_post_id sch) w") simp
  note c = publish_cases[OF p]
  from c(4) obtain p0 mid where p0: "find_post (db w) (s_post_id sch) = Some p0"
    and mid: "tg_result w (length (outbox w)) = Some mid"
    and ps: "posts (db w1) = map (\<lambda>q. if p_id q = s_post_id sch
            then q\<lparr>p_status := PUBLISHED, p_telegram_message_id := Some mid,
                   p_published_at := Some (clock w)\<rparr> else q) (posts (db w))"
    and n: "db_calls w1 = db_calls w + 3" by auto
  have e1: "clock w1 = clock w" "db_fault w1 = db_fault w" "schedules (db w1) = schedules (db w)"
    using c(1,2) by (simp_all add: keeps_chat_def only_posts_def)
  let ?f = "\<lambda>x. x\<lparr>s_status := SCHEDULE_PUBLISHED, s_published_at := Some (clock w1)\<rparr>"
  obtain xq w2 where q: "db_call (schedule_update (s_id sch) ?f) w1 = (xq, w2)"
    by (cases "db_call (schedule_update (s_id sch) ?f) w1")
  from schedule_update_cases(3)[OF q] upd row n e1
  obtain y where xq: "xq = Return y"
    and d2: "db w2 = (db w1)\<lparr>schedules := map (\<lambda>y. if s_id y = s_id sch then ?f y else y)
                 (schedules (db w1))\<rparr>"
    by (auto simp: find_schedule_def split: if_splits)
  obtain b where b: "botInstance w = Some b" using bot by auto
  have r: "process_schedule sch w = (Return (), w2)"
    unfolding process_schedule_def
    by (simp add: try_catch_def bind_def get_botInstance_def b p get_clock_def q xq ret_def)
  have "find_schedule (db w2) (s_id sch) = map_option ?f (find_schedule (db w) (s_id sch))"
    unfolding find_schedule_def d2 using e1(3) by (simp add: find_map_key)
  then show "find_schedule (db (snd (process_schedule sch w))) (s_id sch) =
           Some (x\<lparr>s_status := SCHEDULE_PUBLISHED, s_published_at := Some (clock w)\<rparr>)"
    using r row e1(1) by simp
  have "find_post (db w2) (s_post_id sch) =
      map_option (\<lambda>q. q\<lparr>p_status := PUBLISHED, p_telegram_message_id := Some mid,
                   p_published_at := Some (clock w)\<rparr>) (find_post (db w) (s_post_id sch))"
    unfolding find_post_def d2 using ps by (simp add: find_map_key)
  then show "\<exists>p mid. find_post (db w) (s_post_id sch) = Some p \<and>
           tg_result w (length (outbox w)) = Some mid \<and>
           find_post (db (snd (process_schedule sch w))) (s_post_id sch) =
             Some (p\<lparr>p_status := PUBLISHED, p_telegram_message_id := Some mid,
                     p_published_at := Some (clock w)\<rparr>)"
    using r p0 mid by simp
qed

text \<open>The tick: the query for the due records, then the body of the loop for each of
  them in turn; an exception that leaves the loop ends the tick.\<close>

lemma tick_loop:
  "checkAndPublishScheduledPosts w =
     (case db_call (schedule_findMany_due (clock w)) w of
        (Return due, w1) \<Rightarrow> (Return (), snd (for_each due process_schedule w1))
      | (Throw e, w1) \<Rightarrow> (Return (), w1))"
  by (auto simp: checkAndPublishScheduledPosts_def try_catch_def bind_def get_clock_def ret_def
      split: prod.splits outcome.splits)

subsection \<open>A delivered record is set to PUBLISHED\<close>

text \<open>
  C2, without the record of statistics. \<open>process_schedule\<close> is the body of the loop of
  the tick, run for a due record in the world the loop has reached. When the bot is set,
  the delivery of the post of the record succeeds (\<open>publishPostToTelegram\<close> returns
  \<open>true\<close>; it makes three store calls) and the store takes the update of the schedule
  that follows (the fourth store call): the schedule of the record is PUBLISHED with the
  time of the clock; the post is PUBLISHED with the time of the clock and the message id
  the platform returned for the first call of the delivery; and the table of statistics
  is as it was. Every tick, whatever happens in it, leaves the table of statistics as it
  was.
\<close>

theorem process_schedule_sets_published:
  assumes "botInstance w \<noteq> None"
    and "fst (publishPostToTelegram (s_post_id sch) w) = Return True"
    and "find_schedule (db w) (s_id sch) = Some x"
    and "\<not> db_fault w (db_calls w + 3)"
  shows "find_schedule (db (snd (process_schedule sch w))) (s_id sch) =
           Some (x\<lparr>s_status := SCHEDULE_PUBLISHED, s_published_at := Some (clock w)\<rparr>) \<and>
         (\<exists>p mid. find_post (db w) (s_post_id sch) = Some p \<and>
            tg_result w (length (outbox w)) = Some mid \<and>
            find_post (db (snd (process_schedule sch w))) (s_post_id sch) =
              Some (p\<lparr>p_status := PUBLISHED, p_telegram_message_id := Some mid,
                      p_published_at := Some (clock w)\<rparr>)) \<and>
         post_statistics (db (snd (process_schedule sch w))) = post_statistics (db w) \<and>
         (\<forall>w0. post_statistics (db (snd (checkAndPublishScheduledPosts w0))) =
                 post_statistics (db w0))"
proof -
  have "post_statistics (db (snd (process_schedule sch w))) = post_statistics (db w)"
    using preservesD[OF preserves_stats_process, of sch w] by (cases "process_schedule sch w") simp
  moreover have "post_statistics (db (snd (checkAndPublishScheduledPosts w0))) = post_statistics (db w0)"
    for w0
    using preservesD[OF preserves_stats_tick, of w0] by (cases "checkAndPublishScheduledPosts w0") simp
  ultimately show ?thesis using process_schedule_delivered[OF assms] by simp
qed

text \<open>
  The theorem at the example: one due schedule for a scheduled post, the platform
  answering with message id 100, the clock at 1000.
\<close>

lemma due_record_delivered:
  "botInstance (due_world 1) \<noteq> None"
  "fst (publishPostToTelegram (s_post_id (pending_schedule 1)) (due_world 1)) = Return True"
  "find_schedule (db (due_world 1)) (s_id (pending_schedule 1)) = Some (pending_schedule 1)"
  "\<not> db_fault (due_world 1) (db_calls (due_world 1) + 3)"
  by (simp_all add: io_defs orm_defs service_defs publish_defs example_defs upt_rec)

lemma due_record_before:
  "s_id (pending_schedule 1) = 1" "s_post_id (pending_schedule 1) = 1"
  "find_post (db (due_world 1)) 1 = Some (scheduled_post 1)"
  "tg_result (due_world 1) (length (outbox (due_world 1))) = Some 100"
  "clock (due_world 1) = 1000"
  "post_statistics (db (due_world 1)) = []"
  by (simp_all add: orm_defs example_defs upt_rec)

theorem process_schedule_sets_published_witness:
  "find_schedule (db (snd (process_schedule (pending_schedule 1) (due_world 1)))) 1 =
     Some ((pending_schedule 1)\<lparr>s_status := SCHEDULE_PUBLISHED, s_published_at := Some 1000\<rparr>) \<and>
   find_post (db (snd (process_schedule (pending_schedule 1) (due_world 1)))) 1 =
     Some ((scheduled_post 1)\<lparr>p_status := PUBLISHED, p_telegram_message_id := Some 100,
                               p_published_at := Some 1000\<rparr>) \<and>
   post_statistics (db (snd (process_schedule (pending_schedule 1) (due_world 1)))) = []"
  using process_schedule_sets_published[OF due_record_delivered, unfolded due_record_before]
  by auto

text \<open>
  C2, the record of statistics. Claim: a successful delivery also creates a Statistics
  record for the post. The code: after a tick that delivers the one due post, schedule
  and post are PUBLISHED with time stamp 1000 and message id 100, and the table of
  statistics is empty.
\<close>

theorem tick_success_creates_no_statistics:
  "(let w1 = snd (checkAndPublishScheduledPosts (due_world 1))
    in map (\<lambda>x. (s_status x, s_published_at x)) (schedules (db w1))
         = [(SCHEDULE_PUBLISHED, Some 1000)]
       \<and> map (\<lambda>p. (p_status p, p_published_at p, p_telegram_message_id p)) (posts (db w1))
         = [(PUBLISHED, Some 1000, Some 100)]
       \<and> post_statistics (db w1) = [])"
  by (simp add: io_defs orm_defs service_defs publish_defs example_defs upt_rec)


end
